theory Spec2Isabelle
  imports Complex_Main
begin

section \<open>Feature visualization by activation maximization (optvis.py)\<close>

text \<open>
  The script optimizes an image, held as a buffer of Fourier coefficients, so that one unit
  of a network responds strongly. This theory embeds its functions one by one. Tensors are
  nested lists of real numbers: \<open>float32\<close> values are idealised as reals, so infinities and
  NaN are outside the model, and so is rounding, except in the colour transform, whose
  arithmetic is a parameter (see there). Every Python exception is a value of type
  \<open>error\<close>; a function that can raise returns \<open>error + 'a\<close> with \<open>Inl\<close> for the exception.
  The wrapped libraries (NumPy's random generator, the autograd engine, the optimizer, the
  image-transform library and the network itself) are parameters, collected in the record
  \<open>framework\<close>; the discrete Fourier transforms are written out as the sums the library
  documents.
\<close>

subsection \<open>Python values\<close>

datatype error = ValueError | IndexError | TypeError | RuntimeError | ZeroDivisionError

text \<open>\<open>int(x)\<close> on a float truncates towards zero.\<close>

definition py_int :: "real \<Rightarrow> int" where
  "py_int x = (if 0 \<le> x then \<lfloor>x\<rfloor> else \<lceil>x\<rceil>)"

text \<open>\<open>xs[i]\<close>: a negative index counts from the end, an index out of range raises.\<close>

definition py_get :: "'a list \<Rightarrow> int \<Rightarrow> error + 'a" where
  "py_get xs i =
     (if 0 \<le> i \<and> i < int (length xs) then Inr (xs ! nat i)
      else if i < 0 \<and> - int (length xs) \<le> i then Inr (xs ! nat (int (length xs) + i))
      else Inl IndexError)"

subsection \<open>Tensors\<close>

type_synonym tensor1 = "real list"
type_synonym tensor2 = "real list list"
type_synonym tensor3 = "real list list list"
type_synonym tensor4 = "real list list list list"
type_synonym tensor5 = "real list list list list list"

text \<open>
  \<open>t.shape\<close>, read along the first elements. (A nested list with an empty dimension
  has forgotten the sizes below it; they read as 0.)
\<close>

definition shape_of :: "('a \<Rightarrow> nat list) \<Rightarrow> nat \<Rightarrow> 'a list \<Rightarrow> nat list" where
  "shape_of sh r t = length t # (case t of [] \<Rightarrow> replicate r 0 | x # _ \<Rightarrow> sh x)"

definition shape1 :: "tensor1 \<Rightarrow> nat list" where
  "shape1 t = [length t]"

definition shape2 :: "tensor2 \<Rightarrow> nat list" where
  "shape2 = shape_of shape1 1"

definition shape3 :: "tensor3 \<Rightarrow> nat list" where
  "shape3 = shape_of shape2 2"

definition shape4 :: "tensor4 \<Rightarrow> nat list" where
  "shape4 = shape_of shape3 3"

definition shape5 :: "tensor5 \<Rightarrow> nat list" where
  "shape5 = shape_of shape4 4"

text \<open>A nested list is a tensor of a given shape when every level has the stated length.\<close>

definition has_shape2 :: "nat \<Rightarrow> nat \<Rightarrow> tensor2 \<Rightarrow> bool" where
  "has_shape2 h w t \<longleftrightarrow> length t = h \<and> list_all (\<lambda>r. length r = w) t"

definition has_shape3 :: "nat \<Rightarrow> nat \<Rightarrow> nat \<Rightarrow> tensor3 \<Rightarrow> bool" where
  "has_shape3 c h w t \<longleftrightarrow> length t = c \<and> list_all (has_shape2 h w) t"

definition has_shape4 :: "nat \<Rightarrow> nat \<Rightarrow> nat \<Rightarrow> nat \<Rightarrow> tensor4 \<Rightarrow> bool" where
  "has_shape4 n c h w t \<longleftrightarrow> length t = n \<and> list_all (has_shape3 c h w) t"

definition has_shape5 :: "nat \<Rightarrow> nat \<Rightarrow> nat \<Rightarrow> nat \<Rightarrow> nat \<Rightarrow> tensor5 \<Rightarrow> bool" where
  "has_shape5 n c h w k t \<longleftrightarrow> length t = n \<and> list_all (has_shape4 c h w k) t"

definition tmap3 :: "(real \<Rightarrow> real) \<Rightarrow> tensor3 \<Rightarrow> tensor3" where
  "tmap3 f = map (map (map f))"

definition tmap4 :: "(real \<Rightarrow> real) \<Rightarrow> tensor4 \<Rightarrow> tensor4" where
  "tmap4 f = map (map (map (map f)))"

definition tmap5 :: "(real \<Rightarrow> real) \<Rightarrow> tensor5 \<Rightarrow> tensor5" where
  "tmap5 f = map (map (map (map (map f))))"

definition flatten3 :: "tensor3 \<Rightarrow> real list" where
  "flatten3 t = concat (concat t)"

definition flatten4 :: "tensor4 \<Rightarrow> real list" where
  "flatten4 t = concat (concat (concat t))"

definition flatten5 :: "tensor5 \<Rightarrow> real list" where
  "flatten5 t = concat (concat (concat (concat t)))"

text \<open>
  Broadcasting of an elementwise operation: two dimensions are compatible when they are
  equal or one of them is 1, and a dimension of size 1 is repeated.
\<close>

definition broadcastable :: "nat list \<Rightarrow> nat list \<Rightarrow> bool" where
  "broadcastable = list_all2 (\<lambda>a b. a = b \<or> a = 1 \<or> b = 1)"

definition bcast :: "('a \<Rightarrow> 'b \<Rightarrow> 'c) \<Rightarrow> 'a list \<Rightarrow> 'b list \<Rightarrow> 'c list" where
  "bcast f xs ys =
     (if length xs = length ys then map2 f xs ys
      else if length xs = 1 then map (f (hd xs)) ys
      else map (\<lambda>x. f x (hd ys)) xs)"

definition bcast4 :: "(real \<Rightarrow> real \<Rightarrow> real) \<Rightarrow> tensor4 \<Rightarrow> tensor4 \<Rightarrow> error + tensor4" where
  "bcast4 f a b =
     (if broadcastable (shape4 a) (shape4 b)
      then Inr (bcast (bcast (bcast (bcast f))) a b)
      else Inl RuntimeError)"

definition bcast5 :: "(real \<Rightarrow> real \<Rightarrow> real) \<Rightarrow> tensor5 \<Rightarrow> tensor5 \<Rightarrow> error + tensor5" where
  "bcast5 f a b =
     (if broadcastable (shape5 a) (shape5 b)
      then Inr (bcast (bcast (bcast (bcast (bcast f)))) a b)
      else Inl RuntimeError)"

subsection \<open>The random generator\<close>

text \<open>
  NumPy's global generator is a state of type \<open>'r\<close>; a draw returns a value and the next
  state. \<open>draw_n g n\<close> makes \<open>n\<close> successive draws, which is how an array is filled in
  row-major order.
\<close>

fun draw_n :: "('r \<Rightarrow> 'a \<times> 'r) \<Rightarrow> nat \<Rightarrow> 'r \<Rightarrow> 'a list \<times> 'r" where
  "draw_n g 0 r = ([], r)"
| "draw_n g (Suc n) r =
     (case g r of (x, r1) \<Rightarrow> (case draw_n g n r1 of (xs, r2) \<Rightarrow> (x # xs, r2)))"

subsection \<open>The Fourier parameterization\<close>

text \<open>
  \<open>init_fft_buf\<close>: \<open>np.random.normal(size=(1, 3, size, size//2 + 1, 2), scale=rand_sd)\<close>.
  The parameter \<open>normal\<close> draws one standard normal variate; NumPy returns
  \<open>loc + scale * z\<close> for each, with \<open>loc = 0\<close>, and refuses a negative scale.
\<close>

definition init_fft_buf :: "('r \<Rightarrow> real \<times> 'r) \<Rightarrow> nat \<Rightarrow> real \<Rightarrow> 'r \<Rightarrow> error + tensor5 \<times> 'r" where
  "init_fft_buf normal sz rand_sd r =
     (if rand_sd < 0 then Inl ValueError
      else Inr (draw_n (draw_n (draw_n (draw_n (draw_n
                  (\<lambda>r. case normal r of (z, r') \<Rightarrow> (0 + rand_sd * z, r'))
                  2) (sz div 2 + 1)) sz) 3) 1 r))"

text \<open>
  \<open>np.fft.fftfreq(n, d)\<close>: the frequencies \<open>0, 1, ..., (n-1)//2, -(n//2), ..., -1\<close>, each times
  \<open>1.0 / (n * d)\<close>; the quotient raises for \<open>n = 0\<close>.
\<close>

definition fftfreq :: "nat \<Rightarrow> real \<Rightarrow> error + real list" where
  "fftfreq n d =
     (if real n * d = 0 then Inl ZeroDivisionError
      else let val = 1 / (real n * d); N = (n - 1) div 2 + 1
           in Inr (map (\<lambda>k. (if k < N then real k else real k - real n) * val) [0..<n]))"

text \<open>
  \<open>x ** p\<close> on a non-negative float: \<open>0 ** 0 = 1\<close>, \<open>0 ** p = 0\<close> for positive \<open>p\<close>, and
  \<open>0 ** p\<close> is infinite for negative \<open>p\<close> (here \<open>None\<close>).
\<close>

definition np_power :: "real \<Rightarrow> real \<Rightarrow> real option" where
  "np_power x p = (if x = 0 then (if p = 0 then Some 1 else if 0 < p then Some 0 else None)
                   else Some (x powr p))"

text \<open>
  One entry of \<open>1.0 / np.maximum(freqs, 1.0 / (size*d))\<close>; where \<open>freqs\<close> is infinite the
  quotient is 0.
\<close>

definition scale_entry :: "nat \<Rightarrow> real \<Rightarrow> real \<Rightarrow> real \<Rightarrow> real \<Rightarrow> real" where
  "scale_entry sz d decay_power fy fx =
     (case np_power (fx\<^sup>2 + fy\<^sup>2) decay_power of
        None \<Rightarrow> 0
      | Some freqs \<Rightarrow> 1 / max freqs (1 / (real sz * d)))"

text \<open>\<open>get_fft_scale\<close>; the result has shape \<open>(1, 1, size, size//2 + 1, 1)\<close>.\<close>

definition get_fft_scale :: "nat \<Rightarrow> real \<Rightarrow> error + tensor5" where
  "get_fft_scale sz decay_power =
     (let d = (1 / 2) powr (1 / 2)
      in case fftfreq sz d of
           Inl e \<Rightarrow> Inl e
         | Inr fy \<Rightarrow>
             (case fftfreq sz d of
                Inl e \<Rightarrow> Inl e
              | Inr fx' \<Rightarrow>
                  let fx = take (sz div 2 + 1) fx';
                      scale = map (\<lambda>y. map (\<lambda>x. scale_entry sz d decay_power y x) fx) fy
                  in Inr [[map (map (\<lambda>s. [s])) scale]]))"

text \<open>
  \<open>torch.irfft(t, 2, normalized=True, signal_sizes=(s1, s2))\<close> on one plane of coefficients
  (\<open>s1\<close> rows of \<open>s2//2 + 1\<close> pairs of real and imaginary part): an inverse complex transform
  along the rows' index and an inverse real transform along the last one, which reads only
  the stored half of the spectrum; a coefficient that stands for itself and its mirror
  image counts twice.
\<close>

definition hermitian_weight :: "nat \<Rightarrow> nat \<Rightarrow> real" where
  "hermitian_weight n k = (if k = 0 \<or> 2 * k = n then 1 else 2)"

definition irfft2_sample :: "nat \<Rightarrow> nat \<Rightarrow> tensor3 \<Rightarrow> nat \<Rightarrow> nat \<Rightarrow> real" where
  "irfft2_sample s1 s2 z n1 n2 =
     (1 / sqrt (real (s1 * s2))) *
     (\<Sum>k2 \<le> s2 div 2. hermitian_weight s2 k2 *
        Re ((\<Sum>k1 < s1. Complex (z ! k1 ! k2 ! 0) (z ! k1 ! k2 ! 1)
                            * cis (2 * pi * real k1 * real n1 / real s1))
            * cis (2 * pi * real k2 * real n2 / real s2)))"

definition irfft2_plane :: "nat \<Rightarrow> nat \<Rightarrow> tensor3 \<Rightarrow> tensor2" where
  "irfft2_plane s1 s2 z = map (\<lambda>n1. map (\<lambda>n2. irfft2_sample s1 s2 z n1 n2) [0..<s2]) [0..<s1]"

text \<open>
  The library checks the input against \<open>signal_sizes\<close>: last dimension 2, then \<open>s1\<close> rows of
  \<open>s2//2 + 1\<close> coefficients.
\<close>

definition irfft2 :: "nat \<Rightarrow> nat \<Rightarrow> tensor5 \<Rightarrow> error + tensor4" where
  "irfft2 s1 s2 t =
     (let sh = shape5 t
      in if sh ! 4 \<noteq> 2 \<or> sh ! 2 \<noteq> s1 \<or> sh ! 3 \<noteq> s2 div 2 + 1 \<or> s1 = 0 \<or> s2 = 0
         then Inl RuntimeError
         else Inr (map (map (irfft2_plane s1 s2)) t))"

text \<open>\<open>torch.rfft(t, normalized=True, signal_ndim=2)\<close>: the one-sided forward transform.\<close>

definition rfft2_coeff :: "nat \<Rightarrow> nat \<Rightarrow> tensor2 \<Rightarrow> nat \<Rightarrow> nat \<Rightarrow> complex" where
  "rfft2_coeff h w x k1 k2 =
     complex_of_real (1 / sqrt (real (h * w))) *
     (\<Sum>n1 < h. \<Sum>n2 < w. complex_of_real (x ! n1 ! n2)
         * cis (- (2 * pi * (real k1 * real n1 / real h + real k2 * real n2 / real w))))"

definition rfft2_plane :: "nat \<Rightarrow> nat \<Rightarrow> tensor2 \<Rightarrow> tensor3" where
  "rfft2_plane h w x =
     map (\<lambda>k1. map (\<lambda>k2. [Re (rfft2_coeff h w x k1 k2), Im (rfft2_coeff h w x k1 k2)])
                   [0..<w div 2 + 1]) [0..<h]"

definition rfft2 :: "tensor4 \<Rightarrow> error + tensor5" where
  "rfft2 t =
     (let sh = shape4 t
      in if sh ! 2 = 0 \<or> sh ! 3 = 0 then Inl RuntimeError
         else Inr (map (map (rfft2_plane (sh ! 2) (sh ! 3))) t))"

text \<open>\<open>fft_to_rgb\<close>: \<open>size = t.shape[-3]\<close>, then \<open>scale * t\<close> and the inverse transform.\<close>

definition fft_to_rgb :: "real \<Rightarrow> tensor5 \<Rightarrow> error + tensor4" where
  "fft_to_rgb decay_power t =
     (let sz = shape5 t ! 2
      in case get_fft_scale sz decay_power of
           Inl e \<Rightarrow> Inl e
         | Inr scale \<Rightarrow>
             (case bcast5 (*) scale t of
                Inl e \<Rightarrow> Inl e
              | Inr t' \<Rightarrow> irfft2 sz sz t'))"

text \<open>
  \<open>rgb_to_fft\<close>: \<open>size = t.shape[-1]\<close>, the forward transform, then \<open>t / scale\<close>. (Where the
  scale is 0, which needs a negative \<open>decay_power\<close>, the float quotient is infinite or NaN
  and has no counterpart here.)
\<close>

definition rgb_to_fft :: "real \<Rightarrow> tensor4 \<Rightarrow> error + tensor5" where
  "rgb_to_fft decay_power t =
     (let sz = shape4 t ! 3
      in case rfft2 t of
           Inl e \<Rightarrow> Inl e
         | Inr t' \<Rightarrow>
             (case get_fft_scale sz decay_power of
                Inl e \<Rightarrow> Inl e
              | Inr scale \<Rightarrow> bcast5 (/) t' scale))"

subsection \<open>Colour decorrelation\<close>

text \<open>
  The colour matrix and the matrix product are computed in \<open>float32\<close>, and one claim is an
  exact identity between their results, which rounding decides. So the functions of this
  section take the rounding \<open>rnd\<close> applied to the result of every arithmetic operation: the
  program is the instance \<open>rnd = fl32\<close>, exact real arithmetic the instance \<open>rnd = (\<lambda>x. x)\<close>.

  \<open>fl32\<close> rounds a real to the nearest \<open>binary32\<close> number, ties to the even significand: for
  \<open>2^e \<le> |x| < 2^(e+1)\<close> the numbers are the multiples of \<open>2^(e-23)\<close>. (The exponent range
  is not bounded: overflow and subnormal numbers are outside the model.)
\<close>

definition round_even :: "real \<Rightarrow> int" where
  "round_even y =
     (let f = \<lfloor>y\<rfloor>
      in if y - of_int f < 1 / 2 then f
         else if 1 / 2 < y - of_int f then f + 1
         else if even f then f else f + 1)"

definition fl32 :: "real \<Rightarrow> real" where
  "fl32 x =
     (if x = 0 then 0
      else let ulp = 2 powr (of_int \<lfloor>log 2 \<bar>x\<bar>\<rfloor> - 23)
           in of_int (round_even (x / ulp)) * ulp)"

text \<open>A sum accumulated from left to right, every partial sum rounded.\<close>

definition sum_rnd :: "(real \<Rightarrow> real) \<Rightarrow> real list \<Rightarrow> real" where
  "sum_rnd rnd xs = (case xs of [] \<Rightarrow> 0 | x # ys \<Rightarrow> foldl (\<lambda>a b. rnd (a + b)) x ys)"

text \<open>The constant, as \<open>np.asarray(...).astype(np.float32)\<close> stores it.\<close>

definition color_correlation_svd_sqrt :: "(real \<Rightarrow> real) \<Rightarrow> tensor2" where
  "color_correlation_svd_sqrt rnd =
     map (map rnd)
       [[26 / 100, 9 / 100, 2 / 100],
        [27 / 100, 0, - (5 / 100)],
        [27 / 100, - (9 / 100), 3 / 100]]"

text \<open>
  \<open>np.linalg.norm(m, axis=0)\<close>: the Euclidean norm of every column, computed as
  \<open>sqrt(add.reduce(m * m, axis=0))\<close>.
\<close>

definition norm_axis0 :: "(real \<Rightarrow> real) \<Rightarrow> tensor2 \<Rightarrow> real list" where
  "norm_axis0 rnd m =
     (case m of [] \<Rightarrow> []
      | r # _ \<Rightarrow> map (\<lambda>j. rnd (sqrt (sum_rnd rnd (map (\<lambda>row. rnd (row ! j * row ! j)) m))))
                   [0..<length r])"

definition np_max :: "real list \<Rightarrow> real" where
  "np_max v = fold max (tl v) (hd v)"

definition color_correlation_normalized :: "(real \<Rightarrow> real) \<Rightarrow> tensor2" where
  "color_correlation_normalized rnd =
     (let max_norm_svd_sqrt = np_max (norm_axis0 rnd (color_correlation_svd_sqrt rnd))
      in map (map (\<lambda>x. rnd (x / max_norm_svd_sqrt))) (color_correlation_svd_sqrt rnd))"

text \<open>\<open>t.permute(0,2,3,1)\<close> and \<open>t.permute(0,3,1,2)\<close>.\<close>

definition permute_0231 :: "tensor4 \<Rightarrow> tensor4" where
  "permute_0231 t =
     (let sh = shape4 t
      in map (\<lambda>tn. map (\<lambda>h. map (\<lambda>w. map (\<lambda>c. tn ! c ! h ! w)
            [0..<sh ! 1]) [0..<sh ! 3]) [0..<sh ! 2]) t)"

definition permute_0312 :: "tensor4 \<Rightarrow> tensor4" where
  "permute_0312 t =
     (let sh = shape4 t
      in map (\<lambda>tn. map (\<lambda>c. map (\<lambda>h. map (\<lambda>w. tn ! h ! w ! c)
            [0..<sh ! 2]) [0..<sh ! 1]) [0..<sh ! 3]) t)"

text \<open>
  \<open>torch.matmul(t, m)\<close> for a 4-D \<open>t\<close> and a matrix \<open>m\<close>: every vector along the last
  dimension is multiplied by \<open>m\<close>; the sizes must agree. Each entry of the product is the sum
  of three rounded products, taken here from left to right. (The library does not fix the
  order of the sum; nothing below depends on it.)
\<close>

definition vecmat :: "(real \<Rightarrow> real) \<Rightarrow> real list \<Rightarrow> tensor2 \<Rightarrow> real list" where
  "vecmat rnd v m = map (\<lambda>col. sum_rnd rnd (map2 (\<lambda>a b. rnd (a * b)) v col)) (transpose m)"

definition matmul :: "(real \<Rightarrow> real) \<Rightarrow> tensor4 \<Rightarrow> tensor2 \<Rightarrow> error + tensor4" where
  "matmul rnd t m =
     (if shape4 t ! 3 \<noteq> length m then Inl RuntimeError
      else Inr (map (map (map (\<lambda>v. vecmat rnd v m))) t))"

definition lucid_colorspace_to_rgb :: "(real \<Rightarrow> real) \<Rightarrow> tensor4 \<Rightarrow> error + tensor4" where
  "lucid_colorspace_to_rgb rnd t =
     (let t_flat = permute_0231 t
      in case matmul rnd t_flat (transpose (color_correlation_normalized rnd)) of
           Inl e \<Rightarrow> Inl e
         | Inr t_flat' \<Rightarrow> Inr (permute_0312 t_flat'))"

text \<open>
  \<open>torch.inverse\<close> on a 3 by 3 matrix, by cofactors; a singular matrix raises. (The entries
  of the inverse are not rounded.)
\<close>

definition det3 :: "tensor2 \<Rightarrow> real" where
  "det3 m = m ! 0 ! 0 * (m ! 1 ! 1 * m ! 2 ! 2 - m ! 1 ! 2 * m ! 2 ! 1)
          - m ! 0 ! 1 * (m ! 1 ! 0 * m ! 2 ! 2 - m ! 1 ! 2 * m ! 2 ! 0)
          + m ! 0 ! 2 * (m ! 1 ! 0 * m ! 2 ! 1 - m ! 1 ! 1 * m ! 2 ! 0)"

definition inverse3 :: "tensor2 \<Rightarrow> error + tensor2" where
  "inverse3 m =
     (if \<not> has_shape2 3 3 m \<or> det3 m = 0 then Inl RuntimeError
      else let d = det3 m
           in Inr (map (\<lambda>i. map (\<lambda>j.
                 (m ! ((j + 1) mod 3) ! ((i + 1) mod 3) * m ! ((j + 2) mod 3) ! ((i + 2) mod 3)
                  - m ! ((j + 1) mod 3) ! ((i + 2) mod 3) * m ! ((j + 2) mod 3) ! ((i + 1) mod 3)) / d)
                 [0..<3]) [0..<3]))"

definition rgb_to_lucid_colorspace :: "(real \<Rightarrow> real) \<Rightarrow> tensor4 \<Rightarrow> error + tensor4" where
  "rgb_to_lucid_colorspace rnd t =
     (let t_flat = permute_0231 t
      in case inverse3 (transpose (color_correlation_normalized rnd)) of
           Inl e \<Rightarrow> Inl e
         | Inr inverse_t \<Rightarrow>
             (case matmul rnd t_flat inverse_t of
                Inl e \<Rightarrow> Inl e
              | Inr t_flat' \<Rightarrow> Inr (permute_0312 t_flat')))"

subsection \<open>Normalization and the displayed image\<close>

definition imagenet_mean_std :: "real list \<times> real list" where
  "imagenet_mean_std =
     ([485 / 1000, 456 / 1000, 406 / 1000], [229 / 1000, 224 / 1000, 225 / 1000])"

text \<open>\<open>v[..., None, None]\<close> against a 4-D tensor: shape \<open>(1, 3, 1, 1)\<close>.\<close>

definition per_channel :: "real list \<Rightarrow> tensor4" where
  "per_channel v = [map (\<lambda>s. [[s]]) v]"

definition denormalize :: "tensor4 \<Rightarrow> error + tensor4" where
  "denormalize x =
     (case imagenet_mean_std of (mean, std) \<Rightarrow>
        (case bcast4 (*) x (per_channel std) of
           Inl e \<Rightarrow> Inl e
         | Inr y \<Rightarrow> bcast4 (+) y (per_channel mean)))"

definition normalize :: "tensor4 \<Rightarrow> error + tensor4" where
  "normalize x =
     (case imagenet_mean_std of (mean, std) \<Rightarrow>
        (case bcast4 (-) x (per_channel mean) of
           Inl e \<Rightarrow> Inl e
         | Inr y \<Rightarrow> bcast4 (/) y (per_channel std)))"

text \<open>\<open>torch.clamp(x, max=hi, min=lo)\<close>.\<close>

definition clamp :: "real \<Rightarrow> real \<Rightarrow> real \<Rightarrow> real" where
  "clamp lo hi x = min (max x lo) hi"

definition image_buf_to_rgb :: "real \<Rightarrow> tensor5 \<Rightarrow> error + tensor3" where
  "image_buf_to_rgb decay_power img_buf =
     (case fft_to_rgb decay_power img_buf of
        Inl e \<Rightarrow> Inl e
      | Inr img \<Rightarrow>
          (case lucid_colorspace_to_rgb fl32 img of
             Inl e \<Rightarrow> Inl e
           | Inr img' \<Rightarrow>
               (case denormalize img' of
                  Inl e \<Rightarrow> Inl e
                | Inr img'' \<Rightarrow> py_get (tmap4 (clamp 0 1) img'') 0)))"


text \<open>
  \<open>show_rgb\<close> with \<open>ax = None\<close>: a figure of \<open>img.shape[1]/dpi\<close> by \<open>img.shape[2]/dpi\<close>
  inches, then \<open>ax.imshow\<close> of the image permuted to height, width, channel. The quotients
  raise for \<open>dpi = 0\<close>; \<open>plt.subplots\<close> refuses a figure size that is not positive, and
  \<open>imshow\<close> an array whose last dimension is not 1, 3 or 4. The display is the list of frames
  shown so far, each with the title it got.
\<close>

type_synonym stats = "real \<times> real \<times> real \<times> real"
type_synonym frame_label = "int \<times> real \<times> stats"
type_synonym display = "(frame_label option \<times> tensor3) list"

definition permute_120 :: "tensor3 \<Rightarrow> tensor3" where
  "permute_120 t =
     (let sh = shape3 t
      in map (\<lambda>h. map (\<lambda>w. map (\<lambda>c. t ! c ! h ! w) [0..<sh ! 0]) [0..<sh ! 2]) [0..<sh ! 1])"

definition show_rgb :: "real \<Rightarrow> frame_label option \<Rightarrow> tensor3 \<Rightarrow> display \<Rightarrow> error + display" where
  "show_rgb dpi label img shown =
     (if dpi = 0 then Inl ZeroDivisionError
      else if real (shape3 img ! 1) / dpi \<le> 0 \<or> real (shape3 img ! 2) / dpi \<le> 0
        then Inl ValueError
      else if shape3 img ! 0 \<notin> {1, 3, 4} then Inl TypeError
      else Inr (shown @ [(label, permute_120 img)]))"

subsection \<open>Augmentation\<close>

text \<open>
  \<open>gpu_affine_grid\<close> unpacks \<open>(1,) + size\<close> into four dimensions, so \<open>size\<close> must have three
  entries; the result is the field's size \<open>(H, W)\<close> and the identity sampling grid.
\<close>

definition linspace :: "nat \<Rightarrow> real list" where
  "linspace n =
     (if n > 1 then map (\<lambda>i. - 1 + 2 * real i / real (n - 1)) [0..<n] else [- 1])"

definition gpu_affine_grid :: "nat list \<Rightarrow> error + (nat list \<times> tensor4)" where
  "gpu_affine_grid shp =
     (let shp4 = 1 # shp
      in if length shp4 \<noteq> 4 then Inl ValueError
         else let H = shp4 ! 2; W = shp4 ! 3
              in Inr (drop 2 shp4,
                      [map (\<lambda>i. map (\<lambda>j. [linspace W ! j, linspace H ! i]) [0..<W]) [0..<H]]))"

text \<open>
  \<open>img.squeeze()\<close> drops every dimension of size 1. \<open>squeeze3\<close> is the squeezed tensor when
  exactly one of the four dimensions is 1, the only case in which \<open>gpu_affine_grid\<close> accepts
  its shape.
\<close>

definition squeeze_shape :: "nat list \<Rightarrow> nat list" where
  "squeeze_shape shp = filter (\<lambda>d. d \<noteq> 1) shp"

definition squeeze3 :: "tensor4 \<Rightarrow> tensor3" where
  "squeeze3 t =
     (let sh = shape4 t
      in if sh ! 0 = 1 then hd t
         else if sh ! 1 = 1 then map hd t
         else if sh ! 2 = 1 then map (map hd) t
         else map (map (map hd)) t)"

text \<open>
  The calls into the image-transform library, in the order they are made, each with its
  arguments: \<open>pad(x, padding)\<close>, \<open>crop_pad(x, size, row_pct, col_pct)\<close>, \<open>zoom(x, scale)\<close>
  and \<open>rotate(x, degrees)\<close>. What the library computes from them is the framework's
  \<open>fa_apply\<close>.
\<close>

datatype tfm = Pad nat | CropPad nat real real | Zoom real | Rotate int

definition scale_factors :: "real \<Rightarrow> real list" where
  "scale_factors scale =
     (let percent = scale * 100
      in map (\<lambda>i. (100 - percent + percent / 5 * real i) / 100) [0..<11])"

definition rotate_factors :: "int \<Rightarrow> int list" where
  "rotate_factors degrees = [- degrees..degrees] @ replicate (nat (degrees div 2)) 0"

text \<open>\<open>xs[int(np.random.rand() * len(xs))]\<close> for a draw \<open>u\<close>.\<close>

definition rand_choice :: "'a list \<Rightarrow> real \<Rightarrow> error + 'a" where
  "rand_choice xs u = py_get xs (py_int (u * real (length xs)))"

definition lucid_transform_calls ::
  "('r \<Rightarrow> real \<times> 'r) \<Rightarrow> nat \<Rightarrow> nat option \<Rightarrow> real \<Rightarrow> int \<Rightarrow> 'r \<Rightarrow> error + tfm list \<times> 'r" where
  "lucid_transform_calls rand sz jitter scale degrees r =
     (let jit = (case jitter of None \<Rightarrow> sz div 2 | Some j \<Rightarrow> j)
      in case rand r of (row1, r1) \<Rightarrow>
         case rand r1 of (col1, r2) \<Rightarrow>
         case rand r2 of (u_scale, r3) \<Rightarrow>
         (case rand_choice (scale_factors scale) u_scale of
            Inl e \<Rightarrow> Inl e
          | Inr rand_scale \<Rightarrow>
              (case rand r3 of (u_rot, r4) \<Rightarrow>
               (case rand_choice (rotate_factors degrees) u_rot of
                  Inl e \<Rightarrow> Inl e
                | Inr rand_rotate \<Rightarrow>
                    (case rand r4 of (row2, r5) \<Rightarrow>
                     case rand r5 of (col2, r6) \<Rightarrow>
                       Inr ([Pad jit,
                             CropPad (sz + nat (py_int (real jit * (2 / 3)))) row1 col1,
                             Zoom rand_scale,
                             Rotate rand_rotate,
                             CropPad sz row2 col2], r6))))))"

text \<open>
  The spatial size after one library call, as the library documents it: padding adds
  \<open>padding\<close> on every side, \<open>crop_pad\<close> crops (or pads) to the requested square, and the
  affine transforms resample on the grid of the image they are given.
\<close>

fun tfm_size :: "nat \<times> nat \<Rightarrow> tfm \<Rightarrow> nat \<times> nat" where
  "tfm_size (h, w) (Pad p) = (h + 2 * p, w + 2 * p)"
| "tfm_size (h, w) (CropPad n row_pct col_pct) = (n, n)"
| "tfm_size (h, w) (Zoom s) = (h, w)"
| "tfm_size (h, w) (Rotate a) = (h, w)"

definition lucid_transforms ::
  "(tfm list \<Rightarrow> tensor3 \<Rightarrow> error + tensor3) \<Rightarrow> ('r \<Rightarrow> real \<times> 'r) \<Rightarrow> nat option \<Rightarrow> real \<Rightarrow> int
     \<Rightarrow> tensor4 \<Rightarrow> 'r \<Rightarrow> error + tensor4 \<times> 'r" where
  "lucid_transforms fa rand jitter scale degrees img r =
     (let sz = shape4 img ! 3
      in case gpu_affine_grid (squeeze_shape (shape4 img)) of
           Inl e \<Rightarrow> Inl e
         | Inr flow \<Rightarrow>
             (case lucid_transform_calls rand sz jitter scale degrees r of
                Inl e \<Rightarrow> Inl e
              | Inr (calls, r') \<Rightarrow>
                  (case fa calls (squeeze3 img) of
                     Inl e \<Rightarrow> Inl e
                   | Inr data \<Rightarrow> Inr ([data], r'))))"

subsection \<open>The optimization loop\<close>

text \<open>\<open>tensor_stats\<close>: mean, standard deviation, maximum and minimum of all entries.\<close>

definition tensor_mean :: "real list \<Rightarrow> real" where
  "tensor_mean xs = sum_list xs / real (length xs)"

definition tensor_stats :: "tensor4 \<Rightarrow> error + stats" where
  "tensor_stats t =
     (let xs = flatten4 t
      in if xs = [] then Inl RuntimeError
         else let m = tensor_mean xs
              in Inr (m,
                      sqrt (sum_list (map (\<lambda>x. (x - m)\<^sup>2) xs) / (real (length xs) - 1)),
                      fold max (tl xs) (hd xs),
                      fold min (tl xs) (hd xs)))"

definition sigmoid :: "real \<Rightarrow> real" where
  "sigmoid x = 1 / (1 + exp (- x))"

text \<open>
  The loss of lines 163 to 166. \<open>hook_out\<close> is what the forward hook stored, \<open>None\<close> as long
  as the hooked layer has not run.
\<close>

definition feature_loss :: "int option \<Rightarrow> tensor4 option \<Rightarrow> error + real" where
  "feature_loss feature hook_out =
     (case hook_out of
        None \<Rightarrow> Inl TypeError
      | Some out \<Rightarrow>
          (case py_get out 0 of
             Inl e \<Rightarrow> Inl e
           | Inr out0 \<Rightarrow>
               (case feature of
                  None \<Rightarrow> Inr (- 1 * tensor_mean (map (\<lambda>x. x\<^sup>2) (flatten3 out0)))
                | Some f \<Rightarrow>
                    (case py_get out0 f of
                       Inl e \<Rightarrow> Inl e
                     | Inr channel \<Rightarrow> Inr (- 1 * tensor_mean (concat channel))))))"

text \<open>
  \<open>torch.nn.utils.clip_grad_norm_(img_buf, grad_clip)\<close>: the gradient is scaled by
  \<open>max_norm / (total_norm + 1e-6)\<close> when that is below 1.
\<close>

definition clip_grad_norm :: "real \<Rightarrow> tensor5 \<Rightarrow> tensor5" where
  "clip_grad_norm max_norm g =
     (let total_norm = sqrt (sum_list (map (\<lambda>x. x\<^sup>2) (flatten5 g)));
          clip_coef = max_norm / (total_norm + 1 / 1000000)
      in if clip_coef < 1 then tmap5 (\<lambda>x. x * clip_coef) g else g)"

text \<open>
  The wrapped libraries. \<open>'w\<close> is the network object with the current values of all its
  tensors, \<open>'l\<close> a layer, \<open>'g\<close> the gradient fields of the network's parameters, \<open>'o\<close> the
  optimizer's internal state and \<open>'r\<close> the state of the random generator.
  \<^item> \<open>np_rand\<close>, \<open>np_normal\<close>: one draw of \<open>np.random.rand()\<close>, of a standard normal variate;
  \<^item> \<open>fa_apply\<close>: the image the transform library returns for a list of calls;
    \<open>fa_resize\<close>: \<open>vision.Image(start_image.squeeze())\<close> with its flow set to a grid of the
    given side, read back through \<open>.data\<close> (the library resamples, or raises);
  \<^item> \<open>forward\<close>: \<open>model(img)\<close>, read as the outputs of the hooked layer in the order the
    layer ran (the hook stores each in turn) and the network after the pass (a module may
    write its own tensors while it runs);
  \<^item> \<open>net_param\<close>: the value of the \<open>k\<close>-th parameter of the network;
  \<^item> \<open>backward\<close>: \<open>loss.backward()\<close> for a loss given as a function of the network and the
    buffer: the gradient with respect to the buffer, and the gradient fields of the
    network's parameters after the pass;
  \<^item> \<open>opt_init\<close>: the internal state of a new \<open>torch.optim.AdamW(..., lr, weight_decay)\<close>;
    \<open>opt_step\<close>: the update of the image buffer, given its value and gradient;
    \<open>opt_step_net\<close>: the update of the \<open>k\<close>-th parameter of the network.
\<close>

record ('w, 'l, 'g, 'o, 'r) framework =
  np_rand :: "'r \<Rightarrow> real \<times> 'r"
  np_normal :: "'r \<Rightarrow> real \<times> 'r"
  fa_apply :: "tfm list \<Rightarrow> tensor3 \<Rightarrow> error + tensor3"
  fa_resize :: "nat \<Rightarrow> tensor4 \<Rightarrow> error + tensor3"
  forward :: "'w \<Rightarrow> 'l \<Rightarrow> tensor4 \<Rightarrow> error + tensor4 list \<times> 'w"
  net_param :: "'w \<Rightarrow> nat \<Rightarrow> real list"
  backward :: "('w \<Rightarrow> tensor5 \<Rightarrow> error + real) \<Rightarrow> 'w \<Rightarrow> tensor5 \<Rightarrow> 'g \<Rightarrow> tensor5 \<times> 'g"
  opt_init :: "real \<Rightarrow> real \<Rightarrow> tensor5 \<Rightarrow> 'o"
  opt_step :: "'o \<Rightarrow> tensor5 \<Rightarrow> tensor5 \<Rightarrow> tensor5 \<times> 'o"
  opt_step_net :: "'o \<Rightarrow> nat \<Rightarrow> 'w \<Rightarrow> 'g \<Rightarrow> 'w \<times> 'o"

text \<open>
  An optimizer is built over a list of tensors, and \<open>step()\<close> updates the tensors of that
  list, each in turn, and no other. A tensor is the image buffer or a parameter of the
  network.
\<close>

datatype pref = Buf | Net nat

fun opt_step_all ::
  "('w, 'l, 'g, 'o, 'r) framework \<Rightarrow> pref list \<Rightarrow> tensor5 \<Rightarrow> 'g \<Rightarrow> tensor5 \<times> 'w \<times> 'o
     \<Rightarrow> tensor5 \<times> 'w \<times> 'o" where
  "opt_step_all fw [] grad mg (buf, w, ost) = (buf, w, ost)"
| "opt_step_all fw (Buf # ps) grad mg (buf, w, ost) =
     (case opt_step fw ost buf grad of (buf', ost') \<Rightarrow> opt_step_all fw ps grad mg (buf', w, ost'))"
| "opt_step_all fw (Net k # ps) grad mg (buf, w, ost) =
     (case opt_step_net fw ost k w mg of (w', ost') \<Rightarrow> opt_step_all fw ps grad mg (buf, w', ost'))"

text \<open>The keyword arguments of \<open>visualize_feature\<close>, with those it passes on.\<close>

record vf_args =
  arg_size :: nat
  arg_steps :: int
  arg_lr :: real
  arg_weight_decay :: real
  arg_grad_clip :: real
  arg_debug :: bool
  arg_frames :: int
  arg_show :: bool
  kw_rand_sd :: real
  kw_decay_power :: real
  kw_jitter :: "nat option"
  kw_scale :: real
  kw_degrees :: int
  kw_dpi :: real

definition default_args :: vf_args where
  "default_args =
     \<lparr> arg_size = 200, arg_steps = 500, arg_lr = 4 / 1000, arg_weight_decay = 1 / 10,
       arg_grad_clip = 1, arg_debug = False, arg_frames = 10, arg_show = True,
       kw_rand_sd = 1 / 100, kw_decay_power = 3 / 4, kw_jitter = None, kw_scale = 1 / 2,
       kw_degrees = 45, kw_dpi = 25 \<rparr>"

text \<open>
  Everything the loop reads and writes: the image buffer, the network, the gradient fields
  of the network's parameters, the optimizer (its internal state and the list of tensors it
  was built over), the hook's variable, the random generator and the display.
\<close>

record ('w, 'g, 'o, 'r) vf_state =
  img_buf :: tensor5
  model :: 'w
  model_grads :: 'g
  opt :: 'o
  opt_params :: "pref list"
  hook_out :: "tensor4 option"
  rng :: 'r
  shown :: display

text \<open>The hook keeps the last output of the layer; a pass in which it did not run keeps the old one.\<close>

definition run_hook :: "tensor4 option \<Rightarrow> tensor4 list \<Rightarrow> tensor4 option" where
  "run_hook old outs = (if outs = [] then old else Some (last outs))"

text \<open>
  Lines 157 to 166 as a function of the network and the buffer, from a given state of the
  hook and of the random generator: the image, its statistics (line 159), the augmented
  image, the forward pass and the loss; with the loss come the statistics, the hook's
  variable, the generator and the network after the pass.
\<close>

definition forward_loss ::
  "('w, 'l, 'g, 'o, 'r) framework \<Rightarrow> vf_args \<Rightarrow> 'l \<Rightarrow> int option \<Rightarrow> tensor4 option \<Rightarrow> 'r
     \<Rightarrow> 'w \<Rightarrow> tensor5 \<Rightarrow> error + (real \<times> stats \<times> tensor4 option \<times> 'r \<times> 'w)" where
  "forward_loss fw a layer feature hook r w buf =
     (case fft_to_rgb (kw_decay_power a) buf of
        Inl e \<Rightarrow> Inl e
      | Inr img1 \<Rightarrow>
          (case lucid_colorspace_to_rgb fl32 img1 of
             Inl e \<Rightarrow> Inl e
           | Inr img2 \<Rightarrow>
               (case tensor_stats img2 of
                  Inl e \<Rightarrow> Inl e
                | Inr st \<Rightarrow>
                    (case lucid_transforms (fa_apply fw) (np_rand fw) (kw_jitter a) (kw_scale a)
                            (kw_degrees a) (tmap4 (\<lambda>x. sigmoid x * 2 - 1) img2) r of
                       Inl e \<Rightarrow> Inl e
                     | Inr (img3, r') \<Rightarrow>
                         (case forward fw w layer img3 of
                            Inl e \<Rightarrow> Inl e
                          | Inr (outs, w') \<Rightarrow>
                              (let hook' = run_hook hook outs
                               in case feature_loss feature hook' of
                                    Inl e \<Rightarrow> Inl e
                                  | Inr loss \<Rightarrow> Inr (loss, st, hook', r', w')))))))"

text \<open>
  The debug frame of lines 172 to 176: \<open>i % int(steps/frames)\<close> raises when \<open>frames\<close> or the
  truncated quotient is 0; \<open>clear_output\<close> empties the display before the frame is shown.
\<close>

definition debug_frame ::
  "vf_args \<Rightarrow> int \<Rightarrow> real \<Rightarrow> stats \<Rightarrow> tensor5 \<Rightarrow> display \<Rightarrow> error + display" where
  "debug_frame a i loss st buf d =
     (if \<not> arg_debug a then Inr d
      else if arg_frames a = 0 then Inl ZeroDivisionError
      else let k = py_int (real_of_int (arg_steps a) / real_of_int (arg_frames a))
           in if k = 0 then Inl ZeroDivisionError
              else if i mod k \<noteq> 0 then Inr d
              else (case image_buf_to_rgb (kw_decay_power a) buf of
                      Inl e \<Rightarrow> Inl e
                    | Inr img \<Rightarrow> show_rgb (kw_dpi a) (Some (i, loss, st)) img []))"

text \<open>
  One iteration (lines 155 to 176), returning the loss it computed. \<open>opt.zero_grad()\<close>
  resets the gradient of the optimizer's tensors, so the gradient the optimizer sees for the
  buffer is the one this backward pass computes, clipped; \<open>opt.step()\<close> then updates the
  tensors the optimizer was built over.
\<close>

definition vf_step ::
  "('w, 'l, 'g, 'o, 'r) framework \<Rightarrow> vf_args \<Rightarrow> 'l \<Rightarrow> int option \<Rightarrow> int
     \<Rightarrow> ('w, 'g, 'o, 'r) vf_state \<Rightarrow> error + (real \<times> ('w, 'g, 'o, 'r) vf_state)" where
  "vf_step fw a layer feature i s =
     (case forward_loss fw a layer feature (hook_out s) (rng s) (model s) (img_buf s) of
        Inl e \<Rightarrow> Inl e
      | Inr (loss, st, hook', r', w') \<Rightarrow>
          (case backward fw
                  (\<lambda>w b. map_sum id fst (forward_loss fw a layer feature (hook_out s) (rng s) w b))
                  (model s) (img_buf s) (model_grads s) of
             (grad, mgrads') \<Rightarrow>
               (case opt_step_all fw (opt_params s) (clip_grad_norm (arg_grad_clip a) grad) mgrads'
                       (img_buf s, w', opt s) of
                  (buf', w'', opt') \<Rightarrow>
                    (case debug_frame a i loss st buf' (shown s) of
                       Inl e \<Rightarrow> Inl e
                     | Inr d \<Rightarrow>
                         Inr (loss, s\<lparr> img_buf := buf', model := w'', model_grads := mgrads',
                                        opt := opt', hook_out := hook', rng := r', shown := d \<rparr>)))))"

text \<open>\<open>for i in range(1, steps+1)\<close>: the steps in order, stopping at the first exception.\<close>

fun vf_loop ::
  "('w, 'l, 'g, 'o, 'r) framework \<Rightarrow> vf_args \<Rightarrow> 'l \<Rightarrow> int option \<Rightarrow> int list
     \<Rightarrow> ('w, 'g, 'o, 'r) vf_state \<Rightarrow> error + ('w, 'g, 'o, 'r) vf_state" where
  "vf_loop fw a layer feature [] s = Inr s"
| "vf_loop fw a layer feature (i # is) s =
     (case vf_step fw a layer feature i s of
        Inl e \<Rightarrow> Inl e
      | Inr (loss, s') \<Rightarrow> vf_loop fw a layer feature is s')"

text \<open>
  Lines 136 to 144: the buffer is drawn at random, or computed from \<open>start_image\<close>
  (resampled to the requested size by the transform library).
\<close>

definition initial_buf ::
  "('w, 'l, 'g, 'o, 'r) framework \<Rightarrow> vf_args \<Rightarrow> tensor4 option \<Rightarrow> 'r \<Rightarrow> error + tensor5 \<times> 'r" where
  "initial_buf fw a start_image r =
     (case start_image of
        None \<Rightarrow> init_fft_buf (np_normal fw) (arg_size a) (kw_rand_sd a) r
      | Some st \<Rightarrow>
          (case gpu_affine_grid [3, arg_size a, arg_size a] of
             Inl e \<Rightarrow> Inl e
           | Inr flow \<Rightarrow>
               (case fa_resize fw (arg_size a) st of
                  Inl e \<Rightarrow> Inl e
                | Inr data \<Rightarrow>
                    (case normalize [data] of
                       Inl e \<Rightarrow> Inl e
                     | Inr b1 \<Rightarrow>
                         (case rgb_to_lucid_colorspace fl32 b1 of
                            Inl e \<Rightarrow> Inl e
                          | Inr b2 \<Rightarrow>
                              (case rgb_to_fft (kw_decay_power a) b2 of
                                 Inl e \<Rightarrow> Inl e
                               | Inr b3 \<Rightarrow> Inr (b3, r)))))))"

text \<open>
  \<open>visualize_feature\<close>. The caller's world is the network \<open>w\<close>, its gradient fields \<open>mg\<close>,
  the random generator \<open>r\<close> and the display \<open>d\<close>; the result is the returned value
  (\<open>None\<close> for Python's \<open>None\<close>) and the final state. The optimizer is built over the list
  \<open>[img_buf]\<close> (line 146).
\<close>

definition visualize_feature ::
  "('w, 'l, 'g, 'o, 'r) framework \<Rightarrow> vf_args \<Rightarrow> 'w \<Rightarrow> 'l \<Rightarrow> int option \<Rightarrow> tensor4 option
     \<Rightarrow> 'g \<Rightarrow> 'r \<Rightarrow> display \<Rightarrow> error + (tensor3 option \<times> ('w, 'g, 'o, 'r) vf_state)" where
  "visualize_feature fw a w layer feature start_image mg r d =
     (case initial_buf fw a start_image r of
        Inl e \<Rightarrow> Inl e
      | Inr (buf, r0) \<Rightarrow>
          (let s0 = \<lparr> img_buf = buf, model = w, model_grads = mg,
                      opt = opt_init fw (arg_lr a) (arg_weight_decay a) buf,
                      opt_params = [Buf], hook_out = None, rng = r0, shown = d \<rparr>
           in case vf_loop fw a layer feature [1..arg_steps a] s0 of
                Inl e \<Rightarrow> Inl e
              | Inr s \<Rightarrow>
                  (case image_buf_to_rgb (kw_decay_power a) (img_buf s) of
                     Inl e \<Rightarrow> Inl e
                   | Inr retval \<Rightarrow>
                       (if arg_show a then
                          (if \<not> arg_debug a then
                             (case show_rgb (kw_dpi a) None retval (shown s) of
                                Inl e \<Rightarrow> Inl e
                              | Inr d' \<Rightarrow> Inr (None, s\<lparr> shown := d' \<rparr>))
                           else Inr (None, s))
                        else Inr (Some retval, s)))))"

subsection \<open>The formulas of the specification\<close>

text \<open>
  The sample frequencies \<open>fx\<close>, \<open>fy\<close> for sample spacing \<open>d = sqrt(1/2)\<close>, the power with
  \<open>0^0 = 1\<close>, and the spectral scale \<open>1/max((fx^2+fy^2)^decay_power, 1/(size*d))\<close> at row \<open>i\<close>
  and column \<open>j\<close> of the coefficient plane.
\<close>

definition spec_freq :: "nat \<Rightarrow> nat \<Rightarrow> real" where
  "spec_freq sz k =
     (if k < (sz - 1) div 2 + 1 then real k else real k - real sz) / (real sz * sqrt (1 / 2))"

definition spec_power :: "real \<Rightarrow> real \<Rightarrow> real" where
  "spec_power x p = (if p = 0 then 1 else x powr p)"

definition spec_scale :: "nat \<Rightarrow> real \<Rightarrow> nat \<Rightarrow> nat \<Rightarrow> real" where
  "spec_scale sz p i j =
     1 / max (spec_power ((spec_freq sz j)\<^sup>2 + (spec_freq sz i)\<^sup>2) p) (1 / (real sz * sqrt (1 / 2)))"

text \<open>A plane of coefficients multiplied elementwise by the spectral scale.\<close>

definition spec_scaled_plane :: "nat \<Rightarrow> real \<Rightarrow> tensor3 \<Rightarrow> tensor3" where
  "spec_scaled_plane sz p z =
     map (\<lambda>i. map (\<lambda>j. [spec_scale sz p i j * z ! i ! j ! 0, spec_scale sz p i j * z ! i ! j ! 1])
                  [0..<sz div 2 + 1]) [0..<sz]"

text \<open>A plane of coefficients divided elementwise by the spectral scale.\<close>

definition spec_unscaled_plane :: "nat \<Rightarrow> real \<Rightarrow> tensor3 \<Rightarrow> tensor3" where
  "spec_unscaled_plane sz p z =
     map (\<lambda>i. map (\<lambda>j. [z ! i ! j ! 0 / spec_scale sz p i j, z ! i ! j ! 1 / spec_scale sz p i j])
                  [0..<sz div 2 + 1]) [0..<sz]"

text \<open>
  The linear combination \<open>a*t1 + b*t2\<close> of two tensors of the same shape, and the colour
  transform as the specification describes it: at every pixel, output channel \<open>c\<close> is the
  sum over input channels \<open>k\<close> of the matrix entry \<open>(c, k)\<close> times the input.
\<close>

definition lincomb4 :: "real \<Rightarrow> tensor4 \<Rightarrow> real \<Rightarrow> tensor4 \<Rightarrow> tensor4" where
  "lincomb4 a t1 b t2 = map2 (map2 (map2 (map2 (\<lambda>x y. a * x + b * y)))) t1 t2"

definition spec_color_transform :: "tensor2 \<Rightarrow> nat \<Rightarrow> nat \<Rightarrow> tensor4 \<Rightarrow> tensor4" where
  "spec_color_transform m h w t =
     map (\<lambda>tn. map (\<lambda>c. map (\<lambda>i. map (\<lambda>j.
            m ! c ! 0 * tn ! 0 ! i ! j + m ! c ! 1 * tn ! 1 ! i ! j + m ! c ! 2 * tn ! 2 ! i ! j)
          [0..<w]) [0..<h]) [0..<3]) t"

text \<open>
  The same two with the result of every operation rounded by \<open>rnd\<close>, as a program computes
  them in floating point: \<open>a*t1 + b*t2\<close> is two products and a sum, an entry of the colour
  transform three products and two sums.
\<close>

definition lincomb4_rnd :: "(real \<Rightarrow> real) \<Rightarrow> real \<Rightarrow> tensor4 \<Rightarrow> real \<Rightarrow> tensor4 \<Rightarrow> tensor4" where
  "lincomb4_rnd rnd a t1 b t2 =
     map2 (map2 (map2 (map2 (\<lambda>x y. rnd (rnd (a * x) + rnd (b * y)))))) t1 t2"

definition color_transform_rnd :: "(real \<Rightarrow> real) \<Rightarrow> tensor2 \<Rightarrow> nat \<Rightarrow> nat \<Rightarrow> tensor4 \<Rightarrow> tensor4" where
  "color_transform_rnd rnd m h w t =
     map (\<lambda>tn. map (\<lambda>c. map (\<lambda>i. map (\<lambda>j.
            rnd (rnd (rnd (tn ! 0 ! i ! j * m ! c ! 0) + rnd (tn ! 1 ! i ! j * m ! c ! 1))
                 + rnd (tn ! 2 ! i ! j * m ! c ! 2)))
          [0..<w]) [0..<h]) [0..<3]) t"

text \<open>
  The mean of one channel (a plane of \<open>h\<close> rows and \<open>w\<close> columns), and the mean of the
  squares of a whole layer output of shape \<open>(n, c, h, w)\<close>.
\<close>

definition spec_channel_mean :: "nat \<Rightarrow> nat \<Rightarrow> tensor2 \<Rightarrow> real" where
  "spec_channel_mean h w x = (\<Sum>i<h. \<Sum>j<w. x ! i ! j) / real (h * w)"

definition spec_square_mean :: "nat \<Rightarrow> nat \<Rightarrow> nat \<Rightarrow> nat \<Rightarrow> tensor4 \<Rightarrow> real" where
  "spec_square_mean n c h w out =
     (\<Sum>m<n. \<Sum>k<c. \<Sum>i<h. \<Sum>j<w. (out ! m ! k ! i ! j)\<^sup>2) / real (n * c * h * w)"

text \<open>
  The loss as the specification describes it, for a layer output of shape \<open>(n, c, h, w)\<close>:
  minus the mean of channel \<open>feature\<close> of the first batch element (a negative index counting
  from the last channel), and minus the mean of the squares of the whole output when
  \<open>feature\<close> is \<open>None\<close>.
\<close>

definition spec_feature_loss :: "int option \<Rightarrow> nat \<Rightarrow> nat \<Rightarrow> nat \<Rightarrow> nat \<Rightarrow> tensor4 \<Rightarrow> real" where
  "spec_feature_loss feature n c h w out =
     (case feature of
        None \<Rightarrow> - spec_square_mean n c h w out
      | Some f \<Rightarrow> - spec_channel_mean h w (out ! 0 ! nat (f mod int c)))"

subsection \<open>A small instance\<close>

text \<open>
  A concrete framework on which the theorems below are exercised: images of size 2, a
  generator whose uniform draws are all \<open>1/2\<close> and whose normal draws are all 0, a transform
  library that returns a black image of the size its calls end in, a network with one
  parameter (a single number, which a forward pass leaves alone) whose hooked layer always
  outputs \<open>demo_out\<close> (two channels of 2 by 2), and an optimizer that counts its steps,
  writes \<open>demo_buf\<close> into the buffer on its fifth step, and adds 1 to any parameter of the
  network it is asked to update. The network's gradient fields count the backward passes.
\<close>

definition demo_out :: tensor4 where
  "demo_out = [[[[1, 3], [5, 7]], [[2, 2], [2, 2]]]]"

definition zero_buf :: tensor5 where
  "zero_buf = [[[[[0, 0], [0, 0]], [[0, 0], [0, 0]]],
                [[[0, 0], [0, 0]], [[0, 0], [0, 0]]],
                [[[0, 0], [0, 0]], [[0, 0], [0, 0]]]]]"

definition demo_buf :: tensor5 where
  "demo_buf = [[[[[- (100 * sqrt 2), 0], [0, 0]], [[0, 0], [0, 0]]],
                [[[0, 0], [0, 0]], [[0, 0], [0, 0]]],
                [[[0, 0], [0, 0]], [[0, 0], [0, 0]]]]]"

definition demo_apply :: "tfm list \<Rightarrow> tensor3 \<Rightarrow> error + tensor3" where
  "demo_apply calls x =
     (case foldl tfm_size (length (x ! 0), length (x ! 0 ! 0)) calls of
        (h, w) \<Rightarrow> Inr (replicate 3 (replicate h (replicate w 0))))"

definition demo_fw :: "(nat, unit, nat, nat, nat) framework" where
  "demo_fw =
     \<lparr> np_rand = (\<lambda>r. (1 / 2, Suc r)),
       np_normal = (\<lambda>r. (0, Suc r)),
       fa_apply = demo_apply,
       fa_resize = (\<lambda>n x. Inr (replicate 3 (replicate n (replicate n 0)))),
       forward = (\<lambda>w l img. Inr ([demo_out], w)),
       net_param = (\<lambda>w k. [real w]),
       backward = (\<lambda>f w b g. (b, Suc g)),
       opt_init = (\<lambda>lr wd b. 0),
       opt_step = (\<lambda>n b g. (if n = 4 then demo_buf else b, Suc n)),
       opt_step_net = (\<lambda>n k w g. (Suc w, Suc n)) \<rparr>"


definition demo_args :: vf_args where
  "demo_args = default_args \<lparr> arg_size := 2, arg_steps := 5, arg_frames := 2, kw_degrees := 0 \<rparr>"

text \<open>The same arguments with the debug frames switched on: frames at steps 2 and 4.\<close>

definition debug_args :: vf_args where
  "debug_args = demo_args \<lparr> arg_debug := True \<rparr>"

text \<open>
  The image of the zero buffer (every pixel the ImageNet mean of its channel) and the image
  of \<open>demo_buf\<close> (black).
\<close>

definition grey_img :: tensor3 where
  "grey_img = [[[485 / 1000, 485 / 1000], [485 / 1000, 485 / 1000]],
               [[456 / 1000, 456 / 1000], [456 / 1000, 456 / 1000]],
               [[406 / 1000, 406 / 1000], [406 / 1000, 406 / 1000]]]"

definition black_img :: tensor3 where
  "black_img = [[[0, 0], [0, 0]], [[0, 0], [0, 0]], [[0, 0], [0, 0]]]"

section \<open>Properties\<close>

subsection \<open>Shapes\<close>

lemma has_shape2_shape: "has_shape2 h w t \<Longrightarrow> 0 < h \<Longrightarrow> shape2 t = [h, w]"
  by (cases t) (auto simp: has_shape2_def shape2_def shape_of_def shape1_def)

lemma has_shape3_shape: "has_shape3 c h w t \<Longrightarrow> 0 < c \<Longrightarrow> 0 < h \<Longrightarrow> shape3 t = [c, h, w]"
  by (cases t) (auto simp: has_shape3_def shape3_def shape_of_def has_shape2_shape)

lemma has_shape4_shape:
  "has_shape4 n c h w t \<Longrightarrow> 0 < n \<Longrightarrow> 0 < c \<Longrightarrow> 0 < h \<Longrightarrow> shape4 t = [n, c, h, w]"
  by (cases t) (auto simp: has_shape4_def shape4_def shape_of_def has_shape3_shape)

lemma has_shape5_shape:
  "has_shape5 n c h w k t \<Longrightarrow> 0 < n \<Longrightarrow> 0 < c \<Longrightarrow> 0 < h \<Longrightarrow> 0 < w \<Longrightarrow> shape5 t = [n, c, h, w, k]"
  by (cases t) (auto simp: has_shape5_def shape5_def shape_of_def has_shape4_shape)

subsection \<open>Broadcasting and indexing\<close>

lemma bcast_same: "length xs = length ys \<Longrightarrow> bcast f xs ys = map2 f xs ys"
  by (simp add: bcast_def)

lemma bcast_left1: "bcast f [x] ys = map (f x) ys"
  by (cases ys rule: list.exhaust; cases "tl ys") (auto simp: bcast_def)

lemma bcast_right1: "bcast f xs [y] = map (\<lambda>x. f x y) xs"
  by (cases xs rule: list.exhaust; cases "tl xs") (auto simp: bcast_def)

lemma has_shape3_nth: "has_shape3 c h w t \<Longrightarrow> i < c \<Longrightarrow> has_shape2 h w (t ! i)"
  by (simp add: has_shape3_def list_all_length)

lemma has_shape4_nth: "has_shape4 n c h w t \<Longrightarrow> i < n \<Longrightarrow> has_shape3 c h w (t ! i)"
  by (simp add: has_shape4_def list_all_length)

lemma has_shape5_nth: "has_shape5 n c h w k t \<Longrightarrow> i < n \<Longrightarrow> has_shape4 c h w k (t ! i)"
  by (simp add: has_shape5_def list_all_length)

lemma has_shape2_nth_len: "has_shape2 h w x \<Longrightarrow> i < h \<Longrightarrow> length (x ! i) = w"
  by (simp add: has_shape2_def list_all_length)

lemma pair_list: "length v = 2 \<Longrightarrow> v = [v ! 0, v ! 1]"
  by (cases v; cases "tl v") auto

lemma plane_bcast_left:
  assumes z: "has_shape3 h w 2 z"
  shows "bcast (bcast (bcast f)) (map (\<lambda>i. map (\<lambda>j. [g i j]) [0..<w]) [0..<h]) z
         = map (\<lambda>i. map (\<lambda>j. [f (g i j) (z ! i ! j ! 0), f (g i j) (z ! i ! j ! 1)]) [0..<w]) [0..<h]"
proof -
  have lz: "length z = h" using z by (simp add: has_shape3_def)
  have row: "\<And>i. i < h \<Longrightarrow> length (z ! i) = w"
    using has_shape3_nth[OF z] by (simp add: has_shape2_def)
  have cell: "\<And>i j. i < h \<Longrightarrow> j < w \<Longrightarrow> length (z ! i ! j) = 2"
    by (rule has_shape2_nth_len[OF has_shape3_nth[OF z]])
  show ?thesis
  proof (rule nth_equalityI)
    show "length (bcast (bcast (bcast f)) (map (\<lambda>i. map (\<lambda>j. [g i j]) [0..<w]) [0..<h]) z)
          = length (map (\<lambda>i. map (\<lambda>j. [f (g i j) (z ! i ! j ! 0), f (g i j) (z ! i ! j ! 1)]) [0..<w]) [0..<h])"
      by (simp add: bcast_same lz)
    fix i assume "i < length (bcast (bcast (bcast f)) (map (\<lambda>i. map (\<lambda>j. [g i j]) [0..<w]) [0..<h]) z)"
    then have i: "i < h" by (simp add: bcast_same lz)
    have "bcast (bcast (bcast f)) (map (\<lambda>i. map (\<lambda>j. [g i j]) [0..<w]) [0..<h]) z ! i
          = bcast (bcast f) (map (\<lambda>j. [g i j]) [0..<w]) (z ! i)"
      using i by (simp add: bcast_same lz)
    also have "\<dots> = map (\<lambda>j. [f (g i j) (z ! i ! j ! 0), f (g i j) (z ! i ! j ! 1)]) [0..<w]"
    proof (rule nth_equalityI)
      show "length (bcast (bcast f) (map (\<lambda>j. [g i j]) [0..<w]) (z ! i))
            = length (map (\<lambda>j. [f (g i j) (z ! i ! j ! 0), f (g i j) (z ! i ! j ! 1)]) [0..<w])"
        by (simp add: bcast_same row[OF i])
      fix j assume "j < length (bcast (bcast f) (map (\<lambda>j. [g i j]) [0..<w]) (z ! i))"
      then have j: "j < w" by (simp add: bcast_same row[OF i])
      have "bcast (bcast f) (map (\<lambda>j. [g i j]) [0..<w]) (z ! i) ! j = bcast f [g i j] (z ! i ! j)"
        using j by (simp add: bcast_same row[OF i])
      also have "\<dots> = map (f (g i j)) [z ! i ! j ! 0, z ! i ! j ! 1]"
        using pair_list[OF cell[OF i j]] by (simp only: bcast_left1)
      finally show "bcast (bcast f) (map (\<lambda>j. [g i j]) [0..<w]) (z ! i) ! j
            = map (\<lambda>j. [f (g i j) (z ! i ! j ! 0), f (g i j) (z ! i ! j ! 1)]) [0..<w] ! j"
        using j by simp
    qed
    finally show "bcast (bcast (bcast f)) (map (\<lambda>i. map (\<lambda>j. [g i j]) [0..<w]) [0..<h]) z ! i
          = map (\<lambda>i. map (\<lambda>j. [f (g i j) (z ! i ! j ! 0), f (g i j) (z ! i ! j ! 1)]) [0..<w]) [0..<h] ! i"
      using i by simp
  qed
qed

lemma plane_bcast_right:
  assumes z: "has_shape3 h w 2 z"
  shows "bcast (bcast (bcast f)) z (map (\<lambda>i. map (\<lambda>j. [g i j]) [0..<w]) [0..<h])
         = map (\<lambda>i. map (\<lambda>j. [f (z ! i ! j ! 0) (g i j), f (z ! i ! j ! 1) (g i j)]) [0..<w]) [0..<h]"
proof -
  have lz: "length z = h" using z by (simp add: has_shape3_def)
  have row: "\<And>i. i < h \<Longrightarrow> length (z ! i) = w"
    using has_shape3_nth[OF z] by (simp add: has_shape2_def)
  have cell: "\<And>i j. i < h \<Longrightarrow> j < w \<Longrightarrow> length (z ! i ! j) = 2"
    by (rule has_shape2_nth_len[OF has_shape3_nth[OF z]])
  show ?thesis
  proof (rule nth_equalityI)
    show "length (bcast (bcast (bcast f)) z (map (\<lambda>i. map (\<lambda>j. [g i j]) [0..<w]) [0..<h]))
          = length (map (\<lambda>i. map (\<lambda>j. [f (z ! i ! j ! 0) (g i j), f (z ! i ! j ! 1) (g i j)]) [0..<w]) [0..<h])"
      by (simp add: bcast_same lz)
    fix i assume "i < length (bcast (bcast (bcast f)) z (map (\<lambda>i. map (\<lambda>j. [g i j]) [0..<w]) [0..<h]))"
    then have i: "i < h" by (simp add: bcast_same lz)
    have "bcast (bcast (bcast f)) z (map (\<lambda>i. map (\<lambda>j. [g i j]) [0..<w]) [0..<h]) ! i
          = bcast (bcast f) (z ! i) (map (\<lambda>j. [g i j]) [0..<w])"
      using i by (simp add: bcast_same lz)
    also have "\<dots> = map (\<lambda>j. [f (z ! i ! j ! 0) (g i j), f (z ! i ! j ! 1) (g i j)]) [0..<w]"
    proof (rule nth_equalityI)
      show "length (bcast (bcast f) (z ! i) (map (\<lambda>j. [g i j]) [0..<w]))
            = length (map (\<lambda>j. [f (z ! i ! j ! 0) (g i j), f (z ! i ! j ! 1) (g i j)]) [0..<w])"
        by (simp add: bcast_same row[OF i])
      fix j assume "j < length (bcast (bcast f) (z ! i) (map (\<lambda>j. [g i j]) [0..<w]))"
      then have j: "j < w" by (simp add: bcast_same row[OF i])
      have "bcast (bcast f) (z ! i) (map (\<lambda>j. [g i j]) [0..<w]) ! j = bcast f (z ! i ! j) [g i j]"
        using j by (simp add: bcast_same row[OF i])
      also have "\<dots> = map (\<lambda>x. f x (g i j)) [z ! i ! j ! 0, z ! i ! j ! 1]"
        using pair_list[OF cell[OF i j]] by (simp only: bcast_right1)
      finally show "bcast (bcast f) (z ! i) (map (\<lambda>j. [g i j]) [0..<w]) ! j
            = map (\<lambda>j. [f (z ! i ! j ! 0) (g i j), f (z ! i ! j ! 1) (g i j)]) [0..<w] ! j"
        using j by simp
    qed
    finally show "bcast (bcast (bcast f)) z (map (\<lambda>i. map (\<lambda>j. [g i j]) [0..<w]) [0..<h]) ! i
          = map (\<lambda>i. map (\<lambda>j. [f (z ! i ! j ! 0) (g i j), f (z ! i ! j ! 1) (g i j)]) [0..<w]) [0..<h] ! i"
      using i by simp
  qed
qed

lemma bcast_left1_fun: "bcast f [x] = map (f x)"
  by (rule ext) (rule bcast_left1)

lemma has_shape5_planes:
  assumes "has_shape5 n c h w k b" "bn \<in> set b" "z \<in> set bn"
  shows "has_shape3 h w k z"
  using assms by (auto simp: has_shape5_def has_shape4_def list_all_iff)

lemma has_shape4_planes:
  assumes "has_shape4 n c h w t" "tn \<in> set t" "x \<in> set tn"
  shows "has_shape2 h w x"
  using assms by (auto simp: has_shape4_def has_shape3_def list_all_iff)

lemma has_shape5_map:
  assumes "has_shape5 n c h w k b" "\<And>z. has_shape3 h w k z \<Longrightarrow> has_shape3 h' w' k' (f z)"
  shows "has_shape5 n c h' w' k' (map (map f) b)"
  using assms by (auto simp: has_shape5_def has_shape4_def list_all_iff)

lemma has_shape54_map:
  assumes "has_shape5 n c h w k b" "\<And>z. has_shape3 h w k z \<Longrightarrow> has_shape2 h' w' (f z)"
  shows "has_shape4 n c h' w' (map (map f) b)"
  using assms by (auto simp: has_shape5_def has_shape4_def has_shape3_def list_all_iff)

lemma has_shape45_map:
  assumes "has_shape4 n c h w t" "\<And>x. has_shape2 h w x \<Longrightarrow> has_shape3 h' w' k' (f x)"
  shows "has_shape5 n c h' w' k' (map (map f) t)"
  using assms by (auto simp: has_shape5_def has_shape4_def has_shape3_def list_all_iff)

subsection \<open>The augmentation pipeline\<close>

lemma py_int_two_thirds: "nat (py_int (real j * (2 / 3))) = 2 * j div 3"
proof -
  have "real j * (2 / 3) = real (2 * j) / real 3" by simp
  then have "\<lfloor>real j * (2 / 3)\<rfloor> = int (2 * j div 3)"
    by (simp only: floor_divide_of_nat_eq)
  then show ?thesis by (simp add: py_int_def)
qed

lemma rand_choice_member:
  assumes "0 \<le> u" "u < 1" "xs \<noteq> []"
  shows "\<exists>x \<in> set xs. rand_choice xs u = Inr x"
proof -
  let ?n = "real (length xs)"
  have n: "0 < ?n" using assms(3) by simp
  have lo: "0 \<le> u * ?n" using assms(1) by simp
  have "u * ?n < ?n" using assms(2) n by simp
  then have hi: "\<lfloor>u * ?n\<rfloor> < int (length xs)" by (simp add: floor_less_iff)
  have nonneg: "0 \<le> \<lfloor>u * ?n\<rfloor>" using lo by simp
  have "rand_choice xs u = Inr (xs ! nat \<lfloor>u * ?n\<rfloor>)"
    using lo hi nonneg by (simp add: rand_choice_def py_get_def py_int_def Let_def)
  moreover have "xs ! nat \<lfloor>u * ?n\<rfloor> \<in> set xs"
    using hi nonneg by (intro nth_mem) linarith
  ultimately show ?thesis by blast
qed

lemma rotate_factors_bound:
  assumes "0 \<le> degrees" "a \<in> set (rotate_factors degrees)"
  shows "\<bar>a\<bar> \<le> degrees"
  using assms by (auto simp: rotate_factors_def)

lemma rotate_factors_nonempty: "0 \<le> degrees \<Longrightarrow> rotate_factors degrees \<noteq> []"
  by (simp add: rotate_factors_def)

lemma scale_factors_set:
  "set (scale_factors scale) = {(100 - 100 * scale + 20 * scale * real i) / 100 | i. i \<le> 10}"
proof -
  have eq: "\<And>i::nat. (100 - scale * 100 + scale * 100 / 5 * real i) / 100
                  = (100 - 100 * scale + 20 * scale * real i) / 100"
    by (simp add: field_simps)
  have "set (scale_factors scale)
        = (\<lambda>i. (100 - scale * 100 + scale * 100 / 5 * real i) / 100) ` {0..<11}"
    by (simp only: scale_factors_def Let_def set_map set_upt)
  also have "\<dots> = (\<lambda>i. (100 - 100 * scale + 20 * scale * real i) / 100) ` {0..<11}"
    by (simp only: eq)
  also have "{0..<11::nat} = {i. i \<le> 10}" by auto
  finally show ?thesis by (auto simp: image_iff)
qed

lemma scale_factors_default:
  "scale_factors (1 / 2) = [5 / 10, 6 / 10, 7 / 10, 8 / 10, 9 / 10, 1, 11 / 10, 12 / 10, 13 / 10, 14 / 10, 15 / 10]"
  by (simp add: scale_factors_def upt_rec)

lemma scale_factors_distinct: "scale \<noteq> 0 \<Longrightarrow> distinct (scale_factors scale)"
  by (simp add: scale_factors_def Let_def distinct_map inj_on_def del: upt_Suc)

lemma py_int_two_thirds_simp: "nat (py_int (real j * 2 / 3)) = 2 * j div 3"
  using py_int_two_thirds[of j] by simp

lemma rand_choice_index:
  assumes "0 \<le> u" "u < 1" "xs \<noteq> []"
  shows "rand_choice xs u = Inr (xs ! nat (py_int (u * real (length xs))))"
    and "nat (py_int (u * real (length xs))) < length xs"
proof -
  let ?n = "real (length xs)"
  have n: "0 < ?n" using assms(3) by simp
  have lo: "0 \<le> u * ?n" using assms(1) by simp
  have "u * ?n < ?n" using assms(2) n by simp
  then have hi: "\<lfloor>u * ?n\<rfloor> < int (length xs)" by (simp add: floor_less_iff)
  have nonneg: "0 \<le> \<lfloor>u * ?n\<rfloor>" using lo by simp
  show "rand_choice xs u = Inr (xs ! nat (py_int (u * real (length xs))))"
    using lo hi nonneg by (simp add: rand_choice_def py_get_def py_int_def Let_def)
  have "nat \<lfloor>u * ?n\<rfloor> < length xs" using hi nonneg by linarith
  then show "nat (py_int (u * real (length xs))) < length xs"
    using lo by (simp add: py_int_def)
qed

lemma draw_six:
  "\<exists>u1 u2 u3 u4 u5 u6 r1 r2 r3 r4 r5 r6.
     rand r = (u1, r1) \<and> rand r1 = (u2, r2) \<and> rand r2 = (u3, r3) \<and> rand r3 = (u4, r4)
     \<and> rand r4 = (u5, r5) \<and> rand r5 = (u6, r6)
     \<and> draw_n rand 6 r = ([u1, u2, u3, u4, u5, u6], r6)"
proof -
  obtain u1 r1 where d1: "rand r = (u1, r1)" by (cases "rand r")
  obtain u2 r2 where d2: "rand r1 = (u2, r2)" by (cases "rand r1")
  obtain u3 r3 where d3: "rand r2 = (u3, r3)" by (cases "rand r2")
  obtain u4 r4 where d4: "rand r3 = (u4, r4)" by (cases "rand r3")
  obtain u5 r5 where d5: "rand r4 = (u5, r5)" by (cases "rand r4")
  obtain u6 r6 where d6: "rand r5 = (u6, r6)" by (cases "rand r5")
  have "draw_n rand 6 r = ([u1, u2, u3, u4, u5, u6], r6)"
    by (simp add: eval_nat_numeral d1 d2 d3 d4 d5 d6)
  with d1 d2 d3 d4 d5 d6 show ?thesis by blast
qed

lemma scale_factors_nth:
  assumes "i \<le> 10"
  shows "scale_factors scale ! i = (100 - 100 * scale + 20 * scale * real i) / 100"
proof -
  have "i < 11" using assms by simp
  then have "scale_factors scale ! i = (100 - scale * 100 + scale * 100 / 5 * real i) / 100"
    by (simp add: scale_factors_def Let_def del: upt_Suc)
  then show ?thesis by (simp add: field_simps)
qed

lemma lucid_transform_calls_eq:
  fixes rand :: "'r \<Rightarrow> real \<times> 'r"
  assumes rnd: "\<forall>r. 0 \<le> fst (rand r) \<and> fst (rand r) < 1"
    and deg: "0 \<le> degrees"
  shows "\<exists>u1 u2 u3 u4 u5 u6 r6 i k.
     draw_n rand 6 r = ([u1, u2, u3, u4, u5, u6], r6)
     \<and> i = nat (py_int (u3 * 11)) \<and> i \<le> 10
     \<and> k = nat (py_int (u4 * real (length (rotate_factors degrees))))
     \<and> k < length (rotate_factors degrees)
     \<and> lucid_transform_calls rand sz jitter scale degrees r
       = Inr ([Pad (case jitter of None \<Rightarrow> sz div 2 | Some j \<Rightarrow> j),
               CropPad (sz + 2 * (case jitter of None \<Rightarrow> sz div 2 | Some j \<Rightarrow> j) div 3) u1 u2,
               Zoom ((100 - 100 * scale + 20 * scale * real i) / 100),
               Rotate (rotate_factors degrees ! k),
               CropPad sz u5 u6], r6)"
proof -
  from draw_six[of rand r] obtain u1 u2 u3 u4 u5 u6 r1 r2 r3 r4 r5 r6 where
    d1: "rand r = (u1, r1)" and d2: "rand r1 = (u2, r2)" and d3: "rand r2 = (u3, r3)"
    and d4: "rand r3 = (u4, r4)" and d5: "rand r4 = (u5, r5)" and d6: "rand r5 = (u6, r6)"
    and dn: "draw_n rand 6 r = ([u1, u2, u3, u4, u5, u6], r6)"
    by blast
  have us: "0 \<le> u3" "u3 < 1" using rnd[rule_format, of r2] d3 by simp_all
  have ur: "0 \<le> u4" "u4 < 1" using rnd[rule_format, of r3] d4 by simp_all
  have ne: "scale_factors scale \<noteq> []" by (simp add: scale_factors_def Let_def)
  have len: "length (scale_factors scale) = 11" by (simp add: scale_factors_def Let_def)
  let ?i = "nat (py_int (u3 * 11))"
  let ?k = "nat (py_int (u4 * real (length (rotate_factors degrees))))"
  have i: "?i \<le> 10" using rand_choice_index(2)[OF us ne] by (simp add: len)
  have f: "rand_choice (scale_factors scale) u3
           = Inr ((100 - 100 * scale + 20 * scale * real ?i) / 100)"
    using rand_choice_index(1)[OF us ne] by (simp add: len scale_factors_nth[OF i])
  have k: "?k < length (rotate_factors degrees)"
    by (rule rand_choice_index(2)[OF ur rotate_factors_nonempty[OF deg]])
  have a: "rand_choice (rotate_factors degrees) u4 = Inr (rotate_factors degrees ! ?k)"
    by (rule rand_choice_index(1)[OF ur rotate_factors_nonempty[OF deg]])
  have "lucid_transform_calls rand sz jitter scale degrees r
       = Inr ([Pad (case jitter of None \<Rightarrow> sz div 2 | Some j \<Rightarrow> j),
               CropPad (sz + 2 * (case jitter of None \<Rightarrow> sz div 2 | Some j \<Rightarrow> j) div 3) u1 u2,
               Zoom ((100 - 100 * scale + 20 * scale * real ?i) / 100),
               Rotate (rotate_factors degrees ! ?k),
               CropPad sz u5 u6], r6)"
    by (simp add: lucid_transform_calls_def Let_def d1 d2 d3 d4 d5 d6 f a py_int_two_thirds_simp)
  with dn i k show ?thesis by blast
qed

lemma squeeze_image:
  assumes "has_shape4 1 3 sz sz img" "1 < sz"
  shows "gpu_affine_grid (squeeze_shape (shape4 img))
         = Inr ([sz, sz], [map (\<lambda>i. map (\<lambda>j. [linspace sz ! j, linspace sz ! i]) [0..<sz]) [0..<sz]])"
    and "squeeze3 img = img ! 0" and "shape4 img ! 3 = sz"
proof -
  have sh: "shape4 img = [1, 3, sz, sz]"
    using assms by (intro has_shape4_shape) simp_all
  show "gpu_affine_grid (squeeze_shape (shape4 img))
         = Inr ([sz, sz], [map (\<lambda>i. map (\<lambda>j. [linspace sz ! j, linspace sz ! i]) [0..<sz]) [0..<sz]])"
    using assms(2) by (simp add: sh squeeze_shape_def gpu_affine_grid_def Let_def)
  have "img \<noteq> []" using assms(1) by (auto simp: has_shape4_def)
  then show "squeeze3 img = img ! 0" by (simp add: sh squeeze3_def hd_conv_nth)
  show "shape4 img ! 3 = sz" by (simp add: sh)
qed

text \<open>
  C3. For a 3-channel image of spatial size \<open>size\<close> (at least 2), draws of \<open>np.random.rand()\<close>
  in \<open>[0, 1)\<close> and non-negative \<open>degrees\<close>, \<open>lucid_transforms\<close> makes six draws
  \<open>u1, ..., u6\<close> in this order and exactly these library calls in this order: pad by \<open>jitter\<close>
  (default \<open>size//2\<close>); a crop to \<open>size + floor(jitter*2/3)\<close> at the random position
  \<open>(u1, u2)\<close>; a zoom by the factor \<open>(100 - 100*scale + 20*scale*i)/100\<close> with the random
  index \<open>i = int(u3*11)\<close>, one of \<open>0, ..., 10\<close>; a rotation by the entry of index
  \<open>int(u4*len)\<close> of \<open>range(-degrees, degrees+1)\<close> followed by \<open>degrees//2\<close> zeros, an integer of
  magnitude at most \<open>degrees\<close>; and a crop to \<open>size\<close> at the random position \<open>(u5, u6)\<close>. The
  result is what the library returns for these calls on the image without its batch
  dimension; when the library gives every call's result the size that call asks for, the
  returned tensor has shape \<open>(1, 3, size, size)\<close>, the spatial size of the input.
\<close>

theorem lucid_transforms_sequence:
  fixes rand :: "'r \<Rightarrow> real \<times> 'r"
  assumes rnd: "\<forall>r. 0 \<le> fst (rand r) \<and> fst (rand r) < 1"
    and img: "has_shape4 1 3 sz sz img" and sz: "1 < sz"
    and deg: "0 \<le> degrees"
    and lib: "\<forall>calls x y h w. 0 < h \<and> 0 < w \<and> has_shape3 3 h w x \<and> fa calls x = Inr y
                \<longrightarrow> has_shape3 3 (fst (foldl tfm_size (h, w) calls))
                                    (snd (foldl tfm_size (h, w) calls)) y"
  shows "\<exists>u1 u2 u3 u4 u5 u6 r6 i k calls.
     draw_n rand 6 r = ([u1, u2, u3, u4, u5, u6], r6)
     \<and> i = nat (py_int (u3 * 11)) \<and> i \<le> 10
     \<and> k = nat (py_int (u4 * real (length (rotate_factors degrees))))
     \<and> k < length (rotate_factors degrees)
     \<and> calls = [Pad (case jitter of None \<Rightarrow> sz div 2 | Some j \<Rightarrow> j),
              CropPad (sz + 2 * (case jitter of None \<Rightarrow> sz div 2 | Some j \<Rightarrow> j) div 3) u1 u2,
              Zoom ((100 - 100 * scale + 20 * scale * real i) / 100),
              Rotate (rotate_factors degrees ! k),
              CropPad sz u5 u6]
     \<and> lucid_transforms fa rand jitter scale degrees img r
         = (case fa calls (img ! 0) of Inl e \<Rightarrow> Inl e | Inr data \<Rightarrow> Inr ([data], r6))
     \<and> rotate_factors degrees = [- degrees..degrees] @ replicate (nat (degrees div 2)) 0
     \<and> \<bar>rotate_factors degrees ! k\<bar> \<le> degrees
     \<and> scale_factors (1 / 2) = [5 / 10, 6 / 10, 7 / 10, 8 / 10, 9 / 10, 1, 11 / 10, 12 / 10, 13 / 10, 14 / 10, 15 / 10]
     \<and> (\<forall>out r'. lucid_transforms fa rand jitter scale degrees img r = Inr (out, r')
           \<longrightarrow> has_shape4 1 3 sz sz out \<and> r' = r6)"
proof -
  from lucid_transform_calls_eq[where sz = sz and jitter = jitter and scale = scale and r = r, OF rnd deg]
  obtain u1 u2 u3 u4 u5 u6 r6 i k where
    dn: "draw_n rand 6 r = ([u1, u2, u3, u4, u5, u6], r6)"
    and i: "i = nat (py_int (u3 * 11))" "i \<le> 10"
    and k: "k = nat (py_int (u4 * real (length (rotate_factors degrees))))"
      "k < length (rotate_factors degrees)"
    and calls: "lucid_transform_calls rand sz jitter scale degrees r
       = Inr ([Pad (case jitter of None \<Rightarrow> sz div 2 | Some j \<Rightarrow> j),
               CropPad (sz + 2 * (case jitter of None \<Rightarrow> sz div 2 | Some j \<Rightarrow> j) div 3) u1 u2,
               Zoom ((100 - 100 * scale + 20 * scale * real i) / 100),
               Rotate (rotate_factors degrees ! k),
               CropPad sz u5 u6], r6)"
    by blast
  let ?calls = "[Pad (case jitter of None \<Rightarrow> sz div 2 | Some j \<Rightarrow> j),
               CropPad (sz + 2 * (case jitter of None \<Rightarrow> sz div 2 | Some j \<Rightarrow> j) div 3) u1 u2,
               Zoom ((100 - 100 * scale + 20 * scale * real i) / 100),
               Rotate (rotate_factors degrees ! k),
               CropPad sz u5 u6]"
  have run: "lucid_transforms fa rand jitter scale degrees img r
         = (case fa ?calls (img ! 0) of Inl e \<Rightarrow> Inl e | Inr data \<Rightarrow> Inr ([data], r6))"
    by (simp add: lucid_transforms_def Let_def squeeze_image[OF img sz] calls)
  have rf: "rotate_factors degrees = [- degrees..degrees] @ replicate (nat (degrees div 2)) 0"
    by (simp only: rotate_factors_def)
  have bound: "\<bar>rotate_factors degrees ! k\<bar> \<le> degrees"
    by (rule rotate_factors_bound[OF deg nth_mem[OF k(2)]])
  have size: "foldl tfm_size (sz, sz) ?calls = (sz, sz)" by simp
  have i0: "has_shape3 3 sz sz (img ! 0)" by (rule has_shape4_nth[OF img]) simp
  have out: "\<forall>out r'. lucid_transforms fa rand jitter scale degrees img r = Inr (out, r')
           \<longrightarrow> has_shape4 1 3 sz sz out \<and> r' = r6"
  proof (intro allI impI)
    fix out r'
    assume o: "lucid_transforms fa rand jitter scale degrees img r = Inr (out, r')"
    with run obtain data where d: "fa ?calls (img ! 0) = Inr data" and e: "out = [data]" "r' = r6"
      by (auto split: sum.splits)
    have "0 < sz" using sz by simp
    with lib[rule_format, of sz sz "img ! 0" ?calls data] i0 d
    have "has_shape3 3 (fst (foldl tfm_size (sz, sz) ?calls)) (snd (foldl tfm_size (sz, sz) ?calls)) data"
      by blast
    then have "has_shape3 3 sz sz data" by (simp only: size fst_conv snd_conv)
    with e show "has_shape4 1 3 sz sz out \<and> r' = r6" by (simp add: has_shape4_def)
  qed
  from dn i k run rf bound out scale_factors_default show ?thesis by blast
qed

lemma demo_apply_sizes:
  "\<forall>calls x y h w. 0 < h \<and> 0 < w \<and> has_shape3 3 h w x \<and> demo_apply calls x = Inr y
     \<longrightarrow> has_shape3 3 (fst (foldl tfm_size (h, w) calls)) (snd (foldl tfm_size (h, w) calls)) y"
proof (intro allI impI, elim conjE)
  fix calls x y and h w :: nat
  assume h: "0 < h" and w: "0 < w" and x: "has_shape3 3 h w x" and y: "demo_apply calls x = Inr y"
  have x0: "has_shape2 h w (x ! 0)" by (rule has_shape3_nth[OF x]) simp
  then have l: "length (x ! 0) = h" by (simp add: has_shape2_def)
  have l2: "length (x ! 0 ! 0) = w" by (rule has_shape2_nth_len[OF x0 h])
  obtain h' w' where f: "foldl tfm_size (h, w) calls = (h', w')" by (cases "foldl tfm_size (h, w) calls")
  from y have "y = replicate 3 (replicate h' (replicate w' 0))"
    by (simp add: demo_apply_def l l2 f)
  then show "has_shape3 3 (fst (foldl tfm_size (h, w) calls)) (snd (foldl tfm_size (h, w) calls)) y"
    by (simp add: f has_shape3_def has_shape2_def list_all_iff)
qed

lemma demo_apply_blank:
  "demo_apply [Pad p, CropPad n v1 v2, Zoom f, Rotate a, CropPad 2 v5 v6]
     ([[[[0, 0], [0, 0]], [[0, 0], [0, 0]], [[0, 0], [0, 0]]]] ! 0)
   = Inr [[[0, 0], [0, 0]], [[0, 0], [0, 0]], [[0, 0], [0, 0]]]"
  by (simp add: demo_apply_def numeral_2_eq_2 numeral_3_eq_3)

theorem lucid_transforms_sequence_witness:
  "(\<forall>r::nat. 0 \<le> fst (1 / 2 :: real, Suc r) \<and> fst (1 / 2 :: real, Suc r) < 1)
   \<and> has_shape4 1 3 2 2 [[[[0, 0], [0, 0]], [[0, 0], [0, 0]], [[0, 0], [0, 0]]]]
   \<and> (1::nat) < 2 \<and> (0::int) \<le> 45
   \<and> (\<exists>u1 u2 u3 u4 u5 u6 r6 i k calls.
     draw_n (\<lambda>r::nat. (1 / 2 :: real, Suc r)) 6 0 = ([u1, u2, u3, u4, u5, u6], r6)
     \<and> i = nat (py_int (u3 * 11)) \<and> i \<le> 10
     \<and> k = nat (py_int (u4 * real (length (rotate_factors 45))))
     \<and> k < length (rotate_factors 45)
     \<and> calls = [Pad (case None of None \<Rightarrow> 2 div 2 | Some j \<Rightarrow> j),
              CropPad (2 + 2 * (case None of None \<Rightarrow> 2 div 2 | Some j \<Rightarrow> j) div 3) u1 u2,
              Zoom ((100 - 100 * (1 / 2) + 20 * (1 / 2) * real i) / 100),
              Rotate (rotate_factors 45 ! k),
              CropPad 2 u5 u6]
     \<and> lucid_transforms demo_apply (\<lambda>r::nat. (1 / 2, Suc r)) None (1 / 2) 45
           [[[[0, 0], [0, 0]], [[0, 0], [0, 0]], [[0, 0], [0, 0]]]] 0
         = (case demo_apply calls ([[[[0, 0], [0, 0]], [[0, 0], [0, 0]], [[0, 0], [0, 0]]]] ! 0) of
              Inl e \<Rightarrow> Inl e | Inr data \<Rightarrow> Inr ([data], r6))
     \<and> rotate_factors 45 = [- 45..45] @ replicate (nat (45 div 2)) 0
     \<and> \<bar>rotate_factors 45 ! k\<bar> \<le> 45
     \<and> scale_factors (1 / 2) = [5 / 10, 6 / 10, 7 / 10, 8 / 10, 9 / 10, 1, 11 / 10, 12 / 10, 13 / 10, 14 / 10, 15 / 10]
     \<and> (\<forall>out r'. lucid_transforms demo_apply (\<lambda>r::nat. (1 / 2, Suc r)) None (1 / 2) 45
                     [[[[0, 0], [0, 0]], [[0, 0], [0, 0]], [[0, 0], [0, 0]]]] 0 = Inr (out, r')
           \<longrightarrow> has_shape4 1 3 2 2 out \<and> r' = r6))
   \<and> lucid_transforms demo_apply (\<lambda>r::nat. (1 / 2, Suc r)) None (1 / 2) 45
         [[[[0, 0], [0, 0]], [[0, 0], [0, 0]], [[0, 0], [0, 0]]]] 0
       = Inr ([[[[0, 0], [0, 0]], [[0, 0], [0, 0]], [[0, 0], [0, 0]]]], 6)"
proof -
  have h1: "\<forall>r::nat. 0 \<le> fst (1 / 2 :: real, Suc r) \<and> fst (1 / 2 :: real, Suc r) < 1" by simp
  have h2: "has_shape4 1 3 2 2 [[[[0, 0], [0, 0]], [[0, 0], [0, 0]], [[0, 0], [0, 0]]]]"
    by (simp add: has_shape4_def has_shape3_def has_shape2_def)
  have h3: "(1::nat) < 2" by simp
  have h4: "(0::int) \<le> 45" by simp
  note inst = lucid_transforms_sequence[where rand = "\<lambda>r::nat. (1 / 2, Suc r)" and jitter = None
      and fa = demo_apply and scale = "1 / 2" and r = 0, OF h1 h2 h3 h4 demo_apply_sizes]
  from inst obtain u1 u2 u3 u4 u5 u6 r6 i k calls where
    dn: "draw_n (\<lambda>r::nat. (1 / 2 :: real, Suc r)) 6 0 = ([u1, u2, u3, u4, u5, u6], r6)"
    and c: "calls = [Pad (case None of None \<Rightarrow> 2 div 2 | Some j \<Rightarrow> j),
              CropPad (2 + 2 * (case None of None \<Rightarrow> 2 div 2 | Some j \<Rightarrow> j) div 3) u1 u2,
              Zoom ((100 - 100 * (1 / 2) + 20 * (1 / 2) * real i) / 100),
              Rotate (rotate_factors 45 ! k),
              CropPad 2 u5 u6]"
    and run: "lucid_transforms demo_apply (\<lambda>r::nat. (1 / 2, Suc r)) None (1 / 2) 45
           [[[[0, 0], [0, 0]], [[0, 0], [0, 0]], [[0, 0], [0, 0]]]] 0
         = (case demo_apply calls ([[[[0, 0], [0, 0]], [[0, 0], [0, 0]], [[0, 0], [0, 0]]]] ! 0) of
              Inl e \<Rightarrow> Inl e | Inr data \<Rightarrow> Inr ([data], r6))"
    by blast
  have r6: "r6 = 6" using dn by (simp add: eval_nat_numeral)
  have da: "demo_apply calls ([[[[0, 0], [0, 0]], [[0, 0], [0, 0]], [[0, 0], [0, 0]]]] ! 0)
            = Inr [[[0, 0], [0, 0]], [[0, 0], [0, 0]], [[0, 0], [0, 0]]]"
    by (simp only: c demo_apply_blank)
  have res: "lucid_transforms demo_apply (\<lambda>r::nat. (1 / 2, Suc r)) None (1 / 2) 45
         [[[[0, 0], [0, 0]], [[0, 0], [0, 0]], [[0, 0], [0, 0]]]] 0
       = Inr ([[[[0, 0], [0, 0]], [[0, 0], [0, 0]], [[0, 0], [0, 0]]]], 6)"
    by (simp only: run da r6 sum.case)
  show ?thesis by (intro conjI h1 h2 h3 h4 inst res)
qed

subsection \<open>The spectral scale and the two transforms\<close>

lemma half_powr_sqrt: "(1 / 2 :: real) powr (1 / 2) = sqrt (1 / 2)"
  by (simp add: powr_half_sqrt)

lemma np_power_spec: "0 \<le> p \<Longrightarrow> np_power x p = Some (spec_power x p)"
  by (auto simp: np_power_def spec_power_def)

lemma scale_entry_spec:
  assumes "0 \<le> p"
  shows "scale_entry sz (sqrt (1 / 2)) p (spec_freq sz i) (spec_freq sz j) = spec_scale sz p i j"
  by (simp add: scale_entry_def np_power_spec[OF assms] spec_scale_def)

lemma fftfreq_spec:
  assumes "0 < sz"
  shows "fftfreq sz (sqrt (1 / 2)) = Inr (map (spec_freq sz) [0..<sz])"
proof -
  have "real sz * sqrt (1 / 2) \<noteq> 0" using assms by simp
  then show ?thesis
    by (simp add: fftfreq_def Let_def spec_freq_def del: upt_Suc)
qed

lemma get_fft_scale_eq:
  assumes sz: "0 < sz" and p: "0 \<le> p"
  shows "get_fft_scale sz p
         = Inr [[map (\<lambda>i. map (\<lambda>j. [spec_scale sz p i j]) [0..<sz div 2 + 1]) [0..<sz]]]"
proof -
  have le: "sz div 2 + 1 \<le> sz" using sz by (cases sz) auto
  have tk: "take (sz div 2 + 1) (map (spec_freq sz) [0..<sz]) = map (spec_freq sz) [0..<sz div 2 + 1]"
    using le by (simp add: take_map del: upt_Suc)
  have "get_fft_scale sz p
        = Inr [[map (map (\<lambda>s. [s]))
             (map (\<lambda>y. map (\<lambda>x. scale_entry sz (sqrt (1 / 2)) p y x)
                        (map (spec_freq sz) [0..<sz div 2 + 1])) (map (spec_freq sz) [0..<sz]))]]"
    by (simp only: get_fft_scale_def half_powr_sqrt Let_def fftfreq_spec[OF sz] tk sum.case)
  also have "map (map (\<lambda>s. [s]))
             (map (\<lambda>y. map (\<lambda>x. scale_entry sz (sqrt (1 / 2)) p y x)
                        (map (spec_freq sz) [0..<sz div 2 + 1])) (map (spec_freq sz) [0..<sz]))
        = map (\<lambda>i. map (\<lambda>j. [spec_scale sz p i j]) [0..<sz div 2 + 1]) [0..<sz]"
    by (simp add: comp_def scale_entry_spec[OF p] del: upt_Suc)
  finally show ?thesis .
qed

lemma spec_scale_pos:
  assumes sz: "0 < sz"
  shows "0 < spec_scale sz p i j"
proof -
  have "0 < 1 / (real sz * sqrt (1 / 2))" using sz by simp
  then have "0 < max (spec_power ((spec_freq sz j)\<^sup>2 + (spec_freq sz i)\<^sup>2) p) (1 / (real sz * sqrt (1 / 2)))"
    by (rule less_max_iff_disj[THEN iffD2, OF disjI2])
  then show ?thesis by (simp only: spec_scale_def zero_less_divide_1_iff)
qed

lemma spec_scaled_plane_shape: "has_shape3 sz (sz div 2 + 1) 2 (spec_scaled_plane sz p z)"
  by (simp add: spec_scaled_plane_def has_shape3_def has_shape2_def list_all_iff del: upt_Suc)

lemma spec_unscaled_plane_shape: "has_shape3 sz (sz div 2 + 1) 2 (spec_unscaled_plane sz p z)"
  by (simp add: spec_unscaled_plane_def has_shape3_def has_shape2_def list_all_iff del: upt_Suc)

lemma rfft2_plane_shape: "has_shape3 h (w div 2 + 1) 2 (rfft2_plane h w x)"
  by (simp add: rfft2_plane_def has_shape3_def has_shape2_def list_all_iff del: upt_Suc)

lemma irfft2_plane_shape: "has_shape2 s1 s2 (irfft2_plane s1 s2 z)"
  by (simp add: irfft2_plane_def has_shape2_def list_all_iff)

lemma scale_tensor_shape:
  assumes "0 < sz"
  shows "shape5 [[map (\<lambda>i. map (\<lambda>j. [g i j]) [0..<sz div 2 + 1]) [0..<sz]]]
         = [1, 1, sz, sz div 2 + 1, 1]"
proof -
  have "has_shape5 1 1 sz (sz div 2 + 1) 1 [[map (\<lambda>i. map (\<lambda>j. [g i j]) [0..<sz div 2 + 1]) [0..<sz]]]"
    by (simp add: has_shape5_def has_shape4_def has_shape3_def has_shape2_def list_all_iff del: upt_Suc)
  then show ?thesis using assms by (intro has_shape5_shape) simp_all
qed

lemma fft_to_rgb_eq:
  assumes b: "has_shape5 n c sz (sz div 2 + 1) 2 b" and n: "0 < n" and c: "0 < c"
    and sz: "0 < sz" and p: "0 \<le> p"
  shows "fft_to_rgb p b = Inr (map (map (\<lambda>z. irfft2_plane sz sz (spec_scaled_plane sz p z))) b)"
proof -
  let ?w = "sz div 2 + 1"
  let ?S3 = "map (\<lambda>i. map (\<lambda>j. [spec_scale sz p i j]) [0..<?w]) [0..<sz]"
  have sh: "shape5 b = [n, c, sz, ?w, 2]"
    using b n c sz by (intro has_shape5_shape) simp_all
  have shS: "shape5 [[?S3]] = [1, 1, sz, ?w, 1]" by (rule scale_tensor_shape[OF sz])
  have bc: "broadcastable (shape5 [[?S3]]) (shape5 b)"
    by (simp only: sh shS) (simp add: broadcastable_def)
  have "bcast (bcast (bcast (bcast (bcast (*))))) [[?S3]] b
        = map (map (\<lambda>z. bcast (bcast (bcast (*))) ?S3 z)) b"
    by (simp only: bcast_left1 bcast_left1_fun)
  also have "\<dots> = map (map (spec_scaled_plane sz p)) b"
  proof (intro map_cong refl)
    fix bn z assume "bn \<in> set b" "z \<in> set bn"
    then have "has_shape3 sz ?w 2 z" by (rule has_shape5_planes[OF b])
    then show "bcast (bcast (bcast (*))) ?S3 z = spec_scaled_plane sz p z"
      by (simp only: plane_bcast_left spec_scaled_plane_def)
  qed
  finally have mul: "bcast5 (*) [[?S3]] b = Inr (map (map (spec_scaled_plane sz p)) b)"
    using bc by (simp only: bcast5_def if_True)
  have "has_shape5 n c sz ?w 2 (map (map (spec_scaled_plane sz p)) b)"
    by (rule has_shape5_map[OF b]) (rule spec_scaled_plane_shape)
  then have sh': "shape5 (map (map (spec_scaled_plane sz p)) b) = [n, c, sz, ?w, 2]"
    using n c sz by (intro has_shape5_shape) simp_all
  have inv: "irfft2 sz sz (map (map (spec_scaled_plane sz p)) b)
        = Inr (map (map (\<lambda>z. irfft2_plane sz sz (spec_scaled_plane sz p z))) b)"
    using sz by (simp add: irfft2_def sh' Let_def comp_def)
  have sz_eq: "shape5 b ! 2 = sz" by (simp add: sh)
  have "fft_to_rgb p b = irfft2 sz sz (map (map (spec_scaled_plane sz p)) b)"
    by (simp only: fft_to_rgb_def Let_def sz_eq get_fft_scale_eq[OF sz p] sum.case mul)
  with inv show ?thesis by simp
qed

lemma fft_to_rgb_shape:
  assumes b: "has_shape5 n c sz (sz div 2 + 1) 2 b"
  shows "has_shape4 n c sz sz (map (map (\<lambda>z. irfft2_plane sz sz (spec_scaled_plane sz p z))) b)"
  by (rule has_shape54_map[OF b]) (rule irfft2_plane_shape)

lemma rgb_to_fft_eq:
  assumes t: "has_shape4 n c sz sz t" and n: "0 < n" and c: "0 < c"
    and sz: "0 < sz" and p: "0 \<le> p"
  shows "rgb_to_fft p t = Inr (map (map (\<lambda>x. spec_unscaled_plane sz p (rfft2_plane sz sz x))) t)"
proof -
  let ?w = "sz div 2 + 1"
  let ?S3 = "map (\<lambda>i. map (\<lambda>j. [spec_scale sz p i j]) [0..<?w]) [0..<sz]"
  let ?T = "map (map (rfft2_plane sz sz)) t"
  have sh: "shape4 t = [n, c, sz, sz]"
    using t n c sz by (intro has_shape4_shape) simp_all
  have fwd: "rfft2 t = Inr ?T" using sz by (simp add: rfft2_def sh Let_def)
  have T: "has_shape5 n c sz ?w 2 ?T"
    by (rule has_shape45_map[OF t]) (rule rfft2_plane_shape)
  then have shT: "shape5 ?T = [n, c, sz, ?w, 2]"
    using n c sz by (intro has_shape5_shape) simp_all
  have shS: "shape5 [[?S3]] = [1, 1, sz, ?w, 1]" by (rule scale_tensor_shape[OF sz])
  have bc: "broadcastable (shape5 ?T) (shape5 [[?S3]])"
    by (simp only: shT shS) (simp add: broadcastable_def)
  have "bcast (bcast (bcast (bcast (bcast (/))))) ?T [[?S3]]
        = map (map (\<lambda>z. bcast (bcast (bcast (/))) z ?S3)) ?T"
    by (simp only: bcast_right1)
  also have "\<dots> = map (map (spec_unscaled_plane sz p)) ?T"
  proof (intro map_cong refl)
    fix bn z assume "bn \<in> set ?T" "z \<in> set bn"
    then have "has_shape3 sz ?w 2 z" by (rule has_shape5_planes[OF T])
    then show "bcast (bcast (bcast (/))) z ?S3 = spec_unscaled_plane sz p z"
      by (simp only: plane_bcast_right spec_unscaled_plane_def)
  qed
  finally have dv: "bcast5 (/) ?T [[?S3]] = Inr (map (map (spec_unscaled_plane sz p)) ?T)"
    using bc by (simp only: bcast5_def if_True)
  have sz_eq: "shape4 t ! 3 = sz" by (simp add: sh)
  have "rgb_to_fft p t = bcast5 (/) ?T [[?S3]]"
    by (simp only: rgb_to_fft_def Let_def sz_eq fwd get_fft_scale_eq[OF sz p] sum.case)
  with dv show ?thesis by (simp add: comp_def)
qed

subsection \<open>Inverting the discrete Fourier transform\<close>

lemma cis_unit_iff:
  fixes j :: int and n :: nat
  assumes n: "0 < n" and j: "\<bar>j\<bar> < int n"
  shows "cis (2 * pi * real_of_int j / real n) = 1 \<longleftrightarrow> j = 0"
proof
  assume "cis (2 * pi * real_of_int j / real n) = 1"
  then have "cos (2 * pi * real_of_int j / real n) = 1"
    by (simp add: complex_eq_iff)
  then obtain m :: int where m: "2 * pi * real_of_int j / real n = real_of_int m * 2 * pi"
    using cos_one_2pi_int by blast
  have "real_of_int j = real_of_int m * real n"
    using m n by (simp add: field_simps)
  then have "real_of_int j = real_of_int (m * int n)" by simp
  then have jm: "j = m * int n" using of_int_eq_iff by blast
  show "j = 0"
  proof (rule ccontr)
    assume "j \<noteq> 0"
    with jm have "m \<noteq> 0" by auto
    then have "1 \<le> \<bar>m\<bar>" by simp
    then have "int n \<le> \<bar>m\<bar> * int n" by (simp add: mult_le_cancel_right1)
    also have "\<dots> = \<bar>j\<bar>" using jm by (simp add: abs_mult)
    finally show False using j by simp
  qed
next
  assume "j = 0"
  then show "cis (2 * pi * real_of_int j / real n) = 1" by simp
qed

lemma unity_sum:
  fixes j :: int and n :: nat
  assumes n: "0 < n" and j: "\<bar>j\<bar> < int n"
  shows "(\<Sum>k<n. cis (2 * pi * real k * real_of_int j / real n))
         = (if j = 0 then of_nat n else 0)"
proof (cases "j = 0")
  case True
  then show ?thesis by simp
next
  case False
  define w where "w = cis (2 * pi * real_of_int j / real n)"
  have w1: "w \<noteq> 1" using cis_unit_iff[OF n j] False by (simp add: w_def)
  have "w ^ n = cis (2 * pi * real_of_int j)"
    using n by (simp add: w_def DeMoivre)
  also have "\<dots> = 1"
    using cis_multiple_2pi[of "real_of_int j"] by simp
  finally have wn: "w ^ n = 1" .
  have "(\<Sum>k<n. cis (2 * pi * real k * real_of_int j / real n)) = (\<Sum>k<n. w ^ k)"
    by (rule sum.cong) (simp_all add: w_def DeMoivre mult_ac)
  also have "\<dots> = (w ^ n - 1) / (w - 1)"
    using w1 by (rule geometric_sum)
  also have "\<dots> = 0" using wn by simp
  finally show ?thesis using False by simp
qed

lemma cos_reflect:
  fixes j :: int and n k :: nat
  assumes "0 < n" "k \<le> n"
  shows "cos (2 * pi * real (n - k) * real_of_int j / real n)
         = cos (2 * pi * real k * real_of_int j / real n)"
proof -
  have "2 * pi * real (n - k) * real_of_int j / real n
        = 2 * pi * real_of_int j - 2 * pi * real k * real_of_int j / real n"
    using assms by (simp add: of_nat_diff field_simps)
  then show ?thesis
    by (simp add: cos_diff cos_int_2pin sin_int_2pin)
qed

lemma half_spectrum_sum:
  fixes f :: "nat \<Rightarrow> real" and n :: nat
  assumes n: "0 < n" and refl: "\<And>k. k \<le> n \<Longrightarrow> f (n - k) = f k"
  shows "(\<Sum>k \<le> n div 2. hermitian_weight n k * f k) = (\<Sum>k<n. f k)"
proof -
  define A where "A = {k. 0 < k \<and> 2 * k < n}"
  define B where "B = {k. 2 * k = n}"
  define C where "C = {k. n < 2 * k \<and> k < n}"
  have fin: "finite A" "finite B" "finite C"
    by (rule finite_subset[of _ "{..n}"]; auto simp: A_def B_def C_def)+
  have lhs_set: "{..n div 2} = {0} \<union> A \<union> B"
    using n by (auto simp: A_def B_def)
  have rhs_set: "{..<n} = {0} \<union> A \<union> B \<union> C"
    using n by (auto simp: A_def B_def C_def)
  have CA: "(\<Sum>k\<in>C. f k) = (\<Sum>k\<in>A. f k)"
    by (rule sum.reindex_bij_witness[of _ "\<lambda>k. n - k" "\<lambda>k. n - k"])
       (auto simp: A_def C_def refl)
  have "(\<Sum>k \<le> n div 2. hermitian_weight n k * f k)
        = (\<Sum>k\<in>{0}. hermitian_weight n k * f k) + (\<Sum>k\<in>A. hermitian_weight n k * f k)
          + (\<Sum>k\<in>B. hermitian_weight n k * f k)"
    unfolding lhs_set using fin n
    by (subst sum.union_disjoint; (subst sum.union_disjoint)?; auto simp: A_def B_def)
  also have "(\<Sum>k\<in>A. hermitian_weight n k * f k) = (\<Sum>k\<in>A. 2 * f k)"
    by (rule sum.cong) (auto simp: A_def hermitian_weight_def)
  also have "(\<Sum>k\<in>B. hermitian_weight n k * f k) = (\<Sum>k\<in>B. f k)"
    by (rule sum.cong) (auto simp: B_def hermitian_weight_def)
  also have "(\<Sum>k\<in>{0}. hermitian_weight n k * f k) = f 0"
    by (simp add: hermitian_weight_def)
  finally have L: "(\<Sum>k \<le> n div 2. hermitian_weight n k * f k)
                   = f 0 + 2 * (\<Sum>k\<in>A. f k) + (\<Sum>k\<in>B. f k)"
    by (simp add: sum_distrib_left)
  have "(\<Sum>k<n. f k) = (\<Sum>k\<in>{0}. f k) + (\<Sum>k\<in>A. f k) + (\<Sum>k\<in>B. f k) + (\<Sum>k\<in>C. f k)"
    unfolding rhs_set using fin n
    by (subst sum.union_disjoint; (subst sum.union_disjoint)?; (subst sum.union_disjoint)?;
        auto simp: A_def B_def C_def)
  with L CA show ?thesis by simp
qed

lemma half_cos_sum:
  fixes j :: int and n :: nat
  assumes n: "0 < n" and j: "\<bar>j\<bar> < int n"
  shows "(\<Sum>k \<le> n div 2. hermitian_weight n k * cos (2 * pi * real k * real_of_int j / real n))
         = (if j = 0 then real n else 0)"
proof -
  have "(\<Sum>k \<le> n div 2. hermitian_weight n k * cos (2 * pi * real k * real_of_int j / real n))
        = (\<Sum>k<n. cos (2 * pi * real k * real_of_int j / real n))"
    by (rule half_spectrum_sum[OF n]) (rule cos_reflect[OF n])
  also have "\<dots> = Re (\<Sum>k<n. cis (2 * pi * real k * real_of_int j / real n))"
    by simp
  also have "\<dots> = (if j = 0 then real n else 0)"
    by (simp add: unity_sum[OF n j])
  finally show ?thesis .
qed

lemma dft_column:
  fixes xf :: "nat \<Rightarrow> nat \<Rightarrow> real" and h w n1 k2 :: nat and c :: real
  assumes h: "0 < h" and n1: "n1 < h"
  shows "(\<Sum>k1<h. (complex_of_real c *
            (\<Sum>m1<h. \<Sum>m2<w. complex_of_real (xf m1 m2)
               * cis (- (2 * pi * (real k1 * real m1 / real h + real k2 * real m2 / real w)))))
            * cis (2 * pi * real k1 * real n1 / real h))
         = complex_of_real (c * real h) *
             (\<Sum>m2<w. complex_of_real (xf n1 m2) * cis (- (2 * pi * real k2 * real m2 / real w)))"
proof -
  let ?g = "\<lambda>m2. complex_of_real c * cis (- (2 * pi * real k2 * real m2 / real w))"
  have term_eq: "\<And>k1 m1 m2.
      complex_of_real c * (complex_of_real (xf m1 m2)
         * cis (- (2 * pi * (real k1 * real m1 / real h + real k2 * real m2 / real w))))
         * cis (2 * pi * real k1 * real n1 / real h)
      = (complex_of_real (xf m1 m2) * ?g m2)
         * cis (2 * pi * real k1 * real_of_int (int n1 - int m1) / real h)"
  proof -
    fix k1 m1 m2
    have "- (2 * pi * (real k1 * real m1 / real h + real k2 * real m2 / real w))
            + 2 * pi * real k1 * real n1 / real h
          = - (2 * pi * real k2 * real m2 / real w)
            + 2 * pi * real k1 * real_of_int (int n1 - int m1) / real h"
      by (simp add: algebra_simps diff_divide_distrib add_divide_distrib)
    then have "cis (- (2 * pi * (real k1 * real m1 / real h + real k2 * real m2 / real w)))
               * cis (2 * pi * real k1 * real n1 / real h)
          = cis (- (2 * pi * real k2 * real m2 / real w))
            * cis (2 * pi * real k1 * real_of_int (int n1 - int m1) / real h)"
      by (simp only: cis_mult)
    then show "complex_of_real c * (complex_of_real (xf m1 m2)
         * cis (- (2 * pi * (real k1 * real m1 / real h + real k2 * real m2 / real w))))
         * cis (2 * pi * real k1 * real n1 / real h)
      = (complex_of_real (xf m1 m2) * ?g m2)
         * cis (2 * pi * real k1 * real_of_int (int n1 - int m1) / real h)"
      by (simp add: mult_ac)
  qed
  have "(\<Sum>k1<h. (complex_of_real c *
            (\<Sum>m1<h. \<Sum>m2<w. complex_of_real (xf m1 m2)
               * cis (- (2 * pi * (real k1 * real m1 / real h + real k2 * real m2 / real w)))))
            * cis (2 * pi * real k1 * real n1 / real h))
        = (\<Sum>k1<h. \<Sum>m1<h. \<Sum>m2<w. (complex_of_real (xf m1 m2) * ?g m2)
             * cis (2 * pi * real k1 * real_of_int (int n1 - int m1) / real h))"
    by (simp only: sum_distrib_left sum_distrib_right term_eq)
  also have "\<dots> = (\<Sum>m1<h. \<Sum>k1<h. \<Sum>m2<w. (complex_of_real (xf m1 m2) * ?g m2)
             * cis (2 * pi * real k1 * real_of_int (int n1 - int m1) / real h))"
    by (rule sum.swap)
  also have "\<dots> = (\<Sum>m1<h. \<Sum>m2<w. \<Sum>k1<h. (complex_of_real (xf m1 m2) * ?g m2)
             * cis (2 * pi * real k1 * real_of_int (int n1 - int m1) / real h))"
    by (rule sum.cong[OF refl]) (rule sum.swap)
  also have "\<dots> = (\<Sum>m1<h. \<Sum>m2<w. (complex_of_real (xf m1 m2) * ?g m2)
             * (if m1 = n1 then of_nat h else 0))"
  proof (intro sum.cong refl)
    fix m1 m2 assume "m1 \<in> {..<h}"
    then have "\<bar>int n1 - int m1\<bar> < int h" using n1 by auto
    from unity_sum[OF h this]
    show "(\<Sum>k1<h. (complex_of_real (xf m1 m2) * ?g m2)
             * cis (2 * pi * real k1 * real_of_int (int n1 - int m1) / real h))
          = (complex_of_real (xf m1 m2) * ?g m2) * (if m1 = n1 then of_nat h else 0)"
      by (simp only: sum_distrib_left[symmetric]) auto
  qed
  also have "\<dots> = (\<Sum>m1<h. if m1 = n1 then
             (\<Sum>m2<w. (complex_of_real (xf m1 m2) * ?g m2) * of_nat h) else 0)"
    by (rule sum.cong[OF refl]) simp
  also have "\<dots> = (\<Sum>m2<w. (complex_of_real (xf n1 m2) * ?g m2) * of_nat h)"
    using n1 by (simp add: sum.delta)
  also have "\<dots> = complex_of_real (c * real h) *
             (\<Sum>m2<w. complex_of_real (xf n1 m2) * cis (- (2 * pi * real k2 * real m2 / real w)))"
    by (simp add: sum_distrib_left mult_ac)
  finally show ?thesis .
qed

lemma dft_row:
  fixes xr :: "nat \<Rightarrow> real" and w n2 :: nat and a :: real
  assumes w: "0 < w" and n2: "n2 < w"
  shows "(\<Sum>k2 \<le> w div 2. hermitian_weight w k2 *
            Re (complex_of_real a *
                 (\<Sum>m2<w. complex_of_real (xr m2) * cis (- (2 * pi * real k2 * real m2 / real w)))
                * cis (2 * pi * real k2 * real n2 / real w)))
         = a * real w * xr n2"
proof -
  have re_eq: "\<And>k2. Re (complex_of_real a *
                 (\<Sum>m2<w. complex_of_real (xr m2) * cis (- (2 * pi * real k2 * real m2 / real w)))
                * cis (2 * pi * real k2 * real n2 / real w))
        = (\<Sum>m2<w. a * xr m2 * cos (2 * pi * real k2 * real_of_int (int n2 - int m2) / real w))"
  proof -
    fix k2
    have ang: "\<And>m2. cis (- (2 * pi * real k2 * real m2 / real w)) * cis (2 * pi * real k2 * real n2 / real w)
          = cis (2 * pi * real k2 * real_of_int (int n2 - int m2) / real w)"
    proof -
      fix m2
      have "- (2 * pi * real k2 * real m2 / real w) + 2 * pi * real k2 * real n2 / real w
            = 2 * pi * real k2 * real_of_int (int n2 - int m2) / real w"
        by (simp add: algebra_simps diff_divide_distrib add_divide_distrib)
      then show "cis (- (2 * pi * real k2 * real m2 / real w)) * cis (2 * pi * real k2 * real n2 / real w)
          = cis (2 * pi * real k2 * real_of_int (int n2 - int m2) / real w)"
        by (simp only: cis_mult)
    qed
    have "complex_of_real a *
                 (\<Sum>m2<w. complex_of_real (xr m2) * cis (- (2 * pi * real k2 * real m2 / real w)))
                * cis (2 * pi * real k2 * real n2 / real w)
          = (\<Sum>m2<w. complex_of_real (a * xr m2) *
               (cis (- (2 * pi * real k2 * real m2 / real w)) * cis (2 * pi * real k2 * real n2 / real w)))"
      by (simp add: sum_distrib_left sum_distrib_right mult_ac)
    also have "\<dots> = (\<Sum>m2<w. complex_of_real (a * xr m2) *
               cis (2 * pi * real k2 * real_of_int (int n2 - int m2) / real w))"
      by (simp only: ang)
    finally show "Re (complex_of_real a *
                 (\<Sum>m2<w. complex_of_real (xr m2) * cis (- (2 * pi * real k2 * real m2 / real w)))
                * cis (2 * pi * real k2 * real n2 / real w))
        = (\<Sum>m2<w. a * xr m2 * cos (2 * pi * real k2 * real_of_int (int n2 - int m2) / real w))"
      by simp
  qed
  have "(\<Sum>k2 \<le> w div 2. hermitian_weight w k2 *
            Re (complex_of_real a *
                 (\<Sum>m2<w. complex_of_real (xr m2) * cis (- (2 * pi * real k2 * real m2 / real w)))
                * cis (2 * pi * real k2 * real n2 / real w)))
        = (\<Sum>k2 \<le> w div 2. hermitian_weight w k2 *
             (\<Sum>m2<w. a * xr m2 * cos (2 * pi * real k2 * real_of_int (int n2 - int m2) / real w)))"
    by (simp only: re_eq)
  also have "\<dots> = (\<Sum>k2 \<le> w div 2. \<Sum>m2<w. (a * xr m2) *
             (hermitian_weight w k2 * cos (2 * pi * real k2 * real_of_int (int n2 - int m2) / real w)))"
    by (simp only: sum_distrib_left mult_ac)
  also have "\<dots> = (\<Sum>m2<w. \<Sum>k2 \<le> w div 2. (a * xr m2) *
             (hermitian_weight w k2 * cos (2 * pi * real k2 * real_of_int (int n2 - int m2) / real w)))"
    by (rule sum.swap)
  also have "\<dots> = (\<Sum>m2<w. (a * xr m2) * (if m2 = n2 then real w else 0))"
  proof (intro sum.cong refl)
    fix m2 assume "m2 \<in> {..<w}"
    then have "\<bar>int n2 - int m2\<bar> < int w" using n2 by auto
    from half_cos_sum[OF w this]
    show "(\<Sum>k2 \<le> w div 2. (a * xr m2) *
             (hermitian_weight w k2 * cos (2 * pi * real k2 * real_of_int (int n2 - int m2) / real w)))
          = (a * xr m2) * (if m2 = n2 then real w else 0)"
      by (simp only: sum_distrib_left[symmetric]) auto
  qed
  also have "\<dots> = (\<Sum>m2<w. if m2 = n2 then a * xr m2 * real w else 0)"
    by (rule sum.cong[OF refl]) simp
  also have "\<dots> = a * real w * xr n2"
    using n2 by (simp add: sum.delta)
  finally show ?thesis .
qed

lemma rfft2_plane_nth:
  assumes "k1 < h" "k2 < w div 2 + 1"
  shows "rfft2_plane h w x ! k1 ! k2 = [Re (rfft2_coeff h w x k1 k2), Im (rfft2_coeff h w x k1 k2)]"
  using assms by (simp add: rfft2_plane_def del: upt_Suc)

lemma irfft2_rfft2_plane:
  assumes x: "has_shape2 h w x" and h: "0 < h" and w: "0 < w"
  shows "irfft2_plane h w (rfft2_plane h w x) = x"
proof (rule nth_equalityI)
  show len: "length (irfft2_plane h w (rfft2_plane h w x)) = length x"
    using x by (simp add: irfft2_plane_def has_shape2_def)
  fix n1 assume "n1 < length (irfft2_plane h w (rfft2_plane h w x))"
  then have n1: "n1 < h" by (simp add: irfft2_plane_def)
  show "irfft2_plane h w (rfft2_plane h w x) ! n1 = x ! n1"
  proof (rule nth_equalityI)
    show "length (irfft2_plane h w (rfft2_plane h w x) ! n1) = length (x ! n1)"
      using n1 has_shape2_nth_len[OF x n1] by (simp add: irfft2_plane_def)
    fix n2 assume "n2 < length (irfft2_plane h w (rfft2_plane h w x) ! n1)"
    then have n2: "n2 < w" using n1 by (simp add: irfft2_plane_def)
    define c where "c = 1 / sqrt (real (h * w))"
    have "sqrt (real (h * w)) * sqrt (real (h * w)) = real h * real w"
      by simp
    then have cc: "c * (c * real h * real w) = 1"
      using h w by (simp add: c_def)
    have col: "\<And>k2. k2 \<le> w div 2 \<Longrightarrow>
        (\<Sum>k1 < h. Complex (rfft2_plane h w x ! k1 ! k2 ! 0) (rfft2_plane h w x ! k1 ! k2 ! 1)
                               * cis (2 * pi * real k1 * real n1 / real h))
        = complex_of_real (c * real h) *
             (\<Sum>m2<w. complex_of_real (x ! n1 ! m2) * cis (- (2 * pi * real k2 * real m2 / real w)))"
    proof -
      fix k2 assume k2: "k2 \<le> w div 2"
      have "(\<Sum>k1 < h. Complex (rfft2_plane h w x ! k1 ! k2 ! 0) (rfft2_plane h w x ! k1 ! k2 ! 1)
                               * cis (2 * pi * real k1 * real n1 / real h))
           = (\<Sum>k1<h. rfft2_coeff h w x k1 k2 * cis (2 * pi * real k1 * real n1 / real h))"
        using k2 by (intro sum.cong refl) (simp add: rfft2_plane_nth)
      also have "\<dots> = (\<Sum>k1<h. (complex_of_real c *
            (\<Sum>m1<h. \<Sum>m2<w. complex_of_real (x ! m1 ! m2)
               * cis (- (2 * pi * (real k1 * real m1 / real h + real k2 * real m2 / real w)))))
            * cis (2 * pi * real k1 * real n1 / real h))"
        by (simp only: rfft2_coeff_def c_def)
      also have "\<dots> = complex_of_real (c * real h) *
             (\<Sum>m2<w. complex_of_real (x ! n1 ! m2) * cis (- (2 * pi * real k2 * real m2 / real w)))"
        by (rule dft_column[OF h n1])
      finally show "(\<Sum>k1 < h. Complex (rfft2_plane h w x ! k1 ! k2 ! 0) (rfft2_plane h w x ! k1 ! k2 ! 1)
                               * cis (2 * pi * real k1 * real n1 / real h))
        = complex_of_real (c * real h) *
             (\<Sum>m2<w. complex_of_real (x ! n1 ! m2) * cis (- (2 * pi * real k2 * real m2 / real w)))" .
    qed
    have "irfft2_plane h w (rfft2_plane h w x) ! n1 ! n2
          = c * (\<Sum>k2 \<le> w div 2. hermitian_weight w k2 *
           Re ((\<Sum>k1 < h. Complex (rfft2_plane h w x ! k1 ! k2 ! 0) (rfft2_plane h w x ! k1 ! k2 ! 1)
                               * cis (2 * pi * real k1 * real n1 / real h))
               * cis (2 * pi * real k2 * real n2 / real w)))"
      using n1 n2 by (simp add: irfft2_plane_def irfft2_sample_def c_def)
    also have "\<dots> = c * (\<Sum>k2 \<le> w div 2. hermitian_weight w k2 *
           Re (complex_of_real (c * real h) *
             (\<Sum>m2<w. complex_of_real (x ! n1 ! m2) * cis (- (2 * pi * real k2 * real m2 / real w)))
               * cis (2 * pi * real k2 * real n2 / real w)))"
      by (rule arg_cong[where f = "(*) c"], rule sum.cong[OF refl]) (simp only: col atMost_iff)
    also have "\<dots> = c * (c * real h * real w * (x ! n1 ! n2))"
      by (simp only: dft_row[OF w n2])
    also have "\<dots> = x ! n1 ! n2"
      using cc by (simp add: mult.assoc[symmetric])
    finally show "irfft2_plane h w (rfft2_plane h w x) ! n1 ! n2 = x ! n1 ! n2" .
  qed
qed

subsection \<open>The round trip through Fourier space\<close>

lemma spec_scale_cancel:
  assumes z: "has_shape3 sz (sz div 2 + 1) 2 z" and sz: "0 < sz"
  shows "spec_scaled_plane sz p (spec_unscaled_plane sz p z) = z"
proof -
  let ?w = "sz div 2 + 1"
  have lz: "length z = sz" using z by (simp add: has_shape3_def)
  have row: "\<And>i. i < sz \<Longrightarrow> length (z ! i) = ?w"
    using has_shape3_nth[OF z] by (simp add: has_shape2_def)
  have cell: "\<And>i j. i < sz \<Longrightarrow> j < ?w \<Longrightarrow> length (z ! i ! j) = 2"
    by (rule has_shape2_nth_len[OF has_shape3_nth[OF z]])
  have nz: "\<And>i j. spec_scale sz p i j \<noteq> 0"
    using spec_scale_pos[OF sz] by (simp add: less_imp_neq[THEN not_sym])
  have un: "\<And>i j. i < sz \<Longrightarrow> j < ?w \<Longrightarrow>
      spec_unscaled_plane sz p z ! i ! j
      = [z ! i ! j ! 0 / spec_scale sz p i j, z ! i ! j ! 1 / spec_scale sz p i j]"
    by (simp add: spec_unscaled_plane_def del: upt_Suc)
  show ?thesis
  proof (rule nth_equalityI)
    show "length (spec_scaled_plane sz p (spec_unscaled_plane sz p z)) = length z"
      by (simp add: spec_scaled_plane_def lz)
    fix i assume "i < length (spec_scaled_plane sz p (spec_unscaled_plane sz p z))"
    then have i: "i < sz" by (simp add: spec_scaled_plane_def)
    show "spec_scaled_plane sz p (spec_unscaled_plane sz p z) ! i = z ! i"
    proof (rule nth_equalityI)
      show "length (spec_scaled_plane sz p (spec_unscaled_plane sz p z) ! i) = length (z ! i)"
        using i by (simp add: spec_scaled_plane_def row del: upt_Suc)
      fix j assume "j < length (spec_scaled_plane sz p (spec_unscaled_plane sz p z) ! i)"
      then have j: "j < ?w" using i by (simp add: spec_scaled_plane_def del: upt_Suc)
      have "spec_scaled_plane sz p (spec_unscaled_plane sz p z) ! i ! j
            = [spec_scale sz p i j * (z ! i ! j ! 0 / spec_scale sz p i j),
               spec_scale sz p i j * (z ! i ! j ! 1 / spec_scale sz p i j)]"
        using i j by (simp add: spec_scaled_plane_def un del: upt_Suc)
      also have "\<dots> = [z ! i ! j ! 0, z ! i ! j ! 1]"
        using nz[of i j] by simp
      also have "\<dots> = z ! i ! j"
        by (rule pair_list[OF cell[OF i j], symmetric])
      finally show "spec_scaled_plane sz p (spec_unscaled_plane sz p z) ! i ! j = z ! i ! j" .
    qed
  qed
qed

text \<open>
  C10, as amended. Over the reals, for an image tensor of shape \<open>(n, c, size, size)\<close> with
  \<open>size > 0\<close> (in particular \<open>(1, 3, size, size)\<close>) and \<open>decay_power \<ge> 0\<close>,
  \<open>fft_to_rgb(rgb_to_fft(t)) = t\<close> with the same \<open>decay_power\<close>: \<open>rgb_to_fft\<close> applies the
  normalized real transform and divides by the spectral scale, \<open>fft_to_rgb\<close> multiplies by the
  same scale and applies the normalized inverse with signal sizes \<open>(size, size)\<close>. The other
  composition is not the identity on buffers: in the buffer evaluated below, the imaginary
  part of the zero-frequency coefficient is lost.
\<close>

theorem fft_to_rgb_rgb_to_fft:
  assumes t: "has_shape4 n c sz sz t" and n: "0 < n" and c: "0 < c" and sz: "0 < sz"
    and p: "0 \<le> decay_power"
  shows "\<exists>buf. rgb_to_fft decay_power t = Inr buf \<and> fft_to_rgb decay_power buf = Inr t"
proof -
  let ?p = decay_power
  let ?b = "map (map (\<lambda>x. spec_unscaled_plane sz ?p (rfft2_plane sz sz x))) t"
  have fwd: "rgb_to_fft ?p t = Inr ?b" by (rule rgb_to_fft_eq[OF t n c sz p])
  have b: "has_shape5 n c sz (sz div 2 + 1) 2 ?b"
    by (rule has_shape45_map[OF t]) (rule spec_unscaled_plane_shape)
  have "fft_to_rgb ?p ?b
        = Inr (map (map (\<lambda>z. irfft2_plane sz sz (spec_scaled_plane sz ?p z))) ?b)"
    by (rule fft_to_rgb_eq[OF b n c sz p])
  also have "map (map (\<lambda>z. irfft2_plane sz sz (spec_scaled_plane sz ?p z))) ?b
        = map (map (\<lambda>x. irfft2_plane sz sz
              (spec_scaled_plane sz ?p (spec_unscaled_plane sz ?p (rfft2_plane sz sz x))))) t"
    by (simp add: comp_def)
  also have "\<dots> = map (map (\<lambda>x. x)) t"
  proof (intro map_cong refl)
    fix tn x assume "tn \<in> set t" "x \<in> set tn"
    then have x: "has_shape2 sz sz x" by (rule has_shape4_planes[OF t])
    have "spec_scaled_plane sz ?p (spec_unscaled_plane sz ?p (rfft2_plane sz sz x))
          = rfft2_plane sz sz x"
      by (rule spec_scale_cancel[OF rfft2_plane_shape sz])
    then show "irfft2_plane sz sz
              (spec_scaled_plane sz ?p (spec_unscaled_plane sz ?p (rfft2_plane sz sz x))) = x"
      by (simp only: irfft2_rfft2_plane[OF x sz sz])
  qed
  also have "\<dots> = t" by simp
  finally have "fft_to_rgb ?p ?b = Inr t" .
  with fwd show ?thesis by blast
qed

theorem fft_to_rgb_rgb_to_fft_witness:
  "has_shape4 1 3 2 2 [[[[1, 2], [3, 4]], [[0, 0], [0, 0]], [[5, 6], [7, 8]]]]
   \<and> (0::nat) < 1 \<and> (0::nat) < 3 \<and> (0::nat) < 2 \<and> (0::real) \<le> 3 / 4
   \<and> (\<exists>buf. rgb_to_fft (3 / 4) [[[[1, 2], [3, 4]], [[0, 0], [0, 0]], [[5, 6], [7, 8]]]] = Inr buf
          \<and> fft_to_rgb (3 / 4) buf = Inr [[[[1, 2], [3, 4]], [[0, 0], [0, 0]], [[5, 6], [7, 8]]]])"
proof -
  have h: "has_shape4 1 3 2 2 [[[[1, 2], [3, 4]], [[0, 0], [0, 0]], [[5, 6], [7, 8]]]]"
    by (simp add: has_shape4_def has_shape3_def has_shape2_def)
  from fft_to_rgb_rgb_to_fft[OF h, of "3 / 4"] h show ?thesis by simp
qed

lemma irfft2_drops_dc_imaginary:
  "irfft2_plane 2 2 (spec_scaled_plane 2 p [[[0, 1], [0, 0]], [[0, 0], [0, 0]]]) = [[0, 0], [0, 0]]"
  by (simp add: irfft2_plane_def irfft2_sample_def spec_scaled_plane_def numeral_2_eq_2
        upt_rec hermitian_weight_def)

lemma irfft2_zero_plane:
  "irfft2_plane 2 2 (spec_scaled_plane 2 p [[[0, 0], [0, 0]], [[0, 0], [0, 0]]]) = [[0, 0], [0, 0]]"
  by (simp add: irfft2_plane_def irfft2_sample_def spec_scaled_plane_def numeral_2_eq_2
        upt_rec hermitian_weight_def)

lemma rfft2_zero_plane:
  "spec_unscaled_plane 2 p (rfft2_plane 2 2 [[0, 0], [0, 0]]) = [[[0, 0], [0, 0]], [[0, 0], [0, 0]]]"
  by (simp add: rfft2_plane_def rfft2_coeff_def spec_unscaled_plane_def numeral_2_eq_2 upt_rec)

theorem rgb_to_fft_fft_to_rgb_counterexample:
  "fft_to_rgb (3 / 4)
      [[[[[0, 1], [0, 0]], [[0, 0], [0, 0]]],
        [[[0, 0], [0, 0]], [[0, 0], [0, 0]]],
        [[[0, 0], [0, 0]], [[0, 0], [0, 0]]]]]
     = Inr [[[[0, 0], [0, 0]], [[0, 0], [0, 0]], [[0, 0], [0, 0]]]]
   \<and> rgb_to_fft (3 / 4) [[[[0, 0], [0, 0]], [[0, 0], [0, 0]], [[0, 0], [0, 0]]]]
     = Inr [[[[[0, 0], [0, 0]], [[0, 0], [0, 0]]],
             [[[0, 0], [0, 0]], [[0, 0], [0, 0]]],
             [[[0, 0], [0, 0]], [[0, 0], [0, 0]]]]]
   \<and> [[[[[0, 0], [0, 0]], [[0, 0], [0, 0]]],
        [[[0, 0], [0, 0]], [[0, 0], [0, 0]]],
        [[[0, 0], [0, 0]], [[0, 0], [0, 0]]]]]
     \<noteq> [[[[[0, 1], [0, 0 :: real]], [[0, 0], [0, 0]]],
         [[[0, 0], [0, 0]], [[0, 0], [0, 0]]],
         [[[0, 0], [0, 0]], [[0, 0], [0, 0]]]]]"
proof -
  have b: "has_shape5 1 3 2 (2 div 2 + 1) 2
      [[[[[0, 1], [0, 0]], [[0, 0], [0, 0]]],
        [[[0, 0], [0, 0]], [[0, 0], [0, 0]]],
        [[[0, 0], [0, 0]], [[0, 0], [0, 0]]]]]"
    by (simp add: has_shape5_def has_shape4_def has_shape3_def has_shape2_def)
  have t: "has_shape4 1 3 2 2 [[[[0, 0], [0, 0]], [[0, 0], [0, 0]], [[0, 0], [0, 0]]]]"
    by (simp add: has_shape4_def has_shape3_def has_shape2_def)
  have 1: "fft_to_rgb (3 / 4)
      [[[[[0, 1], [0, 0]], [[0, 0], [0, 0]]],
        [[[0, 0], [0, 0]], [[0, 0], [0, 0]]],
        [[[0, 0], [0, 0]], [[0, 0], [0, 0]]]]]
     = Inr [[[[0, 0], [0, 0]], [[0, 0], [0, 0]], [[0, 0], [0, 0]]]]"
    by (simp add: fft_to_rgb_eq[OF b] irfft2_drops_dc_imaginary irfft2_zero_plane)
  have 2: "rgb_to_fft (3 / 4) [[[[0, 0], [0, 0]], [[0, 0], [0, 0]], [[0, 0], [0, 0]]]]
     = Inr [[[[[0, 0], [0, 0]], [[0, 0], [0, 0]]],
             [[[0, 0], [0, 0]], [[0, 0], [0, 0]]],
             [[[0, 0], [0, 0]], [[0, 0], [0, 0]]]]]"
    by (simp add: rgb_to_fft_eq[OF t] rfft2_zero_plane)
  from 1 2 show ?thesis by simp
qed

subsection \<open>The initial buffer and the map to pixels\<close>

lemma draw_n_length: "length (fst (draw_n g n r)) = n"
proof (induction n arbitrary: r)
  case 0
  show ?case by simp
next
  case (Suc n)
  obtain x r1 where g: "g r = (x, r1)" by (cases "g r")
  obtain xs r2 where d: "draw_n g n r1 = (xs, r2)" by (cases "draw_n g n r1")
  have "length xs = n" using Suc[of r1] d by simp
  then show ?case by (simp add: g d)
qed

lemma draw_n_all:
  assumes "\<And>r. P (fst (g r))"
  shows "list_all P (fst (draw_n g n r))"
proof (induction n arbitrary: r)
  case 0
  show ?case by simp
next
  case (Suc n)
  obtain x r1 where g: "g r = (x, r1)" by (cases "g r")
  obtain xs r2 where d: "draw_n g n r1 = (xs, r2)" by (cases "draw_n g n r1")
  have "P x" using assms[of r] g by simp
  moreover have "list_all P xs" using Suc[of r1] d by simp
  ultimately show ?case by (simp add: g d)
qed

lemma draw_n_add:
  "draw_n g (a + b) r =
     (case draw_n g a r of (xs, r1) \<Rightarrow> (case draw_n g b r1 of (ys, r2) \<Rightarrow> (xs @ ys, r2)))"
  by (induction a arbitrary: r) (auto split: prod.splits)

lemma draw_n_concat:
  "(case draw_n (draw_n g k) n r of (xss, r') \<Rightarrow> (concat xss, r')) = draw_n g (n * k) r"
proof (induction n arbitrary: r)
  case 0
  show ?case by simp
next
  case (Suc n)
  obtain x r1 where g: "draw_n g k r = (x, r1)" by (cases "draw_n g k r")
  obtain xss r2 where d: "draw_n (draw_n g k) n r1 = (xss, r2)"
    by (cases "draw_n (draw_n g k) n r1")
  have ih: "draw_n g (n * k) r1 = (concat xss, r2)" using Suc[of r1] d by simp
  have "draw_n g (Suc n * k) r = draw_n g (k + n * k) r" by simp
  also have "\<dots> = (x @ concat xss, r2)" by (simp only: draw_n_add g ih prod.case)
  finally show ?case by (simp add: g d)
qed

lemma draw_n_concat_fst: "concat (fst (draw_n (draw_n g k) n r)) = fst (draw_n g (n * k) r)"
proof -
  have "fst (case draw_n (draw_n g k) n r of (xss, r') \<Rightarrow> (concat xss, r')) = fst (draw_n g (n * k) r)"
    by (simp only: draw_n_concat)
  then show ?thesis by (simp add: case_prod_beta)
qed

lemma draw_n_concat_snd: "snd (draw_n (draw_n g k) n r) = snd (draw_n g (n * k) r)"
proof -
  have "snd (case draw_n (draw_n g k) n r of (xss, r') \<Rightarrow> (concat xss, r')) = snd (draw_n g (n * k) r)"
    by (simp only: draw_n_concat)
  then show ?thesis by (simp add: case_prod_beta)
qed

lemma draw_n_map:
  "draw_n (\<lambda>r. case g r of (z, r') \<Rightarrow> (f z, r')) n r
   = (case draw_n g n r of (zs, r') \<Rightarrow> (map f zs, r'))"
  by (induction n arbitrary: r) (auto split: prod.splits)

lemma init_fft_buf_shape:
  assumes "0 \<le> rand_sd"
  shows "\<exists>buf r'. init_fft_buf normal sz rand_sd r = Inr (buf, r')
        \<and> has_shape5 1 3 sz (sz div 2 + 1) 2 buf"
proof -
  let ?e = "\<lambda>r. case normal r of (z, r') \<Rightarrow> (0 + rand_sd * z, r')"
  let ?G1 = "draw_n ?e 2"
  let ?G2 = "draw_n ?G1 (sz div 2 + 1)"
  let ?G3 = "draw_n ?G2 sz"
  let ?G4 = "draw_n ?G3 3"
  have s2: "\<And>r. has_shape2 (sz div 2 + 1) 2 (fst (?G2 r))"
    unfolding has_shape2_def
    by (intro conjI draw_n_length draw_n_all)
  have s3: "\<And>r. has_shape3 sz (sz div 2 + 1) 2 (fst (?G3 r))"
    unfolding has_shape3_def
    by (intro conjI draw_n_length draw_n_all s2)
  have s4: "\<And>r. has_shape4 3 sz (sz div 2 + 1) 2 (fst (?G4 r))"
    unfolding has_shape4_def
    by (intro conjI draw_n_length draw_n_all s3)
  have s5: "has_shape5 1 3 sz (sz div 2 + 1) 2 (fst (draw_n ?G4 1 r))"
    unfolding has_shape5_def
    by (intro conjI draw_n_length draw_n_all s4)
  have "init_fft_buf normal sz rand_sd r = Inr (draw_n ?G4 1 r)"
    using assms by (simp add: init_fft_buf_def)
  then have "init_fft_buf normal sz rand_sd r = Inr (fst (draw_n ?G4 1 r), snd (draw_n ?G4 1 r))"
    by simp
  with s5 show ?thesis by blast
qed

lemma init_fft_buf_entries:
  assumes "0 \<le> rand_sd" "init_fft_buf normal sz rand_sd r = Inr (buf, r')"
  shows "flatten5 buf = map (\<lambda>z. rand_sd * z) (fst (draw_n normal (1 * 3 * sz * (sz div 2 + 1) * 2) r))"
    and "r' = snd (draw_n normal (1 * 3 * sz * (sz div 2 + 1) * 2) r)"
proof -
  let ?e = "\<lambda>r. case normal r of (z, r') \<Rightarrow> (0 + rand_sd * z, r')"
  let ?K = "1 * 3 * sz * (sz div 2 + 1) * 2"
  have buf: "buf = fst (draw_n (draw_n (draw_n (draw_n (draw_n ?e 2) (sz div 2 + 1)) sz) 3) 1 r)"
    and r': "r' = snd (draw_n (draw_n (draw_n (draw_n (draw_n ?e 2) (sz div 2 + 1)) sz) 3) 1 r)"
    using assms by (simp_all add: init_fft_buf_def)
  have e: "draw_n ?e ?K r = (case draw_n normal ?K r of (zs, r') \<Rightarrow> (map (\<lambda>z. 0 + rand_sd * z) zs, r'))"
    by (rule draw_n_map)
  have "flatten5 buf = fst (draw_n ?e ?K r)"
    by (simp only: flatten5_def buf draw_n_concat_fst)
  also have "\<dots> = map (\<lambda>z. rand_sd * z) (fst (draw_n normal ?K r))"
    by (simp only: e) (simp split: prod.splits)
  finally show "flatten5 buf = map (\<lambda>z. rand_sd * z) (fst (draw_n normal ?K r))" .
  have "r' = snd (draw_n ?e ?K r)"
    by (simp only: r' draw_n_concat_snd)
  also have "\<dots> = snd (draw_n normal ?K r)"
    by (simp only: e) (simp split: prod.splits)
  finally show "r' = snd (draw_n normal ?K r)" .
qed

text \<open>
  C4. \<open>init_fft_buf\<close> returns a buffer of shape \<open>(1, 3, size, size//2 + 1, 2)\<close> whose entries,
  in row-major order, are successive normal draws of the generator, each multiplied by
  \<open>rand_sd\<close> (that the draws are independent and normal is the generator's contract, which is
  a parameter here). \<open>fft_to_rgb\<close> maps every buffer of that shape to an image of shape
  \<open>(1, 3, size, size)\<close>: each plane of coefficients is multiplied elementwise by the spectral
  scale \<open>1/max((fx^2+fy^2)^decay_power, 1/(size*d))\<close> and passed to the normalized inverse real
  2-D transform with signal sizes \<open>(size, size)\<close>. Stated for \<open>size > 0\<close>, \<open>rand_sd \<ge> 0\<close> and
  \<open>decay_power \<ge> 0\<close>.
\<close>

theorem fourier_parameterization:
  assumes sz: "0 < sz" and sd: "0 \<le> rand_sd" and p: "0 \<le> decay_power"
  shows "\<exists>buf r'. init_fft_buf normal sz rand_sd r = Inr (buf, r')
     \<and> has_shape5 1 3 sz (sz div 2 + 1) 2 buf
     \<and> flatten5 buf
         = map (\<lambda>z. rand_sd * z) (fst (draw_n normal (1 * 3 * sz * (sz div 2 + 1) * 2) r))
     \<and> (\<forall>b. has_shape5 1 3 sz (sz div 2 + 1) 2 b \<longrightarrow>
           (\<exists>img. fft_to_rgb decay_power b = Inr img
              \<and> has_shape4 1 3 sz sz img
              \<and> img = map (map (\<lambda>z. irfft2_plane sz sz (spec_scaled_plane sz decay_power z))) b))"
proof -
  from init_fft_buf_shape[OF sd, of normal sz r]
  obtain buf r' where init: "init_fft_buf normal sz rand_sd r = Inr (buf, r')"
    and shape: "has_shape5 1 3 sz (sz div 2 + 1) 2 buf"
    by blast
  note entries = init_fft_buf_entries(1)[OF sd init]
  have img: "\<forall>b. has_shape5 1 3 sz (sz div 2 + 1) 2 b \<longrightarrow>
           (\<exists>img. fft_to_rgb decay_power b = Inr img
              \<and> has_shape4 1 3 sz sz img
              \<and> img = map (map (\<lambda>z. irfft2_plane sz sz (spec_scaled_plane sz decay_power z))) b)"
  proof (intro allI impI)
    fix b :: tensor5
    assume b: "has_shape5 1 3 sz (sz div 2 + 1) 2 b"
    have "fft_to_rgb decay_power b
          = Inr (map (map (\<lambda>z. irfft2_plane sz sz (spec_scaled_plane sz decay_power z))) b)"
      using sz p by (intro fft_to_rgb_eq[OF b]) simp_all
    with fft_to_rgb_shape[OF b]
    show "\<exists>img. fft_to_rgb decay_power b = Inr img
              \<and> has_shape4 1 3 sz sz img
              \<and> img = map (map (\<lambda>z. irfft2_plane sz sz (spec_scaled_plane sz decay_power z))) b"
      by blast
  qed
  from init shape entries img show ?thesis by blast
qed

theorem fourier_parameterization_witness:
  "(0::nat) < 2 \<and> (0::real) \<le> 1 / 100 \<and> (0::real) \<le> 3 / 4
   \<and> (\<exists>buf r'. init_fft_buf (\<lambda>r::nat. (real r, Suc r)) 2 (1 / 100) 0 = Inr (buf, r')
     \<and> has_shape5 1 3 2 (2 div 2 + 1) 2 buf
     \<and> flatten5 buf = map (\<lambda>z. 1 / 100 * z)
          (fst (draw_n (\<lambda>r::nat. (real r, Suc r)) (1 * 3 * 2 * (2 div 2 + 1) * 2) 0))
     \<and> (\<forall>b. has_shape5 1 3 2 (2 div 2 + 1) 2 b \<longrightarrow>
           (\<exists>img. fft_to_rgb (3 / 4) b = Inr img \<and> has_shape4 1 3 2 2 img
              \<and> img = map (map (\<lambda>z. irfft2_plane 2 2 (spec_scaled_plane 2 (3 / 4) z))) b)))"
proof -
  have h1: "(0::nat) < 2" and h2: "(0::real) \<le> 1 / 100" and h3: "(0::real) \<le> 3 / 4"
    by simp_all
  show ?thesis
    by (intro conjI h1 h2 h3 fourier_parameterization[OF h1 h2 h3])
qed

subsection \<open>Rounding to \<open>binary32\<close>\<close>

lemma round_even_nearest:
  assumes "of_int n - 1 / 2 < y" "y < of_int n + 1 / 2"
  shows "round_even y = n"
proof -
  have "\<lfloor>y\<rfloor> = n \<or> \<lfloor>y\<rfloor> = n - 1" using assms by linarith
  then show ?thesis
  proof
    assume f: "\<lfloor>y\<rfloor> = n"
    then have "y - of_int n < 1 / 2" using assms by linarith
    with f show ?thesis by (simp add: round_even_def)
  next
    assume f: "\<lfloor>y\<rfloor> = n - 1"
    then have "1 / 2 < y - of_int (n - 1)" using assms by simp
    with f show ?thesis by (simp add: round_even_def Let_def)
  qed
qed

lemma round_even_tie: "round_even (of_int f + 1 / 2) = (if even f then f else f + 1)"
proof -
  have "\<lfloor>of_int f + 1 / 2 :: real\<rfloor> = f" by linarith
  then show ?thesis by (simp add: round_even_def Let_def)
qed

lemma fl32_zero: "fl32 0 = 0"
  by (simp add: fl32_def)

lemma fl32_unit:
  fixes e :: int
  assumes lo: "2 powr of_int e \<le> \<bar>x\<bar>" and hi: "\<bar>x\<bar> < 2 powr (of_int e + 1)"
  shows "fl32 x = of_int (round_even (x / 2 powr (of_int e - 23))) * 2 powr (of_int e - 23)"
proof -
  have "0 < (2::real) powr of_int e" by simp
  with lo have x1: "0 < \<bar>x\<bar>" by linarith
  then have x0: "x \<noteq> 0" by auto
  have "of_int e \<le> log 2 \<bar>x\<bar>" using lo x1 by (simp add: le_log_iff)
  moreover have "log 2 \<bar>x\<bar> < of_int e + 1" using hi x1 by (simp add: log_less_iff)
  ultimately have fl: "\<lfloor>log 2 \<bar>x\<bar>\<rfloor> = e" by linarith
  show ?thesis using x0 by (simp add: fl32_def fl Let_def)
qed

lemma pow2_unit:
  fixes k :: nat
  shows "(2::real) powr (of_int (23 - int k) - 23) = 1 / 2 ^ k"
    and "(2::real) powr of_int (23 - int k) = 2 ^ 23 / 2 ^ k"
    and "(2::real) powr (of_int (23 - int k) + 1) = 2 ^ 24 / 2 ^ k"
proof -
  show "(2::real) powr (of_int (23 - int k) - 23) = 1 / 2 ^ k"
    by (simp add: powr_minus powr_realpow field_simps)
  show "(2::real) powr of_int (23 - int k) = 2 ^ 23 / 2 ^ k"
    by (simp add: powr_diff powr_realpow)
  have "(2::real) powr (of_int (23 - int k) + 1) = 2 powr (24 - real k)" by (simp add: algebra_simps)
  also have "\<dots> = 2 ^ 24 / 2 ^ k"
    using powr_diff[of "2::real" 24 "real k"] powr_realpow[of "2::real" 24] powr_realpow[of "2::real" k]
    by simp
  finally show "(2::real) powr (of_int (23 - int k) + 1) = 2 ^ 24 / 2 ^ k" .
qed

lemma fl32_round:
  fixes k :: nat
  assumes lo: "2 ^ 23 / 2 ^ k \<le> \<bar>x\<bar>" and hi: "\<bar>x\<bar> < 2 ^ 24 / 2 ^ k"
  shows "fl32 x = of_int (round_even (x * 2 ^ k)) / 2 ^ k"
proof -
  have lo': "2 powr of_int (23 - int k) \<le> \<bar>x\<bar>" using lo by (simp only: pow2_unit)
  have hi': "\<bar>x\<bar> < 2 powr (of_int (23 - int k) + 1)" using hi by (simp only: pow2_unit)
  show ?thesis
    by (simp only: fl32_unit[OF lo' hi'] pow2_unit) simp
qed

lemma fl32_eval:
  fixes k :: nat and n :: int
  assumes lo: "2 ^ 23 / 2 ^ k \<le> \<bar>x\<bar>" and hi: "\<bar>x\<bar> < 2 ^ 24 / 2 ^ k"
    and l: "(of_int n - 1 / 2) / 2 ^ k < x"
    and u: "x < (of_int n + 1 / 2) / 2 ^ k"
  shows "fl32 x = of_int n / 2 ^ k"
proof -
  have "of_int n - 1 / 2 < x * 2 ^ k" using l by (simp add: pos_divide_less_eq)
  moreover have "x * 2 ^ k < of_int n + 1 / 2" using u by (simp add: pos_less_divide_eq)
  ultimately have "round_even (x * 2 ^ k) = n" by (rule round_even_nearest)
  then show ?thesis by (simp only: fl32_round[OF lo hi])
qed

lemma fl32_eval_tie_even:
  fixes k :: nat and f :: int
  assumes lo: "2 ^ 23 / 2 ^ k \<le> \<bar>x\<bar>" and hi: "\<bar>x\<bar> < 2 ^ 24 / 2 ^ k"
    and t: "x * 2 ^ k = of_int f + 1 / 2" and ev: "even f"
  shows "fl32 x = of_int f / 2 ^ k"
  using ev by (simp only: fl32_round[OF lo hi] t round_even_tie if_True)

lemma fl32_eval_tie_odd:
  fixes k :: nat and f :: int
  assumes lo: "2 ^ 23 / 2 ^ k \<le> \<bar>x\<bar>" and hi: "\<bar>x\<bar> < 2 ^ 24 / 2 ^ k"
    and t: "x * 2 ^ k = of_int f + 1 / 2" and ev: "odd f"
  shows "fl32 x = of_int (f + 1) / 2 ^ k"
  using ev by (simp only: fl32_round[OF lo hi] t round_even_tie if_False)

lemma fl32_sqrt_eval:
  fixes k :: nat and n :: int
  assumes n: "2 ^ 23 < n" "n < 2 ^ 24 - 1"
    and l: "((of_int n - 1 / 2) / 2 ^ k)\<^sup>2 < s"
    and u: "s < ((of_int n + 1 / 2) / 2 ^ k)\<^sup>2"
  shows "fl32 (sqrt s) = of_int n / 2 ^ k"
proof -
  have n0: "(0::real) \<le> (of_int n - 1 / 2) / 2 ^ k" "(0::real) \<le> (of_int n + 1 / 2) / 2 ^ k"
    using n(1) by simp_all
  have l': "(of_int n - 1 / 2) / 2 ^ k < sqrt s" by (rule real_less_rsqrt[OF l])
  have "0 \<le> s" using l by (meson less_eq_real_def order_trans zero_le_power2)
  have u': "sqrt s < (of_int n + 1 / 2) / 2 ^ k"
    by (rule real_less_lsqrt[OF n0(2) u])
  have pos: "0 < sqrt s" using n0(1) l' by linarith
  have a: "(2::real) ^ 23 \<le> of_int n - 1 / 2"
  proof -
    have "(2::int) ^ 23 + 1 \<le> n" using n(1) by simp
    then have "real_of_int (2 ^ 23 + 1) \<le> of_int n" by (rule of_int_le_iff[THEN iffD2])
    then show ?thesis by simp
  qed
  have b: "of_int n + 1 / 2 \<le> (2::real) ^ 24"
  proof -
    have "n + 1 \<le> (2::int) ^ 24" using n(2) by simp
    then have "real_of_int (n + 1) \<le> of_int (2 ^ 24)" by (rule of_int_le_iff[THEN iffD2])
    then show ?thesis by simp
  qed
  have "2 ^ 23 / 2 ^ k \<le> (of_int n - 1 / 2) / (2::real) ^ k"
    using a by (simp add: divide_right_mono)
  then have lo: "2 ^ 23 / 2 ^ k \<le> \<bar>sqrt s\<bar>" using l' pos by linarith
  have "(of_int n + 1 / 2) / (2::real) ^ k \<le> 2 ^ 24 / 2 ^ k"
    using b by (simp add: divide_right_mono)
  then have hi: "\<bar>sqrt s\<bar> < 2 ^ 24 / 2 ^ k" using u' pos by linarith
  show ?thesis by (rule fl32_eval[OF lo hi l' u'])
qed

subsection \<open>Values of \<open>fl32\<close>\<close>

text \<open>
  The roundings that occur in the colour matrix and in the evaluations below, each checked
  against the definition: the argument lies within half a unit in the last place of the
  stated multiple of that unit.
\<close>

lemma fl32_value_1: "fl32 (28823036326681 / 72057594037927936) = 13743895 / 34359738368"
  using fl32_eval[where x = "28823036326681 / 72057594037927936" and k = 35 and n = 13743895] by simp

lemma fl32_value_2: "fl32 (259407326940129 / 288230376151711744) = 7730941 / 8589934592"
  using fl32_eval[where x = "259407326940129 / 288230376151711744" and k = 34 and n = 15461882] by simp

lemma fl32_value_3: "fl32 (180143990463529 / 72057594037927936) = 10737419 / 4294967296"
  using fl32_eval[where x = "180143990463529 / 72057594037927936" and k = 32 and n = 10737419] by simp

lemma fl32_value_4: "fl32 (99643247 / 34359738368) = 6227703 / 2147483648"
  using fl32_eval[where x = "99643247 / 34359738368" and k = 32 and n = 12455406] by simp

lemma fl32_value_5: "fl32 (32641753 / 8589934592) = 4080219 / 1073741824"
  using fl32_eval_tie_even[where x = "32641753 / 8589934592" and k = 32 and f = 16320876] by simp

lemma fl32_value_6: "fl32 (8697309 / 1073741824) = 8697309 / 1073741824"
  using fl32_eval[where x = "8697309 / 1073741824" and k = 30 and n = 8697309] by simp

lemma fl32_value_7: "fl32 (9119789970201 / 1125899906842624) = 8697309 / 1073741824"
  using fl32_eval[where x = "9119789970201 / 1125899906842624" and k = 30 and n = 8697309] by simp

lemma fl32_value_8: "fl32 (8697309 / 536870912) = 8697309 / 536870912"
  using fl32_eval[where x = "8697309 / 536870912" and k = 29 and n = 8697309] by simp

lemma fl32_value_9: "fl32 (1 / 50) = 5368709 / 268435456"
  using fl32_eval[where x = "1 / 50" and k = 29 and n = 10737418] by simp

lemma fl32_value_10: "fl32 (3 / 100) = 16106127 / 536870912"
  using fl32_eval[where x = "3 / 100" and k = 29 and n = 16106127] by simp

lemma fl32_value_11: "fl32 (5368709 / 124004400) = 2905445 / 67108864"
  using fl32_eval[where x = "5368709 / 124004400" and k = 28 and n = 11621780] by simp

lemma fl32_value_12: "fl32 (- (1 / 20)) = - (13421773 / 268435456)"
  using fl32_eval[where x = "- (1 / 20)" and k = 28 and n = "- 13421773"] by simp

lemma fl32_value_13: "fl32 (5368709 / 82669600) = 8716335 / 134217728"
  using fl32_eval[where x = "5368709 / 82669600" and k = 27 and n = 8716335] by simp

lemma fl32_value_14: "fl32 (1189231689361 / 17592186044416) = 4536559 / 67108864"
  using fl32_eval[where x = "1189231689361 / 17592186044416" and k = 27 and n = 9073118] by simp

lemma fl32_value_15: "fl32 (82078109731809 / 1125899906842624) = 9784473 / 134217728"
  using fl32_eval[where x = "82078109731809 / 1125899906842624" and k = 27 and n = 9784473] by simp

lemma fl32_value_16: "fl32 (- (9 / 100)) = - (3019899 / 33554432)"
  using fl32_eval[where x = "- (9 / 100)" and k = 27 and n = "- 12079596"] by simp

lemma fl32_value_17: "fl32 (9 / 100) = 3019899 / 33554432"
  using fl32_eval[where x = "9 / 100" and k = 27 and n = 12079596] by simp

lemma fl32_value_18: "fl32 (- (13421773 / 124004400)) = - (14527225 / 134217728)"
  using fl32_eval[where x = "- (13421773 / 124004400)" and k = 27 and n = "- 14527225"] by simp

lemma fl32_value_19: "fl32 (8716335 / 67108864) = 8716335 / 67108864"
  using fl32_eval[where x = "8716335 / 67108864" and k = 26 and n = 8716335] by simp

lemma fl32_value_20: "fl32 (18857591 / 134217728) = 2357199 / 16777216"
  using fl32_eval_tie_odd[where x = "18857591 / 134217728" and k = 26 and f = 9428795] by simp

lemma fl32_value_21: "fl32 (6537251 / 33554432) = 6537251 / 33554432"
  using fl32_eval[where x = "6537251 / 33554432" and k = 26 and n = 13074502] by simp

lemma fl32_value_22: "fl32 (26149005 / 134217728) = 6537251 / 33554432"
  using fl32_eval_tie_even[where x = "26149005 / 134217728" and k = 26 and f = 13074502] by simp

lemma fl32_value_23: "fl32 (- (1006633 / 5166850)) = - (13074503 / 67108864)"
  using fl32_eval[where x = "- (1006633 / 5166850)" and k = 26 and n = "- 13074503"] by simp

lemma fl32_value_24: "fl32 (1006633 / 5166850) = 13074503 / 67108864"
  using fl32_eval[where x = "1006633 / 5166850" and k = 26 and n = 13074503] by simp

lemma fl32_value_25: "fl32 (28642065 / 134217728) = 1790129 / 8388608"
  using fl32_eval_tie_even[where x = "28642065 / 134217728" and k = 26 and f = 14321032] by simp

lemma fl32_value_26: "fl32 (13 / 50) = 1090519 / 4194304"
  using fl32_eval[where x = "13 / 50" and k = 25 and n = 8724152] by simp

lemma fl32_value_27: "fl32 (27 / 100) = 9059697 / 33554432"
  using fl32_eval[where x = "27 / 100" and k = 25 and n = 9059697] by simp

lemma fl32_value_28: "fl32 (- (43581675 / 134217728)) = - (10895419 / 33554432)"
  using fl32_eval[where x = "- (43581675 / 134217728)" and k = 25 and n = "- 10895419"] by simp

lemma fl32_value_29: "fl32 (- (10895419 / 33554432)) = - (10895419 / 33554432)"
  using fl32_eval[where x = "- (10895419 / 33554432)" and k = 25 and n = "- 10895419"] by simp

lemma fl32_value_30: "fl32 (4362076 / 7750275) = 1180337 / 2097152"
  using fl32_eval[where x = "4362076 / 7750275" and k = 24 and n = 9442696] by simp

lemma fl32_value_31: "fl32 (3019899 / 5166850) = 9805877 / 16777216"
  using fl32_eval[where x = "3019899 / 5166850" and k = 24 and n = 9805877] by simp

lemma fl32_value_32: "fl32 (43581675 / 67108864) = 10895419 / 16777216"
  using fl32_eval[where x = "43581675 / 67108864" and k = 24 and n = 10895419] by simp

lemma fl32_value_33: "fl32 (10895419 / 16777216) = 10895419 / 16777216"
  using fl32_eval[where x = "10895419 / 16777216" and k = 24 and n = 10895419] by simp

lemma fl32_value_34: "fl32 (32686255 / 33554432) = 2042891 / 2097152"
  using fl32_eval_tie_odd[where x = "32686255 / 33554432" and k = 24 and f = 16343127] by simp

lemma fl32_value_35: "fl32 (2042891 / 2097152) = 2042891 / 2097152"
  using fl32_eval[where x = "2042891 / 2097152" and k = 24 and n = 16343128] by simp

lemma fl32_value_36: "fl32 (130745025 / 134217728) = 2042891 / 2097152"
  using fl32_eval[where x = "130745025 / 134217728" and k = 24 and n = 16343128] by simp

lemma fl32_value_37: "fl32 (- (13619273 / 8388608)) = - (13619273 / 8388608)"
  using fl32_eval[where x = "- (13619273 / 8388608)" and k = 23 and n = "- 13619273"] by simp

lemma fl32_value_38: "fl32 (- (217908375 / 134217728)) = - (13619273 / 8388608)"
  using fl32_eval[where x = "- (217908375 / 134217728)" and k = 23 and n = "- 13619273"] by simp

lemma fl32_value_39: "fl32 (- (54477095 / 33554432)) = - (6809637 / 4194304)"
  using fl32_eval[where x = "- (54477095 / 33554432)" and k = 23 and n = "- 13619274"] by simp

lemma fl32_value_40: "fl32 (- (6809637 / 4194304)) = - (6809637 / 4194304)"
  using fl32_eval[where x = "- (6809637 / 4194304)" and k = 23 and n = "- 13619274"] by simp

lemma fl32_value_41: "fl32 15 = 15"
  using fl32_eval[where x = "15" and k = 20 and n = 15728640] by simp

lemma fl32_value_42: "fl32 (- (3688553 / 65536)) = - (3688553 / 65536)"
  using fl32_eval[where x = "- (3688553 / 65536)" and k = 18 and n = "- 14754212"] by simp

lemma fl32_value_43: "fl32 (- (29508425 / 524288)) = - (3688553 / 65536)"
  using fl32_eval_tie_odd[where x = "- (29508425 / 524288)" and k = 18 and f = "- 14754213"] by simp

lemma fl32_value_44: "fl32 (- (245146925 / 4194304)) = - (15321683 / 262144)"
  using fl32_eval[where x = "- (245146925 / 4194304)" and k = 18 and n = "- 15321683"] by simp

lemma fl32_value_45: "fl32 (- (15321683 / 262144)) = - (15321683 / 262144)"
  using fl32_eval[where x = "- (15321683 / 262144)" and k = 18 and n = "- 15321683"] by simp

lemma fl32_sqrt_value_1: "fl32 (sqrt (4080219 / 1073741824)) = 16547473 / 268435456"
  using fl32_sqrt_eval[where s = "4080219 / 1073741824" and k = 28 and n = 16547473]
  by (simp add: power2_eq_square)

lemma fl32_sqrt_value_2: "fl32 (sqrt (8697309 / 536870912)) = 2135391 / 16777216"
  using fl32_sqrt_eval[where s = "8697309 / 536870912" and k = 26 and n = 8541564]
  by (simp add: power2_eq_square)

lemma fl32_sqrt_value_3: "fl32 (sqrt (1790129 / 8388608)) = 7750275 / 16777216"
  using fl32_sqrt_eval[where s = "1790129 / 8388608" and k = 25 and n = 15500550]
  by (simp add: power2_eq_square)

lemmas fl32_values =
  fl32_zero fl32_value_1 fl32_value_2 fl32_value_3 fl32_value_4 fl32_value_5 fl32_value_6 fl32_value_7 fl32_value_8 fl32_value_9 fl32_value_10 fl32_value_11 fl32_value_12 fl32_value_13 fl32_value_14 fl32_value_15 fl32_value_16 fl32_value_17 fl32_value_18 fl32_value_19 fl32_value_20 fl32_value_21 fl32_value_22 fl32_value_23 fl32_value_24 fl32_value_25 fl32_value_26 fl32_value_27 fl32_value_28 fl32_value_29 fl32_value_30 fl32_value_31 fl32_value_32 fl32_value_33 fl32_value_34 fl32_value_35 fl32_value_36 fl32_value_37 fl32_value_38 fl32_value_39 fl32_value_40 fl32_value_41 fl32_value_42 fl32_value_43 fl32_value_44 fl32_value_45 fl32_sqrt_value_1 fl32_sqrt_value_2 fl32_sqrt_value_3

subsection \<open>Colour decorrelation\<close>

lemma sum_rnd3: "sum_rnd rnd [x, y, z] = rnd (rnd (x + y) + z)"
  by (simp add: sum_rnd_def)

lemma max_norm_value:
  "np_max (norm_axis0 (\<lambda>x. x) (color_correlation_svd_sqrt (\<lambda>x. x))) = sqrt (2134 / 10000)"
  by (simp add: np_max_def norm_axis0_def color_correlation_svd_sqrt_def upt_rec sum_rnd3
        max_def)

lemma ccn_explicit:
  "color_correlation_normalized (\<lambda>x. x) =
     [[26 / 100 / sqrt (2134 / 10000), 9 / 100 / sqrt (2134 / 10000), 2 / 100 / sqrt (2134 / 10000)],
      [27 / 100 / sqrt (2134 / 10000), 0 / sqrt (2134 / 10000), - (5 / 100) / sqrt (2134 / 10000)],
      [27 / 100 / sqrt (2134 / 10000), - (9 / 100) / sqrt (2134 / 10000), 3 / 100 / sqrt (2134 / 10000)]]"
  by (simp only: color_correlation_normalized_def Let_def max_norm_value)
     (simp add: color_correlation_svd_sqrt_def)

lemma ccn_rows:
  "\<exists>a0 a1 a2 b0 b1 b2 c0 c1 c2.
     color_correlation_normalized rnd = [[a0, a1, a2], [b0, b1, b2], [c0, c1, c2]]"
  by (simp add: color_correlation_normalized_def Let_def color_correlation_svd_sqrt_def)

lemma vecmat3:
  "vecmat rnd [x0, x1, x2] [[a0, b0, c0], [a1, b1, c1], [a2, b2, c2]]
   = [rnd (rnd (rnd (x0 * a0) + rnd (x1 * a1)) + rnd (x2 * a2)),
      rnd (rnd (rnd (x0 * b0) + rnd (x1 * b1)) + rnd (x2 * b2)),
      rnd (rnd (rnd (x0 * c0) + rnd (x1 * c1)) + rnd (x2 * c2))]"
  by (simp add: vecmat_def transpose.simps sum_rnd3)

lemma upt3: "[0..<3] = [0, 1, 2]"
  by (simp add: upt_rec)

lemma permute_0231_eq:
  assumes t: "has_shape4 n c h w t" and pos: "0 < n" "0 < c" "0 < h"
  shows "permute_0231 t
         = map (\<lambda>tn. map (\<lambda>i. map (\<lambda>j. map (\<lambda>k. tn ! k ! i ! j) [0..<c]) [0..<w]) [0..<h]) t"
  by (simp add: permute_0231_def Let_def has_shape4_shape[OF t pos])

lemma permute_0312_eq:
  assumes t: "has_shape4 n h w c t" and pos: "0 < n" "0 < h" "0 < w"
  shows "permute_0312 t
         = map (\<lambda>tn. map (\<lambda>k. map (\<lambda>i. map (\<lambda>j. tn ! i ! j ! k) [0..<w]) [0..<h]) [0..<c]) t"
  by (simp add: permute_0312_def Let_def has_shape4_shape[OF t pos])

lemma tabulated_shape4:
  assumes "length t = n"
  shows "has_shape4 n a b c (map (\<lambda>tn. map (\<lambda>i. map (\<lambda>j. map (\<lambda>k. f tn i j k) [0..<c]) [0..<b]) [0..<a]) t)"
  using assms by (simp add: has_shape4_def has_shape3_def has_shape2_def list_all_iff)

lemma lucid_colorspace_to_rgb_rnd:
  assumes t: "has_shape4 n 3 h w t" and n: "0 < n" and h: "0 < h" and w: "0 < w"
  shows "lucid_colorspace_to_rgb rnd t
         = Inr (color_transform_rnd rnd (color_correlation_normalized rnd) h w t)"
proof -
  obtain a0 a1 a2 b0 b1 b2 c0 c1 c2
    where M: "color_correlation_normalized rnd = [[a0, a1, a2], [b0, b1, b2], [c0, c1, c2]]"
    using ccn_rows by blast
  let ?MT = "transpose (color_correlation_normalized rnd)"
  have lt: "length t = n" using t by (simp add: has_shape4_def)
  have lMT: "length ?MT = 3" by (simp add: M transpose.simps)
  let ?P = "map (\<lambda>tn. map (\<lambda>i. map (\<lambda>j. map (\<lambda>k. tn ! k ! i ! j) [0..<3]) [0..<w]) [0..<h]) t"
  have P: "permute_0231 t = ?P"
    using n h by (intro permute_0231_eq[OF t]) simp_all
  have shP: "shape4 ?P = [n, h, w, 3]"
    using n h w by (intro has_shape4_shape tabulated_shape4 lt) simp_all
  let ?Q = "map (\<lambda>tn. map (\<lambda>i. map (\<lambda>j.
              [rnd (rnd (rnd (tn ! 0 ! i ! j * a0) + rnd (tn ! 1 ! i ! j * a1)) + rnd (tn ! 2 ! i ! j * a2)),
               rnd (rnd (rnd (tn ! 0 ! i ! j * b0) + rnd (tn ! 1 ! i ! j * b1)) + rnd (tn ! 2 ! i ! j * b2)),
               rnd (rnd (rnd (tn ! 0 ! i ! j * c0) + rnd (tn ! 1 ! i ! j * c1)) + rnd (tn ! 2 ! i ! j * c2))])
              [0..<w]) [0..<h]) t"
  have "matmul rnd ?P ?MT = Inr (map (map (map (\<lambda>v. vecmat rnd v ?MT))) ?P)"
    by (simp only: matmul_def shP lMT) simp
  also have "map (map (map (\<lambda>v. vecmat rnd v ?MT))) ?P = ?Q"
    by (simp add: comp_def upt3 M vecmat3 transpose.simps)
  finally have mm: "matmul rnd ?P ?MT = Inr ?Q" .
  have Qtab: "?Q = map (\<lambda>tn. map (\<lambda>i. map (\<lambda>j. map (\<lambda>k.
              [rnd (rnd (rnd (tn ! 0 ! i ! j * a0) + rnd (tn ! 1 ! i ! j * a1)) + rnd (tn ! 2 ! i ! j * a2)),
               rnd (rnd (rnd (tn ! 0 ! i ! j * b0) + rnd (tn ! 1 ! i ! j * b1)) + rnd (tn ! 2 ! i ! j * b2)),
               rnd (rnd (rnd (tn ! 0 ! i ! j * c0) + rnd (tn ! 1 ! i ! j * c1)) + rnd (tn ! 2 ! i ! j * c2))] ! k)
              [0..<3]) [0..<w]) [0..<h]) t"
    by (simp add: upt3)
  have Q: "has_shape4 n h w 3 ?Q"
    by (subst Qtab) (rule tabulated_shape4[OF lt])
  have "permute_0312 ?Q
        = map (\<lambda>qn. map (\<lambda>k. map (\<lambda>i. map (\<lambda>j. qn ! i ! j ! k) [0..<w]) [0..<h]) [0..<3]) ?Q"
    by (rule permute_0312_eq[OF Q n h w])
  also have "\<dots> = color_transform_rnd rnd (color_correlation_normalized rnd) h w t"
    unfolding color_transform_rnd_def map_map comp_def
  proof (intro map_cong refl)
    fix tn k i j
    assume "k \<in> set [0..<3]" "i \<in> set [0..<h]" "j \<in> set [0..<w]"
    then have i: "i < h" and j: "j < w" and k: "k = 0 \<or> k = 1 \<or> k = 2" by auto
    from k show "map (\<lambda>i. map (\<lambda>j.
              [rnd (rnd (rnd (tn ! 0 ! i ! j * a0) + rnd (tn ! 1 ! i ! j * a1)) + rnd (tn ! 2 ! i ! j * a2)),
               rnd (rnd (rnd (tn ! 0 ! i ! j * b0) + rnd (tn ! 1 ! i ! j * b1)) + rnd (tn ! 2 ! i ! j * b2)),
               rnd (rnd (rnd (tn ! 0 ! i ! j * c0) + rnd (tn ! 1 ! i ! j * c1)) + rnd (tn ! 2 ! i ! j * c2))])
              [0..<w]) [0..<h] ! i ! j ! k
          = rnd (rnd (rnd (tn ! 0 ! i ! j * color_correlation_normalized rnd ! k ! 0)
                      + rnd (tn ! 1 ! i ! j * color_correlation_normalized rnd ! k ! 1))
                 + rnd (tn ! 2 ! i ! j * color_correlation_normalized rnd ! k ! 2))"
      using i j by (auto simp: M)
  qed
  finally have perm: "permute_0312 ?Q = color_transform_rnd rnd (color_correlation_normalized rnd) h w t" .
  show ?thesis
    by (simp only: lucid_colorspace_to_rgb_def Let_def P mm sum.case perm)
qed

lemma color_transform_exact:
  "color_transform_rnd (\<lambda>x. x) m h w t = spec_color_transform m h w t"
  by (simp add: color_transform_rnd_def spec_color_transform_def mult.commute)

lemma lincomb4_exact: "lincomb4_rnd (\<lambda>x. x) a t1 b t2 = lincomb4 a t1 b t2"
  by (simp add: lincomb4_rnd_def lincomb4_def)

lemma lucid_colorspace_to_rgb_eq:
  assumes t: "has_shape4 n 3 h w t" and n: "0 < n" and h: "0 < h" and w: "0 < w"
  shows "lucid_colorspace_to_rgb (\<lambda>x. x) t
         = Inr (spec_color_transform (color_correlation_normalized (\<lambda>x. x)) h w t)"
  by (simp only: lucid_colorspace_to_rgb_rnd[OF t n h w] color_transform_exact)

lemma color_transform_rnd_shape:
  "has_shape4 (length t) 3 h w (color_transform_rnd rnd m h w t)"
  by (simp add: color_transform_rnd_def has_shape4_def has_shape3_def has_shape2_def list_all_iff)

lemma tensor4_eqI:
  assumes x: "has_shape4 n c h w x" and y: "has_shape4 n c h w y"
    and eq: "\<And>m k i j. m < n \<Longrightarrow> k < c \<Longrightarrow> i < h \<Longrightarrow> j < w \<Longrightarrow> x ! m ! k ! i ! j = y ! m ! k ! i ! j"
  shows "x = y"
proof (rule nth_equalityI)
  show "length x = length y" using x y by (simp add: has_shape4_def)
  fix m assume "m < length x"
  then have m: "m < n" using x by (simp add: has_shape4_def)
  note xm = has_shape4_nth[OF x m] and ym = has_shape4_nth[OF y m]
  show "x ! m = y ! m"
  proof (rule nth_equalityI)
    show "length (x ! m) = length (y ! m)" using xm ym by (simp add: has_shape3_def)
    fix k assume "k < length (x ! m)"
    then have k: "k < c" using xm by (simp add: has_shape3_def)
    note xk = has_shape3_nth[OF xm k] and yk = has_shape3_nth[OF ym k]
    show "x ! m ! k = y ! m ! k"
    proof (rule nth_equalityI)
      show "length (x ! m ! k) = length (y ! m ! k)" using xk yk by (simp add: has_shape2_def)
      fix i assume "i < length (x ! m ! k)"
      then have i: "i < h" using xk by (simp add: has_shape2_def)
      show "x ! m ! k ! i = y ! m ! k ! i"
      proof (rule nth_equalityI)
        show "length (x ! m ! k ! i) = length (y ! m ! k ! i)"
          by (simp add: has_shape2_nth_len[OF xk i] has_shape2_nth_len[OF yk i])
        fix j assume "j < length (x ! m ! k ! i)"
        then have "j < w" by (simp add: has_shape2_nth_len[OF xk i])
        then show "x ! m ! k ! i ! j = y ! m ! k ! i ! j" by (rule eq[OF m k i])
      qed
    qed
  qed
qed

lemma lincomb4_nth:
  assumes t1: "has_shape4 n c h w t1" and t2: "has_shape4 n c h w t2"
    and m: "m < n" and k: "k < c" and i: "i < h" and j: "j < w"
  shows "lincomb4 a t1 b t2 ! m ! k ! i ! j = a * t1 ! m ! k ! i ! j + b * t2 ! m ! k ! i ! j"
proof -
  note a1 = has_shape4_nth[OF t1 m] and a2 = has_shape4_nth[OF t2 m]
  note b1 = has_shape3_nth[OF a1 k] and b2 = has_shape3_nth[OF a2 k]
  have l0: "length t1 = n" "length t2 = n" using t1 t2 by (simp_all add: has_shape4_def)
  have l1: "length (t1 ! m) = c" "length (t2 ! m) = c" using a1 a2 by (simp_all add: has_shape3_def)
  have l2: "length (t1 ! m ! k) = h" "length (t2 ! m ! k) = h"
    using b1 b2 by (simp_all add: has_shape2_def)
  have l3: "length (t1 ! m ! k ! i) = w" "length (t2 ! m ! k ! i) = w"
    by (simp_all add: has_shape2_nth_len[OF b1 i] has_shape2_nth_len[OF b2 i])
  show ?thesis
    using m k i j by (simp add: lincomb4_def l0 l1 l2 l3)
qed

lemma map2_all:
  assumes P: "list_all P xs" and Q: "list_all Q ys" and R: "\<And>x y. P x \<Longrightarrow> Q y \<Longrightarrow> R (f x y)"
  shows "list_all R (map2 f xs ys)"
  unfolding list_all_iff
proof
  fix z assume "z \<in> set (map2 f xs ys)"
  then obtain x y where xy: "(x, y) \<in> set (zip xs ys)" and z: "z = f x y" by auto
  have "P x" using P set_zip_leftD[OF xy] by (simp add: list_all_iff)
  moreover have "Q y" using Q set_zip_rightD[OF xy] by (simp add: list_all_iff)
  ultimately show "R z" unfolding z by (rule R)
qed

lemma lincomb4_shape:
  assumes t1: "has_shape4 n c h w t1" and t2: "has_shape4 n c h w t2"
  shows "has_shape4 n c h w (lincomb4 a t1 b t2)"
proof -
  have r: "\<And>x y :: real list. length x = w \<Longrightarrow> length y = w
            \<Longrightarrow> length (map2 (\<lambda>x y. a * x + b * y) x y) = w"
    by simp
  have p: "\<And>x y. has_shape2 h w x \<Longrightarrow> has_shape2 h w y
            \<Longrightarrow> has_shape2 h w (map2 (map2 (\<lambda>x y. a * x + b * y)) x y)"
    unfolding has_shape2_def by (intro conjI map2_all[where P = "\<lambda>r. length r = w" and Q = "\<lambda>r. length r = w"]) (simp_all add: r)
  have q: "\<And>x y. has_shape3 c h w x \<Longrightarrow> has_shape3 c h w y
            \<Longrightarrow> has_shape3 c h w (map2 (map2 (map2 (\<lambda>x y. a * x + b * y))) x y)"
    unfolding has_shape3_def by (intro conjI map2_all[where P = "has_shape2 h w" and Q = "has_shape2 h w"]) (simp_all add: p)
  show ?thesis
    using t1 t2 unfolding has_shape4_def lincomb4_def
    by (intro conjI map2_all[where P = "has_shape3 c h w" and Q = "has_shape3 c h w"]) (simp_all add: q)
qed

lemma spec_color_transform_shape:
  "has_shape4 (length t) 3 h w (spec_color_transform m h w t)"
  by (simp add: spec_color_transform_def has_shape4_def has_shape3_def has_shape2_def list_all_iff)

lemma spec_color_transform_nth:
  assumes "n < length t" "c < 3" "i < h" "j < w"
  shows "spec_color_transform m h w t ! n ! c ! i ! j
         = m ! c ! 0 * t ! n ! 0 ! i ! j + m ! c ! 1 * t ! n ! 1 ! i ! j + m ! c ! 2 * t ! n ! 2 ! i ! j"
  using assms by (simp add: spec_color_transform_def)

lemma spec_color_transform_linear:
  assumes t1: "has_shape4 n 3 h w t1" and t2: "has_shape4 n 3 h w t2"
  shows "spec_color_transform m h w (lincomb4 a t1 b t2)
         = lincomb4 a (spec_color_transform m h w t1) b (spec_color_transform m h w t2)"
proof -
  have l: "length t1 = n" "length t2 = n" using t1 t2 by (simp_all add: has_shape4_def)
  note lc = lincomb4_shape[OF t1 t2, of a b]
  have ll: "length (lincomb4 a t1 b t2) = n" using lc by (simp add: has_shape4_def)
  have s1: "has_shape4 n 3 h w (spec_color_transform m h w t1)"
    using spec_color_transform_shape[of t1 h w m] by (simp add: l)
  have s2: "has_shape4 n 3 h w (spec_color_transform m h w t2)"
    using spec_color_transform_shape[of t2 h w m] by (simp add: l)
  have s: "has_shape4 n 3 h w (spec_color_transform m h w (lincomb4 a t1 b t2))"
    using spec_color_transform_shape[of "lincomb4 a t1 b t2" h w m] by (simp add: ll)
  show ?thesis
  proof (rule tensor4_eqI[OF s lincomb4_shape[OF s1 s2]])
    fix q k i j :: nat assume q: "q < n" and k: "k < 3" and i: "i < h" and j: "j < w"
    have "spec_color_transform m h w (lincomb4 a t1 b t2) ! q ! k ! i ! j
          = m ! k ! 0 * (a * t1 ! q ! 0 ! i ! j + b * t2 ! q ! 0 ! i ! j)
          + m ! k ! 1 * (a * t1 ! q ! 1 ! i ! j + b * t2 ! q ! 1 ! i ! j)
          + m ! k ! 2 * (a * t1 ! q ! 2 ! i ! j + b * t2 ! q ! 2 ! i ! j)"
      using q k i j
      by (simp add: spec_color_transform_nth ll lincomb4_nth[OF t1 t2])
    also have "\<dots> = a * spec_color_transform m h w t1 ! q ! k ! i ! j
                    + b * spec_color_transform m h w t2 ! q ! k ! i ! j"
      using q k i j by (simp add: spec_color_transform_nth l algebra_simps)
    also have "\<dots> = lincomb4 a (spec_color_transform m h w t1) b (spec_color_transform m h w t2)
                      ! q ! k ! i ! j"
      by (rule lincomb4_nth[OF s1 s2 q k i j, symmetric])
    finally show "spec_color_transform m h w (lincomb4 a t1 b t2) ! q ! k ! i ! j
          = lincomb4 a (spec_color_transform m h w t1) b (spec_color_transform m h w t2) ! q ! k ! i ! j" .
  qed
qed

lemma max_column_norm:
  "Max ((\<lambda>j. sqrt (\<Sum>i<3. (color_correlation_svd_sqrt (\<lambda>x. x) ! i ! j)\<^sup>2)) ` {..<3})
   = sqrt (2134 / 10000)"
proof -
  have "{..<3::nat} = {0, 1, 2}" by auto
  then show ?thesis
    by (simp add: numeral_3_eq_3 color_correlation_svd_sqrt_def power2_eq_square max_def)
qed

text \<open>The colour matrix as the program computes it, entry by entry.\<close>

lemma max_norm_float:
  "np_max (norm_axis0 fl32 (color_correlation_svd_sqrt fl32)) = 7750275 / 16777216"
  by (simp add: np_max_def norm_axis0_def color_correlation_svd_sqrt_def upt_rec sum_rnd3
        fl32_values max_def)

lemma ccn_float:
  "color_correlation_normalized fl32 =
     [[1180337 / 2097152, 13074503 / 67108864, 2905445 / 67108864],
      [9805877 / 16777216, 0, - (14527225 / 134217728)],
      [9805877 / 16777216, - (13074503 / 67108864), 8716335 / 134217728]]"
  by (simp only: color_correlation_normalized_def Let_def max_norm_float)
     (simp add: color_correlation_svd_sqrt_def fl32_values)

text \<open>
  C5, as amended. In exact real arithmetic (every operation unrounded),
  \<open>lucid_colorspace_to_rgb\<close> is a fixed linear map on the channel dimension: for tensors
  \<open>t1\<close>, \<open>t2\<close> of the same shape \<open>(n, 3, h, w)\<close> and scalars \<open>a\<close>, \<open>b\<close>,
  \<open>lucid_colorspace_to_rgb(a*t1 + b*t2) = a*lucid_colorspace_to_rgb(t1) + b*lucid_colorspace_to_rgb(t2)\<close>,
  each output channel being the matrix row applied to the input channels, and the matrix is
  the fixed 3 by 3 constant divided by its largest column norm. In \<open>float32\<close>, as the program
  computes, the two sides can differ in the last bit: see the evaluation that follows the
  theorem.
\<close>

theorem colorspace_linear:
  assumes t1: "has_shape4 n 3 h w t1" and t2: "has_shape4 n 3 h w t2"
    and n: "0 < n" and h: "0 < h" and w: "0 < w"
  shows "\<exists>y1 y2. lucid_colorspace_to_rgb (\<lambda>x. x) t1 = Inr y1
     \<and> lucid_colorspace_to_rgb (\<lambda>x. x) t2 = Inr y2
     \<and> lucid_colorspace_to_rgb (\<lambda>x. x) (lincomb4 a t1 b t2) = Inr (lincomb4 a y1 b y2)
     \<and> y1 = spec_color_transform (color_correlation_normalized (\<lambda>x. x)) h w t1
     \<and> color_correlation_normalized (\<lambda>x. x)
        = map (map (\<lambda>x. x / Max ((\<lambda>j. sqrt (\<Sum>i<3. (color_correlation_svd_sqrt (\<lambda>x. x) ! i ! j)\<^sup>2))
                                     ` {..<3})))
            (color_correlation_svd_sqrt (\<lambda>x. x))"
proof -
  let ?M = "color_correlation_normalized (\<lambda>x. x)"
  have 1: "lucid_colorspace_to_rgb (\<lambda>x. x) t1 = Inr (spec_color_transform ?M h w t1)"
    by (rule lucid_colorspace_to_rgb_eq[OF t1 n h w])
  have 2: "lucid_colorspace_to_rgb (\<lambda>x. x) t2 = Inr (spec_color_transform ?M h w t2)"
    by (rule lucid_colorspace_to_rgb_eq[OF t2 n h w])
  have "lucid_colorspace_to_rgb (\<lambda>x. x) (lincomb4 a t1 b t2)
        = Inr (spec_color_transform ?M h w (lincomb4 a t1 b t2))"
    by (rule lucid_colorspace_to_rgb_eq[OF lincomb4_shape[OF t1 t2] n h w])
  then have 3: "lucid_colorspace_to_rgb (\<lambda>x. x) (lincomb4 a t1 b t2)
        = Inr (lincomb4 a (spec_color_transform ?M h w t1) b (spec_color_transform ?M h w t2))"
    by (simp only: spec_color_transform_linear[OF t1 t2])
  have 4: "?M = map (map (\<lambda>x. x / Max ((\<lambda>j. sqrt (\<Sum>i<3. (color_correlation_svd_sqrt (\<lambda>x. x) ! i ! j)\<^sup>2))
                                     ` {..<3})))
            (color_correlation_svd_sqrt (\<lambda>x. x))"
    by (simp only: max_column_norm color_correlation_normalized_def Let_def max_norm_value)
  from 1 2 3 4 show ?thesis by blast
qed

theorem colorspace_linear_witness:
  "has_shape4 1 3 1 1 [[[[1]], [[2]], [[3]]]] \<and> has_shape4 1 3 1 1 [[[[0]], [[1]], [[0]]]]
   \<and> (0::nat) < 1
   \<and> (\<exists>y1 y2. lucid_colorspace_to_rgb (\<lambda>x. x) [[[[1]], [[2]], [[3]]]] = Inr y1
        \<and> lucid_colorspace_to_rgb (\<lambda>x. x) [[[[0]], [[1]], [[0]]]] = Inr y2
        \<and> lucid_colorspace_to_rgb (\<lambda>x. x)
              (lincomb4 2 [[[[1]], [[2]], [[3]]]] 5 [[[[0]], [[1]], [[0]]]])
            = Inr (lincomb4 2 y1 5 y2))"
proof -
  have h1: "has_shape4 1 3 1 1 [[[[1]], [[2]], [[3]]]]"
    and h2: "has_shape4 1 3 1 1 [[[[0]], [[1]], [[0]]]]"
    by (simp_all add: has_shape4_def has_shape3_def has_shape2_def)
  have h3: "(0::nat) < 1" by simp
  from colorspace_linear[OF h1 h2 h3 h3 h3, of 2 5]
  show ?thesis using h1 h2 by blast
qed

lemma color_float_pixel:
  "lucid_colorspace_to_rgb fl32 [[[[x0]], [[x1]], [[x2]]]]
   = Inr [[[[fl32 (fl32 (fl32 (x0 * (1180337 / 2097152)) + fl32 (x1 * (13074503 / 67108864)))
                   + fl32 (x2 * (2905445 / 67108864)))]],
           [[fl32 (fl32 (fl32 (x0 * (9805877 / 16777216)) + fl32 (x1 * 0))
                   + fl32 (x2 * - (14527225 / 134217728)))]],
           [[fl32 (fl32 (fl32 (x0 * (9805877 / 16777216)) + fl32 (x1 * - (13074503 / 67108864)))
                   + fl32 (x2 * (8716335 / 134217728)))]]]]"
proof -
  have s: "has_shape4 1 3 1 1 [[[[x0]], [[x1]], [[x2]]]]"
    by (simp add: has_shape4_def has_shape3_def has_shape2_def)
  show ?thesis
    by (simp only: lucid_colorspace_to_rgb_rnd[OF s zero_less_one zero_less_one zero_less_one]
          color_transform_rnd_def ccn_float)
       (simp add: upt3)
qed

theorem colorspace_float32_counterexample:
  "lucid_colorspace_to_rgb fl32 (lincomb4_rnd fl32 2 [[[[0]], [[0]], [[0]]]] 5 [[[[0]], [[0]], [[3]]]])
     = Inr [[[[10895419 / 16777216]], [[- (13619273 / 8388608)]], [[2042891 / 2097152]]]]
   \<and> lucid_colorspace_to_rgb fl32 [[[[0]], [[0]], [[0]]]] = Inr [[[[0]], [[0]], [[0]]]]
   \<and> lucid_colorspace_to_rgb fl32 [[[[0]], [[0]], [[3]]]]
     = Inr [[[[8716335 / 67108864]], [[- (10895419 / 33554432)]], [[6537251 / 33554432]]]]
   \<and> lincomb4_rnd fl32 2 [[[[0]], [[0]], [[0]]]] 5
        [[[[8716335 / 67108864]], [[- (10895419 / 33554432)]], [[6537251 / 33554432]]]]
     = [[[[10895419 / 16777216]], [[- (6809637 / 4194304)]], [[2042891 / 2097152]]]]
   \<and> [[[[10895419 / 16777216]], [[- (13619273 / 8388608)]], [[2042891 / 2097152]]]]
     \<noteq> [[[[10895419 / 16777216]], [[- (6809637 / 4194304)]], [[2042891 / 2097152 :: real]]]]"
proof -
  have l: "lincomb4_rnd fl32 2 [[[[0]], [[0]], [[0]]]] 5 [[[[0]], [[0]], [[3]]]]
           = [[[[0]], [[0]], [[15]]]]"
    by (simp add: lincomb4_rnd_def fl32_values)
  have 1: "lucid_colorspace_to_rgb fl32 (lincomb4_rnd fl32 2 [[[[0]], [[0]], [[0]]]] 5 [[[[0]], [[0]], [[3]]]])
     = Inr [[[[10895419 / 16777216]], [[- (13619273 / 8388608)]], [[2042891 / 2097152]]]]"
    by (simp only: l color_float_pixel) (simp add: fl32_values)
  have 2: "lucid_colorspace_to_rgb fl32 [[[[0]], [[0]], [[0]]]] = Inr [[[[0]], [[0]], [[0]]]]"
    by (simp only: color_float_pixel) (simp add: fl32_values)
  have 3: "lucid_colorspace_to_rgb fl32 [[[[0]], [[0]], [[3]]]]
     = Inr [[[[8716335 / 67108864]], [[- (10895419 / 33554432)]], [[6537251 / 33554432]]]]"
    by (simp only: color_float_pixel) (simp add: fl32_values)
  have 4: "lincomb4_rnd fl32 2 [[[[0]], [[0]], [[0]]]] 5
        [[[[8716335 / 67108864]], [[- (10895419 / 33554432)]], [[6537251 / 33554432]]]]
     = [[[[10895419 / 16777216]], [[- (6809637 / 4194304)]], [[2042891 / 2097152]]]]"
    by (simp add: lincomb4_rnd_def fl32_values)
  have 5: "[[[[10895419 / 16777216]], [[- (13619273 / 8388608)]], [[2042891 / 2097152]]]]
     \<noteq> [[[[10895419 / 16777216]], [[- (6809637 / 4194304)]], [[2042891 / 2097152 :: real]]]]"
    by simp
  show ?thesis by (intro conjI 1 2 3 4 5)
qed

subsection \<open>The displayed image\<close>

lemma clamp_unit: "0 \<le> clamp 0 1 x \<and> clamp 0 1 x \<le> 1"
  by (simp add: clamp_def)

lemma py_get_first: "py_get xs 0 = Inr v \<Longrightarrow> xs \<noteq> [] \<and> v = xs ! 0"
  by (auto simp: py_get_def split: if_splits)

lemma py_get_first_eq: "xs \<noteq> [] \<Longrightarrow> py_get xs 0 = Inr (xs ! 0)"
  by (simp add: py_get_def)

lemma clamped_entries:
  "list_all (\<lambda>x. 0 \<le> x \<and> x \<le> 1) (flatten3 (map (map (map (clamp 0 1))) y))"
  by (auto simp: flatten3_def list_all_iff clamp_unit)

lemma image_buf_to_rgb_bounded:
  assumes "image_buf_to_rgb p buf = Inr img"
  shows "list_all (\<lambda>x. 0 \<le> x \<and> x \<le> 1) (flatten3 img)"
proof -
  from assms obtain y where y: "py_get (tmap4 (clamp 0 1) y) 0 = Inr img"
    by (auto simp: image_buf_to_rgb_def split: sum.splits)
  from py_get_first[OF y] have ne: "tmap4 (clamp 0 1) y \<noteq> []"
    and img: "img = tmap4 (clamp 0 1) y ! 0" by simp_all
  from ne have "y \<noteq> []" by (simp add: tmap4_def)
  then have "img = map (map (map (clamp 0 1))) (y ! 0)"
    using img by (simp add: tmap4_def)
  then show ?thesis by (simp only: clamped_entries)
qed

lemma per_channel_shape: "length v = 3 \<Longrightarrow> shape4 (per_channel v) = [1, 3, 1, 1]"
  by (cases v) (auto simp: per_channel_def shape4_def shape3_def shape2_def shape1_def shape_of_def)

lemma chan_bcast:
  assumes x: "has_shape4 n 3 h w x" and v: "length v = 3"
  shows "bcast (bcast (bcast (bcast f))) x (per_channel v)
         = map (\<lambda>xn. map (\<lambda>c. map (map (\<lambda>e. f e (v ! c))) (xn ! c)) [0..<3]) x"
proof -
  have "bcast (bcast (bcast (bcast f))) x (per_channel v)
        = map (\<lambda>xn. bcast (bcast (bcast f)) xn (map (\<lambda>s. [[s]]) v)) x"
    by (simp only: per_channel_def bcast_right1)
  also have "\<dots> = map (\<lambda>xn. map (\<lambda>c. map (map (\<lambda>e. f e (v ! c))) (xn ! c)) [0..<3]) x"
  proof (intro map_cong refl)
    fix xn assume "xn \<in> set x"
    then have lx: "length xn = 3" using x by (auto simp: has_shape4_def has_shape3_def list_all_iff)
    have "bcast (bcast (bcast f)) xn (map (\<lambda>s. [[s]]) v)
          = map2 (bcast (bcast f)) xn (map (\<lambda>s. [[s]]) v)"
      using lx v by (simp add: bcast_same)
    also have "\<dots> = map (\<lambda>c. map (map (\<lambda>e. f e (v ! c))) (xn ! c)) [0..<3]"
    proof (rule nth_equalityI)
      show "length (map2 (bcast (bcast f)) xn (map (\<lambda>s. [[s]]) v))
            = length (map (\<lambda>c. map (map (\<lambda>e. f e (v ! c))) (xn ! c)) [0..<3])"
        using lx v by simp
      fix c assume "c < length (map2 (bcast (bcast f)) xn (map (\<lambda>s. [[s]]) v))"
      then have c: "c < 3" using lx v by simp
      have "map2 (bcast (bcast f)) xn (map (\<lambda>s. [[s]]) v) ! c = bcast (bcast f) (xn ! c) [[v ! c]]"
        using c lx v by simp
      also have "\<dots> = map (map (\<lambda>e. f e (v ! c))) (xn ! c)"
        by (simp only: bcast_right1)
      finally show "map2 (bcast (bcast f)) xn (map (\<lambda>s. [[s]]) v) ! c
            = map (\<lambda>c. map (map (\<lambda>e. f e (v ! c))) (xn ! c)) [0..<3] ! c"
        using c by simp
    qed
    finally show "bcast (bcast (bcast f)) xn (map (\<lambda>s. [[s]]) v)
          = map (\<lambda>c. map (map (\<lambda>e. f e (v ! c))) (xn ! c)) [0..<3]" .
  qed
  finally show ?thesis .
qed

lemma chan_map_shape:
  assumes x: "has_shape4 n 3 h w x"
  shows "has_shape4 n 3 h w (map (\<lambda>xn. map (\<lambda>c. map (map (g c)) (xn ! c)) [0..<3]) x)"
proof -
  have "\<And>xn c. xn \<in> set x \<Longrightarrow> c < 3 \<Longrightarrow> has_shape2 h w (xn ! c)"
    using x by (auto simp: has_shape4_def has_shape3_def list_all_length in_set_conv_nth)
  then show ?thesis
    using x by (auto simp: has_shape4_def has_shape3_def has_shape2_def list_all_iff)
qed

lemma bcast4_channel:
  assumes x: "has_shape4 n 3 h w x" and pos: "0 < n" "0 < h" and v: "length v = 3"
  shows "bcast4 f x (per_channel v)
         = Inr (map (\<lambda>xn. map (\<lambda>c. map (map (\<lambda>e. f e (v ! c))) (xn ! c)) [0..<3]) x)"
proof -
  have "shape4 x = [n, 3, h, w]" using x pos by (intro has_shape4_shape) simp_all
  then have "broadcastable (shape4 x) (shape4 (per_channel v))"
    by (simp add: per_channel_shape[OF v] broadcastable_def)
  then show ?thesis by (simp only: bcast4_def if_True chan_bcast[OF x v])
qed

lemma denormalize_eq:
  assumes x: "has_shape4 n 3 h w x" and pos: "0 < n" "0 < h"
  shows "denormalize x
         = Inr (map (\<lambda>xn. map (\<lambda>c. map (map (\<lambda>e. e * snd imagenet_mean_std ! c + fst imagenet_mean_std ! c))
                      (xn ! c)) [0..<3]) x)"
proof -
  obtain mean std where ms: "imagenet_mean_std = (mean, std)" by (cases imagenet_mean_std)
  have len: "length mean = 3" "length std = 3"
    using ms by (auto simp: imagenet_mean_std_def)
  let ?y = "map (\<lambda>xn. map (\<lambda>c. map (map (\<lambda>e. e * std ! c)) (xn ! c)) [0..<3]) x"
  have 1: "bcast4 (*) x (per_channel std) = Inr ?y"
    by (rule bcast4_channel[OF x pos len(2)])
  have y: "has_shape4 n 3 h w ?y" by (rule chan_map_shape[OF x])
  have 2: "bcast4 (+) ?y (per_channel mean)
           = Inr (map (\<lambda>yn. map (\<lambda>c. map (map (\<lambda>e. e + mean ! c)) (yn ! c)) [0..<3]) ?y)"
    by (rule bcast4_channel[OF y pos len(1)])
  have "map (\<lambda>yn. map (\<lambda>c. map (map (\<lambda>e. e + mean ! c)) (yn ! c)) [0..<3]) ?y
        = map (\<lambda>xn. map (\<lambda>c. map (map (\<lambda>e. e * std ! c + mean ! c)) (xn ! c)) [0..<3]) x"
    by (simp add: comp_def upt3)
  with 1 2 show ?thesis by (simp add: denormalize_def ms)
qed

lemma image_buf_to_rgb_shape:
  assumes b: "has_shape5 1 3 sz (sz div 2 + 1) 2 buf" and sz: "0 < sz" and p: "0 \<le> p"
  shows "\<exists>img. image_buf_to_rgb p buf = Inr img \<and> has_shape3 3 sz sz img"
proof -
  let ?I = "map (map (\<lambda>z. irfft2_plane sz sz (spec_scaled_plane sz p z))) buf"
  have I: "fft_to_rgb p buf = Inr ?I" using sz p by (intro fft_to_rgb_eq[OF b]) simp_all
  have sI: "has_shape4 1 3 sz sz ?I" by (rule fft_to_rgb_shape[OF b])
  let ?C = "color_transform_rnd fl32 (color_correlation_normalized fl32) sz sz ?I"
  have C: "lucid_colorspace_to_rgb fl32 ?I = Inr ?C"
    using sz by (intro lucid_colorspace_to_rgb_rnd[OF sI]) simp_all
  have "length ?I = 1" using sI by (simp add: has_shape4_def)
  then have sC: "has_shape4 1 3 sz sz ?C"
    using color_transform_rnd_shape[of ?I sz sz fl32 "color_correlation_normalized fl32"] by simp
  let ?D = "map (\<lambda>xn. map (\<lambda>c. map (map (\<lambda>e. e * snd imagenet_mean_std ! c + fst imagenet_mean_std ! c))
                      (xn ! c)) [0..<3]) ?C"
  have D: "denormalize ?C = Inr ?D" using sz by (intro denormalize_eq[OF sC]) simp_all
  have sD: "has_shape4 1 3 sz sz ?D" by (rule chan_map_shape[OF sC])
  have sT: "has_shape4 1 3 sz sz (tmap4 (clamp 0 1) ?D)"
    using sD by (auto simp: tmap4_def has_shape4_def has_shape3_def has_shape2_def list_all_iff)
  then have ne: "tmap4 (clamp 0 1) ?D \<noteq> []" by (auto simp: has_shape4_def)
  have "image_buf_to_rgb p buf = Inr (tmap4 (clamp 0 1) ?D ! 0)"
    by (simp only: image_buf_to_rgb_def I C D sum.case py_get_first_eq[OF ne])
  moreover have "has_shape3 3 sz sz (tmap4 (clamp 0 1) ?D ! 0)"
    by (rule has_shape4_nth[OF sT]) simp
  ultimately show ?thesis by blast
qed

subsection \<open>The loss\<close>

lemma sum_list_nth_sum: "sum_list (xs :: real list) = (\<Sum>i<length xs. xs ! i)"
  by (simp add: sum_list_sum_nth atLeast0LessThan)

lemma sum_list_concat_map:
  "sum_list (map f (concat xss)) = (\<Sum>i<length xss. sum_list (map f (xss ! i)))" for f :: "'a \<Rightarrow> real"
proof -
  have "sum_list (map f (concat xss)) = sum_list (map (\<lambda>xs. sum_list (map f xs)) xss)"
    by (induction xss) simp_all
  also have "\<dots> = (\<Sum>i<length xss. sum_list (map f (xss ! i)))"
    by (simp add: sum_list_nth_sum)
  finally show ?thesis .
qed

lemma length_concat_rect:
  assumes "list_all (\<lambda>r. length r = w) x"
  shows "length (concat x) = length x * w"
  using assms by (induction x) simp_all

lemma plane_sum:
  fixes f :: "real \<Rightarrow> real"
  assumes x: "has_shape2 h w x"
  shows "sum_list (map f (concat x)) = (\<Sum>i<h. \<Sum>j<w. f (x ! i ! j))"
proof -
  have lx: "length x = h" using x by (simp add: has_shape2_def)
  have "sum_list (map f (concat x)) = (\<Sum>i<h. sum_list (map f (x ! i)))"
    by (simp only: sum_list_concat_map lx)
  also have "\<dots> = (\<Sum>i<h. \<Sum>j<w. f (x ! i ! j))"
  proof (rule sum.cong[OF refl])
    fix i assume "i \<in> {..<h}"
    then have "length (x ! i) = w" using has_shape2_nth_len[OF x] by simp
    then show "sum_list (map f (x ! i)) = (\<Sum>j<w. f (x ! i ! j))"
      by (simp add: sum_list_nth_sum)
  qed
  finally show ?thesis .
qed

lemma plane_length: "has_shape2 h w x \<Longrightarrow> length (concat x) = h * w"
  using length_concat_rect[of w x] by (simp add: has_shape2_def)

lemma channel_mean:
  assumes "has_shape2 h w x"
  shows "tensor_mean (concat x) = spec_channel_mean h w x"
  using plane_sum[OF assms, of "\<lambda>v. v"] plane_length[OF assms]
  by (simp add: tensor_mean_def spec_channel_mean_def)

lemma volume_sum:
  fixes f :: "real \<Rightarrow> real"
  assumes t: "has_shape3 c h w t"
  shows "sum_list (map f (flatten3 t)) = (\<Sum>k<c. \<Sum>i<h. \<Sum>j<w. f (t ! k ! i ! j))"
proof -
  have lt: "length t = c" using t by (simp add: has_shape3_def)
  have "sum_list (map f (concat (concat t))) = sum_list (map (\<lambda>pl. sum_list (map f (concat pl))) t)"
    by (induction t) simp_all
  also have "\<dots> = (\<Sum>k<c. sum_list (map f (concat (t ! k))))"
    by (simp add: sum_list_nth_sum lt)
  also have "\<dots> = (\<Sum>k<c. \<Sum>i<h. \<Sum>j<w. f (t ! k ! i ! j))"
    by (rule sum.cong[OF refl]) (simp add: plane_sum[OF has_shape3_nth[OF t]])
  finally show ?thesis by (simp only: flatten3_def)
qed

lemma volume_length:
  assumes t: "has_shape3 c h w t"
  shows "length (flatten3 t) = c * h * w"
proof -
  have "list_all (\<lambda>pl. length (concat pl) = h * w) t"
    using t by (auto simp: has_shape3_def list_all_iff plane_length)
  then have "length (concat (concat t)) = length t * (h * w)"
    by (induction t) simp_all
  then show ?thesis using t by (simp add: flatten3_def has_shape3_def)
qed

lemma py_get_index:
  assumes "- int (length xs) \<le> f" "f < int (length xs)"
  shows "py_get xs f = Inr (xs ! nat (f mod int (length xs)))"
proof (cases "0 \<le> f")
  case True
  then show ?thesis using assms by (simp add: py_get_def)
next
  case False
  then have "(f + int (length xs)) mod int (length xs) = f + int (length xs)"
    using assms by (intro mod_pos_pos_trivial) simp_all
  then have "f mod int (length xs) = int (length xs) + f"
    by (simp add: add.commute)
  then show ?thesis using False assms by (simp add: py_get_def)
qed

lemma feature_loss_channel:
  assumes out: "has_shape4 n c h w out" and n: "0 < n"
    and f: "- int c \<le> f" "f < int c"
  shows "feature_loss (Some f) (Some out) = Inr (- spec_channel_mean h w (out ! 0 ! nat (f mod int c)))"
proof -
  have ne: "out \<noteq> []" using out n by (auto simp: has_shape4_def)
  have o0: "has_shape3 c h w (out ! 0)" by (rule has_shape4_nth[OF out n])
  then have lc: "length (out ! 0) = c" by (simp add: has_shape3_def)
  have "0 \<le> f mod int c" "f mod int c < int c" using f by simp_all
  then have k: "nat (f mod int c) < c" by linarith
  have ch: "has_shape2 h w (out ! 0 ! nat (f mod int c))" by (rule has_shape3_nth[OF o0 k])
  have "py_get (out ! 0) f = Inr (out ! 0 ! nat (f mod int c))"
    using f py_get_index[of "out ! 0" f] by (simp add: lc)
  then show ?thesis
    by (simp add: feature_loss_def py_get_first_eq[OF ne] channel_mean[OF ch])
qed

lemma feature_loss_none:
  assumes out: "has_shape4 1 c h w out"
  shows "feature_loss None (Some out) = Inr (- spec_square_mean 1 c h w out)"
proof -
  have ne: "out \<noteq> []" using out by (auto simp: has_shape4_def)
  have o0: "has_shape3 c h w (out ! 0)" by (rule has_shape4_nth[OF out]) simp
  have "tensor_mean (map (\<lambda>x. x\<^sup>2) (flatten3 (out ! 0)))
        = (\<Sum>k<c. \<Sum>i<h. \<Sum>j<w. (out ! 0 ! k ! i ! j)\<^sup>2) / real (c * h * w)"
    by (simp add: tensor_mean_def volume_sum[OF o0] volume_length[OF o0])
  also have "\<dots> = spec_square_mean 1 c h w out"
    by (simp add: spec_square_mean_def)
  finally show ?thesis
    by (simp add: feature_loss_def py_get_first_eq[OF ne])
qed

subsection \<open>The optimization loop\<close>

text \<open>What a successful forward pass, step and run consist of.\<close>

lemma forward_loss_InrE:
  assumes "forward_loss fw a layer feature hook r w buf = Inr (loss, st, hook', r', w')"
  shows "\<exists>img outs. forward fw w layer img = Inr (outs, w') \<and> hook' = run_hook hook outs
           \<and> feature_loss feature hook' = Inr loss"
  using assms
  by (auto simp: forward_loss_def Let_def split: sum.splits prod.splits)

lemma feature_loss_InrE:
  assumes "feature_loss feature hook = Inr loss"
  shows "\<exists>out. hook = Some out"
  using assms by (cases hook) (simp_all add: feature_loss_def)

lemma vf_step_InrE:
  assumes "vf_step fw a layer feature i s = Inr (loss, s')"
  shows "\<exists>st hook' r' w' grad mg' buf' w'' o' d.
      forward_loss fw a layer feature (hook_out s) (rng s) (model s) (img_buf s)
        = Inr (loss, st, hook', r', w')
    \<and> backward fw
          (\<lambda>w b. map_sum id fst (forward_loss fw a layer feature (hook_out s) (rng s) w b))
          (model s) (img_buf s) (model_grads s) = (grad, mg')
    \<and> opt_step_all fw (opt_params s) (clip_grad_norm (arg_grad_clip a) grad) mg'
          (img_buf s, w', opt s) = (buf', w'', o')
    \<and> debug_frame a i loss st buf' (shown s) = Inr d
    \<and> s' = s\<lparr> img_buf := buf', model := w'', model_grads := mg', opt := o',
                hook_out := hook', rng := r', shown := d \<rparr>"
  using assms
  by (auto simp: vf_step_def split: sum.splits prod.splits)

text \<open>\<open>opt.step()\<close> writes the tensors of the optimizer's list and no other.\<close>

lemma opt_step_all_frame:
  assumes "\<forall>k. Net k \<notin> set ps"
  shows "fst (snd (opt_step_all fw ps grad mg (buf, w, ost))) = w"
  using assms
proof (induction ps arbitrary: buf ost)
  case Nil
  show ?case by simp
next
  case (Cons p ps)
  from Cons.prems have p: "p = Buf" and rest: "\<forall>k. Net k \<notin> set ps"
    by (cases p; simp)+
  obtain buf' ost' where o: "opt_step fw ost buf grad = (buf', ost')"
    by (cases "opt_step fw ost buf grad")
  show ?case by (simp add: p o Cons.IH[OF rest])
qed

lemma opt_step_all_buf:
  "opt_step_all fw [Buf] grad mg (buf, w, ost)
   = (fst (opt_step fw ost buf grad), w, snd (opt_step fw ost buf grad))"
  by (simp add: case_prod_beta)

lemma vf_step_opt_params:
  assumes "vf_step fw a layer feature i s = Inr (loss, s')"
  shows "opt_params s' = opt_params s"
  using vf_step_InrE[OF assms] by auto

lemma vf_step_model:
  assumes step: "vf_step fw a layer feature i s = Inr (loss, s')"
    and pure: "\<forall>w l x outs w'. forward fw w l x = Inr (outs, w') \<longrightarrow> net_param fw w' = net_param fw w"
    and ps: "\<forall>k. Net k \<notin> set (opt_params s)"
  shows "net_param fw (model s') = net_param fw (model s)"
proof -
  from vf_step_InrE[OF step] obtain st hook' r' w' grad mg' buf' w'' o' where
    fl: "forward_loss fw a layer feature (hook_out s) (rng s) (model s) (img_buf s)
           = Inr (loss, st, hook', r', w')"
    and os: "opt_step_all fw (opt_params s) (clip_grad_norm (arg_grad_clip a) grad) mg'
          (img_buf s, w', opt s) = (buf', w'', o')"
    and m: "model s' = w''"
    by auto
  from forward_loss_InrE[OF fl] obtain img outs where
    "forward fw (model s) layer img = Inr (outs, w')" by blast
  with pure have 1: "net_param fw w' = net_param fw (model s)" by blast
  from opt_step_all_frame[OF ps, of fw "clip_grad_norm (arg_grad_clip a) grad" mg' "img_buf s" w' "opt s"] os
  have "w'' = w'" by simp
  with 1 m show ?thesis by simp
qed

lemma vf_step_buffer:
  assumes step: "vf_step fw a layer feature i s = Inr (loss, s')"
    and ps: "opt_params s = [Buf]"
  shows "(img_buf s', opt s')
         = opt_step fw (opt s) (img_buf s)
             (clip_grad_norm (arg_grad_clip a)
                (fst (backward fw
                   (\<lambda>w b. map_sum id fst
                            (forward_loss fw a layer feature (hook_out s) (rng s) w b))
                   (model s) (img_buf s) (model_grads s))))"
proof -
  from vf_step_InrE[OF step] obtain w' grad mg' buf' w'' o' where
    bw: "backward fw
          (\<lambda>w b. map_sum id fst (forward_loss fw a layer feature (hook_out s) (rng s) w b))
          (model s) (img_buf s) (model_grads s) = (grad, mg')"
    and os: "opt_step_all fw (opt_params s) (clip_grad_norm (arg_grad_clip a) grad) mg'
          (img_buf s, w', opt s) = (buf', w'', o')"
    and e: "img_buf s' = buf'" "opt s' = o'"
    by auto
  have g: "fst (backward fw
          (\<lambda>w b. map_sum id fst (forward_loss fw a layer feature (hook_out s) (rng s) w b))
          (model s) (img_buf s) (model_grads s)) = grad"
    by (simp add: bw)
  from os have "(fst (opt_step fw (opt s) (img_buf s) (clip_grad_norm (arg_grad_clip a) grad)), w',
                 snd (opt_step fw (opt s) (img_buf s) (clip_grad_norm (arg_grad_clip a) grad)))
                = (buf', w'', o')"
    by (simp only: ps opt_step_all_buf)
  then have "opt_step fw (opt s) (img_buf s) (clip_grad_norm (arg_grad_clip a) grad) = (buf', o')"
    by (simp add: prod_eq_iff)
  then show ?thesis by (simp only: g e)
qed

lemma vf_loop_opt_params:
  assumes "vf_loop fw a layer feature js s = Inr s'"
  shows "opt_params s' = opt_params s"
  using assms
proof (induction js arbitrary: s)
  case Nil
  then show ?case by simp
next
  case (Cons j js)
  from Cons.prems obtain loss s1 where step: "vf_step fw a layer feature j s = Inr (loss, s1)"
    and rest: "vf_loop fw a layer feature js s1 = Inr s'"
    by (auto split: sum.splits)
  from Cons.IH[OF rest] vf_step_opt_params[OF step] show ?case by simp
qed

lemma vf_loop_model:
  assumes loop: "vf_loop fw a layer feature js s = Inr s'"
    and pure: "\<forall>w l x outs w'. forward fw w l x = Inr (outs, w') \<longrightarrow> net_param fw w' = net_param fw w"
    and ps: "\<forall>k. Net k \<notin> set (opt_params s)"
  shows "net_param fw (model s') = net_param fw (model s)"
  using loop ps
proof (induction js arbitrary: s)
  case Nil
  then show ?case by simp
next
  case (Cons j js)
  from Cons.prems(1) obtain loss s1 where step: "vf_step fw a layer feature j s = Inr (loss, s1)"
    and rest: "vf_loop fw a layer feature js s1 = Inr s'"
    by (auto split: sum.splits)
  have ps1: "\<forall>k. Net k \<notin> set (opt_params s1)"
    using Cons.prems(2) by (simp add: vf_step_opt_params[OF step])
  from Cons.IH[OF rest ps1] vf_step_model[OF step pure Cons.prems(2)] show ?case by simp
qed

lemma vf_loop_append:
  "vf_loop fw a layer feature (js @ ks) s
   = (case vf_loop fw a layer feature js s of
        Inl e \<Rightarrow> Inl e
      | Inr s1 \<Rightarrow> vf_loop fw a layer feature ks s1)"
  by (induction js arbitrary: s) (auto split: sum.splits)

lemma visualize_feature_InrE:
  assumes "visualize_feature fw a w layer feature start_image mg r d = Inr (ret, s)"
  shows "\<exists>buf r0 sl retval.
      initial_buf fw a start_image r = Inr (buf, r0)
    \<and> vf_loop fw a layer feature [1..arg_steps a]
          \<lparr> img_buf = buf, model = w, model_grads = mg,
            opt = opt_init fw (arg_lr a) (arg_weight_decay a) buf,
            opt_params = [Buf], hook_out = None, rng = r0, shown = d \<rparr> = Inr sl
    \<and> image_buf_to_rgb (kw_decay_power a) (img_buf sl) = Inr retval
    \<and> (if arg_show a
        then ret = None \<and>
             (if arg_debug a then s = sl
              else show_rgb (kw_dpi a) None retval (shown sl) = Inr (shown s)
                   \<and> s = sl\<lparr> shown := shown s \<rparr>)
        else ret = Some retval \<and> s = sl)"
  using assms
  by (auto simp: visualize_feature_def Let_def split: sum.splits prod.splits if_splits)

lemma visualize_feature_state:
  assumes "visualize_feature fw a w layer feature start_image mg r d = Inr (ret, s)"
  shows "\<exists>buf r0 sl.
      vf_loop fw a layer feature [1..arg_steps a]
          \<lparr> img_buf = buf, model = w, model_grads = mg,
            opt = opt_init fw (arg_lr a) (arg_weight_decay a) buf,
            opt_params = [Buf], hook_out = None, rng = r0, shown = d \<rparr> = Inr sl
    \<and> model s = model sl \<and> opt_params s = opt_params sl \<and> img_buf s = img_buf sl"
proof -
  from visualize_feature_InrE[OF assms] obtain buf r0 sl where
    loop: "vf_loop fw a layer feature [1..arg_steps a]
          \<lparr> img_buf = buf, model = w, model_grads = mg,
            opt = opt_init fw (arg_lr a) (arg_weight_decay a) buf,
            opt_params = [Buf], hook_out = None, rng = r0, shown = d \<rparr> = Inr sl"
    and s: "s = sl \<or> s = sl\<lparr> shown := shown s \<rparr>"
    by (auto split: if_splits)
  from s have "model s = model sl \<and> opt_params s = opt_params sl \<and> img_buf s = img_buf sl"
  proof
    assume "s = sl" then show ?thesis by simp
  next
    assume e: "s = sl\<lparr> shown := shown s \<rparr>"
    have "model (sl\<lparr> shown := shown s \<rparr>) = model sl" "opt_params (sl\<lparr> shown := shown s \<rparr>) = opt_params sl"
      "img_buf (sl\<lparr> shown := shown s \<rparr>) = img_buf sl"
      by simp_all
    then show ?thesis by (simp only: e[symmetric])
  qed
  with loop show ?thesis by blast
qed

lemma vf_loop_last:
  assumes "vf_loop fw a layer feature (js @ [i]) s = Inr sl"
  shows "\<exists>s1 loss. vf_loop fw a layer feature js s = Inr s1
           \<and> vf_step fw a layer feature i s1 = Inr (loss, sl)"
  using assms by (auto simp: vf_loop_append split: sum.splits)

lemma debug_frame_shown:
  assumes df: "debug_frame a i loss st buf d = Inr d'"
    and dbg: "arg_debug a"
    and frame: "i mod py_int (real_of_int (arg_steps a) / real_of_int (arg_frames a)) = 0"
    and img: "image_buf_to_rgb (kw_decay_power a) buf = Inr retval"
  shows "d' = [(Some (i, loss, st), permute_120 retval)]"
  using df dbg frame img
  by (auto simp: debug_frame_def Let_def show_rgb_def split: if_splits)

lemma last_frame_is_final:
  assumes loop: "vf_loop fw a layer feature [1..arg_steps a] s0 = Inr sl"
    and dbg: "arg_debug a"
    and pos: "0 < arg_steps a"
    and frame: "arg_steps a mod py_int (real_of_int (arg_steps a) / real_of_int (arg_frames a)) = 0"
    and img: "image_buf_to_rgb (kw_decay_power a) (img_buf sl) = Inr retval"
  shows "\<exists>lbl. shown sl = [(Some lbl, permute_120 retval)]"
proof -
  have "[1..arg_steps a] = [1..arg_steps a - 1] @ [arg_steps a]"
    using pos by (intro upto_rec2) simp
  with loop have "vf_loop fw a layer feature ([1..arg_steps a - 1] @ [arg_steps a]) s0 = Inr sl"
    by simp
  from vf_loop_last[OF this] obtain s1 loss where
    step: "vf_step fw a layer feature (arg_steps a) s1 = Inr (loss, sl)" by blast
  from vf_step_InrE[OF step] obtain st buf' d' where
    df: "debug_frame a (arg_steps a) loss st buf' (shown s1) = Inr d'"
    and b: "img_buf sl = buf'" and d: "shown sl = d'"
    by auto
  from debug_frame_shown[OF df dbg frame] img b
  have "d' = [(Some (arg_steps a, loss, st), permute_120 retval)]" by simp
  with d show ?thesis by blast
qed

subsection \<open>Exceptions\<close>






















subsection \<open>The small instance, evaluated\<close>

lemma zero_buf_shape: "has_shape5 1 3 2 (2 div 2 + 1) 2 zero_buf"
  by (simp add: zero_buf_def has_shape5_def has_shape4_def has_shape3_def has_shape2_def)

lemma demo_buf_shape: "has_shape5 1 3 2 (2 div 2 + 1) 2 demo_buf"
  by (simp add: demo_buf_def has_shape5_def has_shape4_def has_shape3_def has_shape2_def)

lemma zero_image_shape: "has_shape4 1 3 2 2 [[[[0, 0], [0, 0]], [[0, 0], [0, 0]], [[0, 0], [0, 0]]]]"
  by (simp add: has_shape4_def has_shape3_def has_shape2_def)

lemma fft_to_rgb_zero:
  assumes "0 \<le> p"
  shows "fft_to_rgb p zero_buf = Inr [[[[0, 0], [0, 0]], [[0, 0], [0, 0]], [[0, 0], [0, 0]]]]"
proof -
  have "fft_to_rgb p zero_buf
        = Inr (map (map (\<lambda>z. irfft2_plane 2 2 (spec_scaled_plane 2 p z))) zero_buf)"
    using assms by (intro fft_to_rgb_eq[OF zero_buf_shape]) simp_all
  then show ?thesis by (simp add: zero_buf_def irfft2_zero_plane)
qed

lemma upt2: "[0..<2] = [0, 1]"
  by (simp add: upt_rec)

lemma color_float_image:
  "lucid_colorspace_to_rgb fl32 [[[[x, x], [x, x]], [[0, 0], [0, 0]], [[0, 0], [0, 0]]]]
   = Inr [[[[fl32 (fl32 (fl32 (x * (1180337 / 2097152)))), fl32 (fl32 (fl32 (x * (1180337 / 2097152))))],
            [fl32 (fl32 (fl32 (x * (1180337 / 2097152)))), fl32 (fl32 (fl32 (x * (1180337 / 2097152))))]],
           [[fl32 (fl32 (fl32 (x * (9805877 / 16777216)))), fl32 (fl32 (fl32 (x * (9805877 / 16777216))))],
            [fl32 (fl32 (fl32 (x * (9805877 / 16777216)))), fl32 (fl32 (fl32 (x * (9805877 / 16777216))))]],
           [[fl32 (fl32 (fl32 (x * (9805877 / 16777216)))), fl32 (fl32 (fl32 (x * (9805877 / 16777216))))],
            [fl32 (fl32 (fl32 (x * (9805877 / 16777216)))), fl32 (fl32 (fl32 (x * (9805877 / 16777216))))]]]]"
proof -
  have s: "has_shape4 1 3 2 2 [[[[x, x], [x, x]], [[0, 0], [0, 0]], [[0, 0], [0, 0]]]]"
    by (simp add: has_shape4_def has_shape3_def has_shape2_def)
  have two: "(0::nat) < 2" by simp
  show ?thesis
    by (simp only: lucid_colorspace_to_rgb_rnd[OF s zero_less_one two two]
          color_transform_rnd_def ccn_float)
       (simp add: upt3 upt2 fl32_zero)
qed

lemma colorspace_zero:
  "lucid_colorspace_to_rgb fl32 [[[[0, 0], [0, 0]], [[0, 0], [0, 0]], [[0, 0], [0, 0]]]]
   = Inr [[[[0, 0], [0, 0]], [[0, 0], [0, 0]], [[0, 0], [0, 0]]]]"
  by (simp only: color_float_image) (simp add: fl32_zero)

lemma stats_zero:
  "tensor_stats [[[[0, 0], [0, 0]], [[0, 0], [0, 0]], [[0, 0], [0, 0]]]] = Inr (0, 0, 0, 0)"
  by (simp add: tensor_stats_def flatten4_def tensor_mean_def Let_def)

lemma sigmoid_zero:
  "tmap4 (\<lambda>x. sigmoid x * 2 - 1) [[[[0, 0], [0, 0]], [[0, 0], [0, 0]], [[0, 0], [0, 0]]]]
   = [[[[0, 0], [0, 0]], [[0, 0], [0, 0]], [[0, 0], [0, 0]]]]"
  by (simp add: tmap4_def sigmoid_def)

lemma demo_calls:
  "lucid_transform_calls (\<lambda>r. (1 / 2, Suc r)) 2 None (1 / 2) 0 r
   = Inr ([Pad 1, CropPad 2 (1 / 2) (1 / 2), Zoom 1, Rotate 0, CropPad 2 (1 / 2) (1 / 2)],
          Suc (Suc (Suc (Suc (Suc (Suc r))))))"
proof -
  have 1: "rand_choice (scale_factors (1 / 2)) (1 / 2) = Inr 1"
    by (simp add: rand_choice_def scale_factors_default py_int_def py_get_def)
  have 2: "rand_choice (rotate_factors 0) (1 / 2) = Inr 0"
    by (simp add: rand_choice_def rotate_factors_def py_int_def py_get_def)
  show ?thesis
    by (simp add: lucid_transform_calls_def 1 2 py_int_def)
qed

lemma demo_transforms:
  "lucid_transforms demo_apply (\<lambda>r. (1 / 2, Suc r)) None (1 / 2) 0
      [[[[0, 0], [0, 0]], [[0, 0], [0, 0]], [[0, 0], [0, 0]]]] r
   = Inr ([[[[0, 0], [0, 0]], [[0, 0], [0, 0]], [[0, 0], [0, 0]]]],
          Suc (Suc (Suc (Suc (Suc (Suc r))))))"
proof -
  have two: "(1::nat) < 2" by simp
  show ?thesis
    by (simp only: lucid_transforms_def Let_def squeeze_image[OF zero_image_shape two] demo_calls
          sum.case prod.case demo_apply_blank)
qed

lemma demo_feature_loss: "feature_loss (Some 0) (Some demo_out) = Inr (- 4)"
proof -
  have s: "has_shape4 1 2 2 2 demo_out"
    by (simp add: demo_out_def has_shape4_def has_shape3_def has_shape2_def)
  have "feature_loss (Some 0) (Some demo_out)
        = Inr (- spec_channel_mean 2 2 (demo_out ! 0 ! nat (0 mod int 2)))"
    by (intro feature_loss_channel[OF s]) simp_all
  then show ?thesis
    by (simp add: spec_channel_mean_def demo_out_def numeral_2_eq_2)
qed

lemma image_zero: "image_buf_to_rgb (3 / 4) zero_buf = Inr grey_img"
proof -
  have d: "denormalize [[[[0, 0], [0, 0]], [[0, 0], [0, 0]], [[0, 0], [0, 0]]]]
           = Inr [grey_img]"
    by (simp add: denormalize_eq[OF zero_image_shape] imagenet_mean_std_def upt3 grey_img_def)
  show ?thesis
    by (simp add: image_buf_to_rgb_def fft_to_rgb_zero colorspace_zero d tmap4_def
          py_get_def clamp_def grey_img_def)
qed

lemma scale_dc: "spec_scale 2 (3 / 4) 0 0 = sqrt 2"
proof -
  have "1 / (2 * sqrt (1 / 2)) = sqrt (1 / 2)"
    by (simp add: real_sqrt_divide field_simps)
  moreover have "1 / sqrt (1 / 2) = sqrt 2"
    by (simp add: real_sqrt_divide)
  ultimately show ?thesis
    by (simp add: spec_scale_def spec_freq_def spec_power_def max_def)
qed

lemma irfft2_dc_plane:
  "irfft2_plane 2 2 (spec_scaled_plane 2 (3 / 4) [[[- (100 * sqrt 2), 0], [0, 0]], [[0, 0], [0, 0]]])
   = [[- 100, - 100], [- 100, - 100]]"
  by (simp add: irfft2_plane_def irfft2_sample_def spec_scaled_plane_def numeral_2_eq_2
        upt_rec hermitian_weight_def scale_dc[unfolded numeral_2_eq_2])

lemma image_demo: "image_buf_to_rgb (3 / 4) demo_buf = Inr black_img"
proof -
  let ?I = "[[[[- 100, - 100], [- 100, - 100]], [[0, 0], [0, 0]], [[0, 0], [0, 0 :: real]]]]"
  let ?C = "[[[[- (3688553 / 65536), - (3688553 / 65536)], [- (3688553 / 65536), - (3688553 / 65536)]],
              [[- (15321683 / 262144), - (15321683 / 262144)],
               [- (15321683 / 262144), - (15321683 / 262144)]],
              [[- (15321683 / 262144), - (15321683 / 262144)],
               [- (15321683 / 262144), - (15321683 / 262144 :: real)]]]]"
  have "fft_to_rgb (3 / 4) demo_buf
        = Inr (map (map (\<lambda>z. irfft2_plane 2 2 (spec_scaled_plane 2 (3 / 4) z))) demo_buf)"
    by (intro fft_to_rgb_eq[OF demo_buf_shape]) simp_all
  then have I: "fft_to_rgb (3 / 4) demo_buf = Inr ?I"
    by (simp add: demo_buf_def irfft2_zero_plane irfft2_dc_plane)
  have C: "lucid_colorspace_to_rgb fl32 ?I = Inr ?C"
    by (simp only: color_float_image) (simp add: fl32_values)
  have sC: "has_shape4 1 3 2 2 ?C"
    by (simp add: has_shape4_def has_shape3_def has_shape2_def)
  have D: "denormalize ?C
     = Inr (map (\<lambda>xn. map (\<lambda>c. map (map (\<lambda>e. e * snd imagenet_mean_std ! c + fst imagenet_mean_std ! c))
                      (xn ! c)) [0..<3]) ?C)"
    by (intro denormalize_eq[OF sC]) simp_all
  show ?thesis
    by (simp only: image_buf_to_rgb_def I C D sum.case)
       (simp add: tmap4_def imagenet_mean_std_def upt3 clamp_def py_get_def black_img_def)
qed

lemma grey_shape: "shape3 grey_img = [3, 2, 2]"
  by (simp add: grey_img_def shape3_def shape2_def shape1_def shape_of_def)

lemma black_shape: "shape3 black_img = [3, 2, 2]"
  by (simp add: black_img_def shape3_def shape2_def shape1_def shape_of_def)

lemma demo_args_fields:
  "arg_size demo_args = 2" "arg_steps demo_args = 5" "arg_lr demo_args = 4 / 1000"
  "arg_weight_decay demo_args = 1 / 10" "arg_grad_clip demo_args = 1"
  "arg_debug demo_args = False" "arg_frames demo_args = 2" "arg_show demo_args = True"
  "kw_rand_sd demo_args = 1 / 100" "kw_decay_power demo_args = 3 / 4"
  "kw_jitter demo_args = None" "kw_scale demo_args = 1 / 2" "kw_degrees demo_args = 0"
  "kw_dpi demo_args = 25"
  by (simp_all add: demo_args_def default_args_def)

lemma demo_init: "init_fft_buf (\<lambda>r. (0, Suc r)) 2 (1 / 100) r = Inr (zero_buf, r + 24)"
  by (simp add: init_fft_buf_def zero_buf_def numeral_2_eq_2 numeral_3_eq_3)

lemma demo_forward_loss:
  assumes "kw_decay_power a = 3 / 4" "kw_jitter a = None" "kw_scale a = 1 / 2" "kw_degrees a = 0"
  shows "forward_loss demo_fw a l (Some 0) hook r w zero_buf
         = Inr (- 4, (0, 0, 0, 0), Some demo_out, r + 6, w)"
  by (simp add: forward_loss_def assms fft_to_rgb_zero colorspace_zero stats_zero sigmoid_zero
        demo_fw_def demo_transforms run_hook_def demo_feature_loss)

lemma demo_step:
  assumes a: "kw_decay_power a = 3 / 4" "kw_jitter a = None" "kw_scale a = 1 / 2"
      "kw_degrees a = 0"
    and b: "img_buf s = zero_buf" and ps: "opt_params s = [Buf]"
  shows "vf_step demo_fw a l (Some 0) i s
         = (case debug_frame a i (- 4) (0, 0, 0, 0) (if opt s = 4 then demo_buf else zero_buf)
                   (shown s) of
              Inl e \<Rightarrow> Inl e
            | Inr d \<Rightarrow>
                Inr (- 4, s\<lparr> img_buf := (if opt s = 4 then demo_buf else zero_buf),
                             model := model s,
                             model_grads := Suc (model_grads s), opt := Suc (opt s),
                             hook_out := Some demo_out, rng := rng s + 6, shown := d \<rparr>))"
  by (simp add: vf_step_def b ps demo_forward_loss[OF a])
     (auto simp add: demo_fw_def split: sum.splits)

lemma demo_quiet_step:
  "vf_step demo_fw demo_args l (Some 0) i
      \<lparr> img_buf = zero_buf, model = w, model_grads = g, opt = n, opt_params = [Buf],
        hook_out = h, rng = r, shown = d \<rparr>
   = Inr (- 4, \<lparr> img_buf = (if n = 4 then demo_buf else zero_buf), model = w,
                   model_grads = Suc g, opt = Suc n, opt_params = [Buf],
                   hook_out = Some demo_out, rng = r + 6, shown = d \<rparr>)"
  by (simp add: demo_step demo_args_fields debug_frame_def)

text \<open>
  The same step with an optimizer built over the buffer and the network's parameter: the
  parameter changes.
\<close>

lemma demo_step_over_network:
  "vf_step demo_fw demo_args l (Some 0) i
      \<lparr> img_buf = zero_buf, model = w, model_grads = g, opt = 0, opt_params = [Buf, Net 0],
        hook_out = h, rng = r, shown = d \<rparr>
   = Inr (- 4, \<lparr> img_buf = zero_buf, model = Suc w,
                   model_grads = Suc g, opt = 2, opt_params = [Buf, Net 0],
                   hook_out = Some demo_out, rng = r + 6, shown = d \<rparr>)"
  by (simp add: vf_step_def demo_forward_loss demo_args_fields debug_frame_def)
     (simp add: demo_fw_def)

lemma demo_loop:
  "vf_loop demo_fw demo_args l (Some 0) [1..5]
      \<lparr> img_buf = zero_buf, model = w, model_grads = 0, opt = 0, opt_params = [Buf],
        hook_out = None, rng = r, shown = d \<rparr>
   = Inr \<lparr> img_buf = demo_buf, model = w, model_grads = 5, opt = 5, opt_params = [Buf],
           hook_out = Some demo_out, rng = r + 30, shown = d \<rparr>"
  by (simp add: demo_quiet_step upto_rec1)

lemma demo_run:
  "visualize_feature demo_fw demo_args w l (Some 0) None 0 0 []
   = Inr (None, \<lparr> img_buf = demo_buf, model = w, model_grads = 5, opt = 5,
                   opt_params = [Buf], hook_out = Some demo_out, rng = 54,
                   shown = [(None, permute_120 black_img)] \<rparr>)"
proof -
  have i: "initial_buf demo_fw demo_args None 0 = Inr (zero_buf, 24)"
    using demo_init[of 0] by (simp add: initial_buf_def demo_fw_def demo_args_fields)
  have o: "\<And>x y b. opt_init demo_fw x y b = 0"
    by (simp add: demo_fw_def)
  show ?thesis
    by (simp add: visualize_feature_def i o demo_args_fields demo_loop image_demo show_rgb_def
          black_shape)
qed

lemma debug_args_fields:
  "arg_size debug_args = 2" "arg_steps debug_args = 5" "arg_lr debug_args = 4 / 1000"
  "arg_weight_decay debug_args = 1 / 10" "arg_grad_clip debug_args = 1"
  "arg_debug debug_args = True" "arg_frames debug_args = 2" "arg_show debug_args = True"
  "kw_rand_sd debug_args = 1 / 100" "kw_decay_power debug_args = 3 / 4"
  "kw_jitter debug_args = None" "kw_scale debug_args = 1 / 2" "kw_degrees debug_args = 0"
  "kw_dpi debug_args = 25"
  by (simp_all add: debug_args_def demo_args_def default_args_def)

lemma debug_period: "py_int (real_of_int 5 / real_of_int 2) = 2"
proof -
  have "\<lfloor>5 / 2 :: real\<rfloor> = 2" by (simp add: floor_eq_iff)
  then show ?thesis by (simp add: py_int_def)
qed

lemma demo_debug_frame:
  "debug_frame debug_args i loss st zero_buf d
   = (if i mod 2 \<noteq> 0 then Inr d else Inr [(Some (i, loss, st), permute_120 grey_img)])"
  using debug_period
  by (simp add: debug_frame_def debug_args_fields image_zero show_rgb_def grey_shape)

lemma demo_debug_frame_last:
  "debug_frame debug_args 5 loss st demo_buf d = Inr d"
  using debug_period
  by (simp add: debug_frame_def debug_args_fields)

lemma demo_debug_step:
  "n \<noteq> 4 \<Longrightarrow> vf_step demo_fw debug_args l (Some 0) i
      \<lparr> img_buf = zero_buf, model = w, model_grads = g, opt = n, opt_params = [Buf],
        hook_out = h, rng = r, shown = d \<rparr>
   = Inr (- 4, \<lparr> img_buf = zero_buf, model = w,
                   model_grads = Suc g, opt = Suc n, opt_params = [Buf],
                   hook_out = Some demo_out, rng = r + 6,
                   shown = (if i mod 2 \<noteq> 0 then d
                            else [(Some (i, - 4, (0, 0, 0, 0)), permute_120 grey_img)]) \<rparr>)"
  by (simp add: demo_step debug_args_fields demo_debug_frame)

lemma demo_debug_step_last:
  "n = 4 \<Longrightarrow> vf_step demo_fw debug_args l (Some 0) 5
      \<lparr> img_buf = zero_buf, model = w, model_grads = g, opt = n, opt_params = [Buf],
        hook_out = h, rng = r, shown = d \<rparr>
   = Inr (- 4, \<lparr> img_buf = demo_buf, model = w,
                   model_grads = Suc g, opt = Suc n, opt_params = [Buf],
                   hook_out = Some demo_out, rng = r + 6, shown = d \<rparr>)"
  by (simp add: demo_step debug_args_fields demo_debug_frame_last)

lemma debug_loop:
  "vf_loop demo_fw debug_args l (Some 0) [1..5]
      \<lparr> img_buf = zero_buf, model = w, model_grads = 0, opt = 0, opt_params = [Buf],
        hook_out = None, rng = r, shown = d \<rparr>
   = Inr \<lparr> img_buf = demo_buf, model = w, model_grads = 5, opt = 5, opt_params = [Buf],
           hook_out = Some demo_out, rng = r + 30,
           shown = [(Some (4, - 4, (0, 0, 0, 0)), permute_120 grey_img)] \<rparr>"
  by (simp add: demo_debug_step demo_debug_step_last upto_rec1)

lemma debug_run:
  "visualize_feature demo_fw debug_args w l (Some 0) None 0 0 []
   = Inr (None, \<lparr> img_buf = demo_buf, model = w, model_grads = 5, opt = 5,
                   opt_params = [Buf], hook_out = Some demo_out, rng = 54,
                   shown = [(Some (4, - 4, (0, 0, 0, 0)), permute_120 grey_img)] \<rparr>)"
proof -
  have i: "initial_buf demo_fw debug_args None 0 = Inr (zero_buf, 24)"
    using demo_init[of 0] by (simp add: initial_buf_def demo_fw_def debug_args_fields)
  have o: "\<And>x y b. opt_init demo_fw x y b = 0"
    by (simp add: demo_fw_def)
  show ?thesis
    by (simp add: visualize_feature_def i o debug_args_fields debug_loop image_demo)
qed

lemma frames_differ: "permute_120 grey_img \<noteq> permute_120 black_img"
  by (simp add: permute_120_def grey_img_def black_img_def shape3_def shape2_def shape1_def
        shape_of_def upt3 upt2)

lemma demo_out_shape: "has_shape4 1 2 2 2 demo_out"
  by (simp add: demo_out_def has_shape4_def has_shape3_def has_shape2_def)


subsection \<open>The loss of an iteration\<close>

text \<open>
  C1. In every iteration of the loop that completes, the loss is minus the mean of channel
  \<open>feature\<close> of the first batch element of the hooked layer's output, and minus the mean of
  the squares of the whole output when \<open>feature\<close> is \<open>None\<close>. The output is the one the
  hook stored during this iteration's forward pass (\<open>run_hook\<close>), of shape \<open>(n, c, h, w)\<close>
  with \<open>-c \<le> feature < c\<close>, and of batch size 1 when \<open>feature\<close> is \<open>None\<close> (the code squares
  \<open>hook_out[0]\<close>, which is the whole output for the batch of one image the loop feeds). This
  loss, as a function of the network and the buffer, is what the backward pass
  differentiates.
\<close>

theorem loss_is_negated_activation:
  assumes step: "vf_step fw a layer feature i s = Inr (loss, s')"
    and hook: "hook_out s' = Some out"
    and shape: "has_shape4 n c h w out" "0 < n" "0 < c" "0 < h" "0 < w"
    and feat: "case feature of None \<Rightarrow> n = 1 | Some f \<Rightarrow> - int c \<le> f \<and> f < int c"
  shows "loss = spec_feature_loss feature n c h w out
         \<and> (\<exists>img outs w'. forward fw (model s) layer img = Inr (outs, w')
               \<and> run_hook (hook_out s) outs = Some out)
         \<and> map_sum id fst (forward_loss fw a layer feature (hook_out s) (rng s) (model s) (img_buf s))
             = Inr loss"
proof -
  from vf_step_InrE[OF step] obtain st hook' r' w' where
    fl: "forward_loss fw a layer feature (hook_out s) (rng s) (model s) (img_buf s)
           = Inr (loss, st, hook', r', w')"
    and h': "hook_out s' = hook'"
    by auto
  from forward_loss_InrE[OF fl] obtain img outs where
    fwd: "forward fw (model s) layer img = Inr (outs, w')"
    and rh: "hook' = run_hook (hook_out s) outs"
    and l: "feature_loss feature hook' = Inr loss"
    by blast
  have ho: "hook' = Some out" using h' hook by simp
  have "loss = spec_feature_loss feature n c h w out"
  proof (cases feature)
    case None
    with feat have n1: "n = 1" by simp
    from feature_loss_none[of c h w out] shape(1) n1
    have "feature_loss None (Some out) = Inr (- spec_square_mean 1 c h w out)" by simp
    with l ho None n1 show ?thesis by (simp add: spec_feature_loss_def)
  next
    case (Some f)
    with feat have f: "- int c \<le> f" "f < int c" by simp_all
    from feature_loss_channel[OF shape(1) shape(2) f] l ho Some
    show ?thesis by (simp add: spec_feature_loss_def)
  qed
  moreover have "\<exists>img outs w'. forward fw (model s) layer img = Inr (outs, w')
               \<and> run_hook (hook_out s) outs = Some out"
    using fwd rh ho by auto
  moreover have "map_sum id fst (forward_loss fw a layer feature (hook_out s) (rng s) (model s) (img_buf s))
             = Inr loss"
    by (simp add: fl)
  ultimately show ?thesis by blast
qed

theorem loss_is_negated_activation_witness:
  "vf_step demo_fw demo_args () (Some 0) 1
      \<lparr> img_buf = zero_buf, model = 7, model_grads = 0, opt = 0, opt_params = [Buf],
        hook_out = None, rng = 24, shown = [] \<rparr>
   = Inr (- 4, \<lparr> img_buf = zero_buf, model = 7, model_grads = 1, opt = 1,
                   opt_params = [Buf], hook_out = Some demo_out, rng = 30, shown = [] \<rparr>)
   \<and> has_shape4 1 2 2 2 demo_out
   \<and> - 4 = spec_feature_loss (Some 0) 1 2 2 2 demo_out
   \<and> spec_feature_loss (Some 0) 1 2 2 2 demo_out = - ((1 + 3 + 5 + 7) / 4)"
proof -
  have step: "vf_step demo_fw demo_args () (Some 0) 1
      \<lparr> img_buf = zero_buf, model = 7, model_grads = 0, opt = 0, opt_params = [Buf],
        hook_out = None, rng = 24, shown = [] \<rparr>
   = Inr (- 4, \<lparr> img_buf = zero_buf, model = 7, model_grads = 1, opt = 1,
                   opt_params = [Buf], hook_out = Some demo_out, rng = 30, shown = [] \<rparr>)"
    by (simp add: demo_quiet_step)
  have hook: "hook_out \<lparr> img_buf = zero_buf, model = 7::nat, model_grads = 1::nat, opt = 1::nat,
                   opt_params = [Buf], hook_out = Some demo_out, rng = 30::nat, shown = [] \<rparr>
              = Some demo_out"
    by simp
  have feat: "case Some (0::int) of None \<Rightarrow> (1::nat) = 1 | Some f \<Rightarrow> - int 2 \<le> f \<and> f < int 2"
    by simp
  have l: "- 4 = spec_feature_loss (Some 0) 1 2 2 2 demo_out"
    by (rule conjunct1[OF loss_is_negated_activation[OF step hook demo_out_shape _ _ _ _ feat]])
       simp_all
  have v: "spec_feature_loss (Some 0) 1 2 2 2 demo_out = - ((1 + 3 + 5 + 7) / 4)"
    by (simp add: spec_feature_loss_def spec_channel_mean_def demo_out_def numeral_2_eq_2)
  show ?thesis by (intro conjI step demo_out_shape l v)
qed

subsection \<open>The network is not modified\<close>

text \<open>
  C2. The network is frozen. The optimizer is built over the list \<open>[img_buf]\<close>, and its
  \<open>step()\<close> writes the tensors of its list and no other; so, for a network whose forward
  pass does not write its own parameters, the values of the parameters are the same after
  every step, after any number of steps and after the whole call as before it, and the new
  buffer and optimizer state of a step are exactly the optimizer's update of the buffer with
  the clipped gradient of this step's backward pass. The first two statements are about an
  optimizer over any list that holds no parameter of the network; the last is about the
  call, which builds the list.
\<close>

theorem model_frozen:
  assumes pure: "\<forall>w l x outs w'. forward fw w l x = Inr (outs, w')
                   \<longrightarrow> net_param fw w' = net_param fw w"
  shows "(vf_step fw a layer feature i s = Inr (loss, s1) \<and> (\<forall>k. Net k \<notin> set (opt_params s))
          \<longrightarrow> net_param fw (model s1) = net_param fw (model s)
              \<and> opt_params s1 = opt_params s)
   \<and> (vf_step fw a layer feature i s = Inr (loss, s1) \<and> opt_params s = [Buf]
          \<longrightarrow> (img_buf s1, opt s1)
              = opt_step fw (opt s) (img_buf s)
                  (clip_grad_norm (arg_grad_clip a)
                     (fst (backward fw
                        (\<lambda>w b. map_sum id fst
                                 (forward_loss fw a layer feature (hook_out s) (rng s) w b))
                        (model s) (img_buf s) (model_grads s)))))
   \<and> (vf_loop fw a layer feature js s = Inr s2 \<and> (\<forall>k. Net k \<notin> set (opt_params s))
          \<longrightarrow> net_param fw (model s2) = net_param fw (model s))
   \<and> (visualize_feature fw a w layer feature start_image mg r d = Inr (ret, s3)
          \<longrightarrow> net_param fw (model s3) = net_param fw w \<and> opt_params s3 = [Buf])"
proof (intro conjI impI)
  assume "vf_step fw a layer feature i s = Inr (loss, s1) \<and> (\<forall>k. Net k \<notin> set (opt_params s))"
  then have step: "vf_step fw a layer feature i s = Inr (loss, s1)"
    and ps: "\<forall>k. Net k \<notin> set (opt_params s)"
    by simp_all
  show "net_param fw (model s1) = net_param fw (model s)"
    by (rule vf_step_model[OF step pure ps])
  show "opt_params s1 = opt_params s" by (rule vf_step_opt_params[OF step])
next
  assume "vf_step fw a layer feature i s = Inr (loss, s1) \<and> opt_params s = [Buf]"
  then have step: "vf_step fw a layer feature i s = Inr (loss, s1)" and ps: "opt_params s = [Buf]"
    by simp_all
  show "(img_buf s1, opt s1)
          = opt_step fw (opt s) (img_buf s)
              (clip_grad_norm (arg_grad_clip a)
                 (fst (backward fw
                    (\<lambda>w b. map_sum id fst
                             (forward_loss fw a layer feature (hook_out s) (rng s) w b))
                    (model s) (img_buf s) (model_grads s))))"
    by (rule vf_step_buffer[OF step ps])
next
  assume "vf_loop fw a layer feature js s = Inr s2 \<and> (\<forall>k. Net k \<notin> set (opt_params s))"
  then have loop: "vf_loop fw a layer feature js s = Inr s2"
    and ps: "\<forall>k. Net k \<notin> set (opt_params s)"
    by simp_all
  show "net_param fw (model s2) = net_param fw (model s)"
    by (rule vf_loop_model[OF loop pure ps])
next
  assume run: "visualize_feature fw a w layer feature start_image mg r d = Inr (ret, s3)"
  from visualize_feature_state[OF run] obtain buf r0 sl where
    loop: "vf_loop fw a layer feature [1..arg_steps a]
          \<lparr> img_buf = buf, model = w, model_grads = mg,
            opt = opt_init fw (arg_lr a) (arg_weight_decay a) buf,
            opt_params = [Buf], hook_out = None, rng = r0, shown = d \<rparr> = Inr sl"
    and m: "model s3 = model sl" and o: "opt_params s3 = opt_params sl"
    by blast
  have ps: "\<forall>k. Net k \<notin> set (opt_params
          \<lparr> img_buf = buf, model = w, model_grads = mg,
            opt = opt_init fw (arg_lr a) (arg_weight_decay a) buf,
            opt_params = [Buf], hook_out = None, rng = r0, shown = d \<rparr>)"
    by simp
  from vf_loop_model[OF loop pure ps] m
  show "net_param fw (model s3) = net_param fw w" by simp
  from vf_loop_opt_params[OF loop] o
  show "opt_params s3 = [Buf]" by simp
qed

lemma demo_forward_pure:
  "\<forall>w l x outs w'. forward demo_fw w l x = Inr (outs, w')
     \<longrightarrow> net_param demo_fw w' = net_param demo_fw w"
  by (simp add: demo_fw_def)

theorem model_frozen_witness:
  "visualize_feature demo_fw demo_args 7 () (Some 0) None 0 0 []
   = Inr (None, \<lparr> img_buf = demo_buf, model = 7, model_grads = 5, opt = 5,
                   opt_params = [Buf], hook_out = Some demo_out, rng = 54,
                   shown = [(None, permute_120 black_img)] \<rparr>)
   \<and> net_param demo_fw
        (model \<lparr> img_buf = demo_buf, model = 7 :: nat, model_grads = 5 :: nat, opt = 5 :: nat,
                 opt_params = [Buf], hook_out = Some demo_out, rng = 54 :: nat,
                 shown = [(None, permute_120 black_img)] \<rparr>)
      = net_param demo_fw 7
   \<and> opt_params \<lparr> img_buf = demo_buf, model = 7 :: nat, model_grads = 5 :: nat, opt = 5 :: nat,
                 opt_params = [Buf], hook_out = Some demo_out, rng = 54 :: nat,
                 shown = [(None, permute_120 black_img)] \<rparr> = [Buf]
   \<and> net_param demo_fw 7 0 = [7]"
proof -
  have run: "visualize_feature demo_fw demo_args 7 () (Some 0) None 0 0 []
   = Inr (None, \<lparr> img_buf = demo_buf, model = 7, model_grads = 5, opt = 5,
                   opt_params = [Buf], hook_out = Some demo_out, rng = 54,
                   shown = [(None, permute_120 black_img)] \<rparr>)"
    by (rule demo_run)
  note frame = model_frozen[OF demo_forward_pure, THEN conjunct2, THEN conjunct2, THEN conjunct2,
      THEN mp, OF run]
  have v: "net_param demo_fw 7 0 = [7]" by (simp add: demo_fw_def)
  show ?thesis
    by (intro conjI run conjunct1[OF frame] conjunct2[OF frame] v)
qed

subsection \<open>No exception is caught\<close>



subsection \<open>The returned value and the display\<close>

text \<open>
  C8, as amended. A call that completes returns the final image exactly when \<open>show\<close> is
  false, and \<open>None\<close> when \<open>show\<close> is true (the default). With \<open>show\<close> true and \<open>debug\<close>
  false the final image is appended to the display by \<open>show_rgb\<close>. With \<open>debug\<close> true nothing
  is displayed after the loop, so the display is what the loop left: if \<open>steps\<close> is
  positive and a multiple of \<open>int(steps/frames)\<close>, as it is for the defaults 500 and 10,
  the last step was a debug frame and the display holds exactly the final image; for other
  values the final image need not be displayed at all, as in the run of 5 steps with 2
  frames evaluated after the theorem, whose last frame is that of step 4.
\<close>

theorem return_value_and_display:
  assumes run: "visualize_feature fw a w layer feature start_image mg r d = Inr (ret, s)"
  shows "\<exists>buf r0 sl retval.
      initial_buf fw a start_image r = Inr (buf, r0)
    \<and> vf_loop fw a layer feature [1..arg_steps a]
          \<lparr> img_buf = buf, model = w, model_grads = mg,
            opt = opt_init fw (arg_lr a) (arg_weight_decay a) buf,
            opt_params = [Buf], hook_out = None, rng = r0, shown = d \<rparr> = Inr sl
    \<and> image_buf_to_rgb (kw_decay_power a) (img_buf sl) = Inr retval
    \<and> ret = (if arg_show a then None else Some retval)
    \<and> shown s = (if arg_show a \<and> \<not> arg_debug a then shown sl @ [(None, permute_120 retval)]
                 else shown sl)
    \<and> (arg_debug a \<and> 0 < arg_steps a
         \<and> arg_steps a mod py_int (real_of_int (arg_steps a) / real_of_int (arg_frames a)) = 0
        \<longrightarrow> (\<exists>lbl. shown sl = [(Some lbl, permute_120 retval)]))
    \<and> arg_show default_args \<and> \<not> arg_debug default_args
    \<and> 0 < arg_steps default_args
    \<and> arg_steps default_args
          mod py_int (real_of_int (arg_steps default_args) / real_of_int (arg_frames default_args))
        = 0"
proof -
  from visualize_feature_InrE[OF run] obtain buf r0 sl retval where
    i: "initial_buf fw a start_image r = Inr (buf, r0)"
    and loop: "vf_loop fw a layer feature [1..arg_steps a]
          \<lparr> img_buf = buf, model = w, model_grads = mg,
            opt = opt_init fw (arg_lr a) (arg_weight_decay a) buf,
            opt_params = [Buf], hook_out = None, rng = r0, shown = d \<rparr> = Inr sl"
    and img: "image_buf_to_rgb (kw_decay_power a) (img_buf sl) = Inr retval"
    and rest: "if arg_show a
        then ret = None \<and>
             (if arg_debug a then s = sl
              else show_rgb (kw_dpi a) None retval (shown sl) = Inr (shown s)
                   \<and> s = sl\<lparr> shown := shown s \<rparr>)
        else ret = Some retval \<and> s = sl"
    by blast
  have ret: "ret = (if arg_show a then None else Some retval)"
    using rest by (simp split: if_splits)
  have sh: "shown s = (if arg_show a \<and> \<not> arg_debug a then shown sl @ [(None, permute_120 retval)]
                 else shown sl)"
    using rest by (auto simp: show_rgb_def split: if_splits)
  have fr: "arg_debug a \<and> 0 < arg_steps a
         \<and> arg_steps a mod py_int (real_of_int (arg_steps a) / real_of_int (arg_frames a)) = 0
        \<longrightarrow> (\<exists>lbl. shown sl = [(Some lbl, permute_120 retval)])"
    by (intro impI; elim conjE; rule last_frame_is_final[OF loop _ _ _ img]; assumption)
  have df: "arg_show default_args \<and> \<not> arg_debug default_args
    \<and> 0 < arg_steps default_args
    \<and> arg_steps default_args
          mod py_int (real_of_int (arg_steps default_args) / real_of_int (arg_frames default_args))
        = 0"
    by (simp add: default_args_def py_int_def)
  show ?thesis
    by (rule exI[of _ buf], rule exI[of _ r0], rule exI[of _ sl], rule exI[of _ retval])
       (intro conjI i loop img ret sh fr df[THEN conjunct1] df[THEN conjunct2, THEN conjunct1]
          df[THEN conjunct2, THEN conjunct2, THEN conjunct1]
          df[THEN conjunct2, THEN conjunct2, THEN conjunct2])
qed

theorem return_value_and_display_witness:
  "visualize_feature demo_fw demo_args 7 () (Some 0) None 0 0 []
   = Inr (None, \<lparr> img_buf = demo_buf, model = 7, model_grads = 5, opt = 5,
                   opt_params = [Buf], hook_out = Some demo_out, rng = 54,
                   shown = [(None, permute_120 black_img)] \<rparr>)
   \<and> (\<exists>buf r0 sl retval.
      initial_buf demo_fw demo_args None 0 = Inr (buf, r0)
    \<and> vf_loop demo_fw demo_args () (Some 0) [1..arg_steps demo_args]
          \<lparr> img_buf = buf, model = 7, model_grads = 0,
            opt = opt_init demo_fw (arg_lr demo_args) (arg_weight_decay demo_args) buf,
            opt_params = [Buf], hook_out = None, rng = r0, shown = [] \<rparr> = Inr sl
    \<and> image_buf_to_rgb (kw_decay_power demo_args) (img_buf sl) = Inr retval
    \<and> None = (if arg_show demo_args then None else Some retval)
    \<and> shown \<lparr> img_buf = demo_buf, model = 7 :: nat, model_grads = 5 :: nat, opt = 5 :: nat,
                   opt_params = [Buf], hook_out = Some demo_out, rng = 54 :: nat,
                   shown = [(None, permute_120 black_img)] \<rparr>
        = (if arg_show demo_args \<and> \<not> arg_debug demo_args
           then shown sl @ [(None, permute_120 retval)] else shown sl)
    \<and> (arg_debug demo_args \<and> 0 < arg_steps demo_args
         \<and> arg_steps demo_args
             mod py_int (real_of_int (arg_steps demo_args) / real_of_int (arg_frames demo_args)) = 0
        \<longrightarrow> (\<exists>lbl. shown sl = [(Some lbl, permute_120 retval)]))
    \<and> arg_show default_args \<and> \<not> arg_debug default_args
    \<and> 0 < arg_steps default_args
    \<and> arg_steps default_args
          mod py_int (real_of_int (arg_steps default_args) / real_of_int (arg_frames default_args))
        = 0)"
proof -
  have run: "visualize_feature demo_fw demo_args 7 () (Some 0) None 0 0 []
   = Inr (None, \<lparr> img_buf = demo_buf, model = 7, model_grads = 5, opt = 5,
                   opt_params = [Buf], hook_out = Some demo_out, rng = 54,
                   shown = [(None, permute_120 black_img)] \<rparr>)"
    by (rule demo_run)
  show ?thesis
    by (intro conjI run return_value_and_display[OF run])
qed

theorem final_image_not_displayed_counterexample:
  "visualize_feature demo_fw debug_args 7 () (Some 0) None 0 0 []
   = Inr (None, \<lparr> img_buf = demo_buf, model = 7, model_grads = 5, opt = 5,
                   opt_params = [Buf], hook_out = Some demo_out, rng = 54,
                   shown = [(Some (4, - 4, (0, 0, 0, 0)), permute_120 grey_img)] \<rparr>)
   \<and> arg_show debug_args
   \<and> image_buf_to_rgb (kw_decay_power debug_args) demo_buf = Inr black_img
   \<and> permute_120 grey_img \<noteq> permute_120 black_img"
  by (simp add: debug_run debug_args_fields image_demo frames_differ)

subsection \<open>The final image lies in the unit interval\<close>

text \<open>
  C9. For a buffer of shape \<open>(1, 3, size, size//2 + 1, 2)\<close> with \<open>size > 0\<close> (and
  \<open>decay_power \<ge> 0\<close>), \<open>image_buf_to_rgb\<close> returns a tensor of shape \<open>(3, size, size)\<close> with
  every entry in \<open>[0, 1]\<close>; and whenever \<open>visualize_feature\<close> completes, the image of its
  final buffer has every entry in \<open>[0, 1]\<close>, it is the image returned when \<open>show\<close> is false
  and the one displayed last (channels permuted to the end) when \<open>show\<close> is true and \<open>debug\<close>
  is false.
\<close>

theorem image_in_unit_interval:
  "(has_shape5 1 3 sz (sz div 2 + 1) 2 buf \<and> 0 < sz \<and> 0 \<le> p \<longrightarrow>
      (\<exists>img. image_buf_to_rgb p buf = Inr img \<and> has_shape3 3 sz sz img
         \<and> list_all (\<lambda>x. 0 \<le> x \<and> x \<le> 1) (flatten3 img)))
   \<and> (visualize_feature fw a w layer feature start_image mg r d = Inr (ret, s) \<longrightarrow>
      (\<exists>img. image_buf_to_rgb (kw_decay_power a) (img_buf s) = Inr img
         \<and> list_all (\<lambda>x. 0 \<le> x \<and> x \<le> 1) (flatten3 img)
         \<and> (\<not> arg_show a \<longrightarrow> ret = Some img)
         \<and> (arg_show a \<and> \<not> arg_debug a \<longrightarrow>
              shown s \<noteq> [] \<and> last (shown s) = (None, permute_120 img))))"
proof (intro conjI impI)
  assume "has_shape5 1 3 sz (sz div 2 + 1) 2 buf \<and> 0 < sz \<and> 0 \<le> p"
  then have b: "has_shape5 1 3 sz (sz div 2 + 1) 2 buf" and sz: "0 < sz" and p: "0 \<le> p"
    by simp_all
  from image_buf_to_rgb_shape[OF b sz p] obtain img where
    i: "image_buf_to_rgb p buf = Inr img" and sh: "has_shape3 3 sz sz img" by blast
  from image_buf_to_rgb_bounded[OF i] i sh
  show "\<exists>img. image_buf_to_rgb p buf = Inr img \<and> has_shape3 3 sz sz img
         \<and> list_all (\<lambda>x. 0 \<le> x \<and> x \<le> 1) (flatten3 img)"
    by blast
next
  assume run: "visualize_feature fw a w layer feature start_image mg r d = Inr (ret, s)"
  from visualize_feature_InrE[OF run] obtain sl retval where
    img: "image_buf_to_rgb (kw_decay_power a) (img_buf sl) = Inr retval"
    and rest: "if arg_show a
        then ret = None \<and>
             (if arg_debug a then s = sl
              else show_rgb (kw_dpi a) None retval (shown sl) = Inr (shown s)
                   \<and> s = sl\<lparr> shown := shown s \<rparr>)
        else ret = Some retval \<and> s = sl"
    by blast
  have b: "img_buf s = img_buf sl"
  proof (cases "arg_show a \<and> \<not> arg_debug a")
    case True
    with rest have "s = sl\<lparr> shown := shown s \<rparr>" by simp
    from arg_cong[OF this, of img_buf] show ?thesis by simp
  next
    case False
    with rest show ?thesis by (auto split: if_splits)
  qed
  have 1: "image_buf_to_rgb (kw_decay_power a) (img_buf s) = Inr retval" using img b by simp
  have 2: "list_all (\<lambda>x. 0 \<le> x \<and> x \<le> 1) (flatten3 retval)"
    by (rule image_buf_to_rgb_bounded[OF img])
  have 3: "\<not> arg_show a \<longrightarrow> ret = Some retval" using rest by simp
  have 4: "arg_show a \<and> \<not> arg_debug a \<longrightarrow>
              shown s \<noteq> [] \<and> last (shown s) = (None, permute_120 retval)"
  proof (intro impI; elim conjE)
    assume "arg_show a" "\<not> arg_debug a"
    with rest have "shown s = shown sl @ [(None, permute_120 retval)]"
      by (auto simp: show_rgb_def split: if_splits)
    then show "shown s \<noteq> [] \<and> last (shown s) = (None, permute_120 retval)" by simp
  qed
  from 1 2 3 4
  show "\<exists>img. image_buf_to_rgb (kw_decay_power a) (img_buf s) = Inr img
         \<and> list_all (\<lambda>x. 0 \<le> x \<and> x \<le> 1) (flatten3 img)
         \<and> (\<not> arg_show a \<longrightarrow> ret = Some img)
         \<and> (arg_show a \<and> \<not> arg_debug a \<longrightarrow>
              shown s \<noteq> [] \<and> last (shown s) = (None, permute_120 img))"
    by blast
qed

theorem image_in_unit_interval_witness:
  "has_shape5 1 3 2 (2 div 2 + 1) 2 zero_buf \<and> (0 :: nat) < 2 \<and> (0 :: real) \<le> 3 / 4
   \<and> (\<exists>img. image_buf_to_rgb (3 / 4) zero_buf = Inr img \<and> has_shape3 3 2 2 img
         \<and> list_all (\<lambda>x. 0 \<le> x \<and> x \<le> 1) (flatten3 img))
   \<and> image_buf_to_rgb (3 / 4) zero_buf = Inr grey_img"
proof -
  have h1: "(0 :: nat) < 2" and h2: "(0 :: real) \<le> 3 / 4" by simp_all
  show ?thesis
    by (intro conjI zero_buf_shape h1 h2 image_zero
          image_in_unit_interval[THEN conjunct1, THEN mp])
qed

end
